(* ===== verification/Prelude.thy ===== *)
theory Prelude
  imports Main "HOL-Library.Word"
begin

text \<open>
  What the component theories share: Go values (bytes, strings, slices that may be nil),
  the three ways a Go call ends, and the parts of the packages \<open>strings\<close>, \<open>strconv\<close> and
  \<open>fmt\<close> the program uses. A Go \<open>string\<close> is a HOL \<open>string\<close> (8-bit characters), a \<open>[]byte\<close>
  is a list of 8-bit words, and a \<open>[]byte\<close> whose nil-ness is observed is an option.
\<close>

unbundle bit_operations_syntax

named_theorems codec \<open>round trips of encoders and decoders\<close>
named_theorems go_defs \<open>definitions that handler proofs unfold\<close>

type_synonym byte = "8 word"
type_synonym bytes = "byte list"
type_synonym slice = "bytes option"
type_synonym go_time = int                 \<comment> \<open>nanoseconds\<close>

subsection \<open>How a call ends\<close>

text \<open>
  A Go call returns a value, returns an error (kept as its text), or panics.
\<close>

datatype 'a result = Ok 'a | Err string | Panic string

primrec bind_result :: "'a result \<Rightarrow> ('a \<Rightarrow> 'b result) \<Rightarrow> 'b result" where
  "bind_result (Ok a) f = f a"
| "bind_result (Err e) f = Err e"
| "bind_result (Panic p) f = Panic p"

primrec wrap_err :: "string \<Rightarrow> 'a result \<Rightarrow> 'a result" where
  "wrap_err m (Ok a) = Ok a"
| "wrap_err m (Err e) = Err (m @ e)"
| "wrap_err m (Panic p) = Panic p"

primrec is_panic :: "'a result \<Rightarrow> bool" where
  "is_panic (Ok a) = False"
| "is_panic (Err e) = False"
| "is_panic (Panic p) = True"

lemma bind_result_eq_Ok [simp]:
  "bind_result r f = Ok b \<longleftrightarrow> (\<exists>a. r = Ok a \<and> f a = Ok b)"
  by (cases r) simp_all

lemma wrap_err_eq_Ok [simp]: "wrap_err m r = Ok a \<longleftrightarrow> r = Ok a"
  by (cases r) simp_all

lemma wrap_err_eq_Panic [simp]: "wrap_err m r = Panic p \<longleftrightarrow> r = Panic p"
  by (cases r) simp_all

lemma is_panic_bind_result:
  "is_panic (bind_result r f) \<longleftrightarrow> is_panic r \<or> (\<exists>a. r = Ok a \<and> is_panic (f a))"
  by (cases r) simp_all

lemma is_panic_wrap_err [simp]: "is_panic (wrap_err m r) = is_panic r"
  by (cases r) simp_all

lemma is_panic_iff: "is_panic r \<longleftrightarrow> (\<exists>p. r = Panic p)"
  by (cases r) simp_all

lemma not_panic_cases:
  assumes "\<not> is_panic r"
  obtains (Ok) a where "r = Ok a" | (Err) e where "r = Err e"
  using assms by (cases r) auto

text \<open>What the run-time says when a nil pointer or a nil interface is used.\<close>

definition nil_deref :: string where
  "nil_deref = ''runtime error: invalid memory address or nil pointer dereference''"

subsection \<open>Strings and bytes\<close>

text \<open>The conversions \<open>[]byte(s)\<close> and \<open>string(b)\<close>.\<close>

definition byte_of_char :: "char \<Rightarrow> byte" where
  "byte_of_char c = word_of_nat (of_char c)"

definition char_of_byte :: "byte \<Rightarrow> char" where
  "char_of_byte b = char_of (unat b)"

definition bytes_of_string :: "string \<Rightarrow> bytes" where
  "bytes_of_string s = map byte_of_char s"

definition string_of_bytes :: "bytes \<Rightarrow> string" where
  "string_of_bytes b = map char_of_byte b"

lemma of_char_less_256: "(of_char c :: nat) < 256"
  by (metis char_of_mod_256 nat_of_char_less_256)

lemma char_of_byte_of_char [simp]: "char_of_byte (byte_of_char c) = c"
  by (simp add: char_of_byte_def byte_of_char_def unat_of_nat of_char_less_256)

lemma byte_of_char_of_byte [simp]: "byte_of_char (char_of_byte b) = b"
proof -
  have "unat b < 2 ^ LENGTH(8)" by (rule unsigned_less)
  then show ?thesis
    by (simp add: char_of_byte_def byte_of_char_def)
qed

lemma byte_of_char_inject [simp]: "byte_of_char c = byte_of_char d \<longleftrightarrow> c = d"
  by (metis char_of_byte_of_char)

lemma string_of_bytes_of_string [simp]: "string_of_bytes (bytes_of_string s) = s"
  by (simp add: string_of_bytes_def bytes_of_string_def comp_def)

lemma bytes_of_string_of_bytes [simp]: "bytes_of_string (string_of_bytes b) = b"
  by (simp add: string_of_bytes_def bytes_of_string_def comp_def)

lemma length_bytes_of_string [simp]: "length (bytes_of_string s) = length s"
  by (simp add: bytes_of_string_def)

lemma bytes_of_string_inject [simp]: "bytes_of_string s = bytes_of_string t \<longleftrightarrow> s = t"
  by (metis string_of_bytes_of_string)

subsection \<open>Package strings\<close>

text \<open>\<open>strings.Split\<close> with a one-character separator; it never returns an empty slice.\<close>

fun split_on :: "char \<Rightarrow> string \<Rightarrow> string list" where
  "split_on c [] = [[]]"
| "split_on c (x # xs) =
     (if x = c then [] # split_on c xs
      else (case split_on c xs of [] \<Rightarrow> [[x]] | y # ys \<Rightarrow> (x # y) # ys))"

lemma split_on_not_Nil [simp]: "split_on c s \<noteq> []"
  by (cases s) (auto split: list.splits)

lemma hd_split_on: "hd (split_on c s) = takeWhile (\<lambda>x. x \<noteq> c) s"
proof (induction s)
  case Nil
  then show ?case by simp
next
  case (Cons x xs)
  then show ?case by (cases "split_on c xs") auto
qed

definition is_space :: "char \<Rightarrow> bool" where
  "is_space c \<longleftrightarrow> c \<in> set [CHR 0x09, CHR 0x0A, CHR 0x0B, CHR 0x0C, CHR 0x0D, CHR 0x20]"

definition trim_space :: "string \<Rightarrow> string" where
  "trim_space s = rev (dropWhile is_space (rev (dropWhile is_space s)))"

subsection \<open>Decimal numerals\<close>

definition digit_char :: "nat \<Rightarrow> char" where
  "digit_char d = char_of (48 + d)"

definition digit_val :: "char \<Rightarrow> nat option" where
  "digit_val c = (let n = of_char c in if 48 \<le> n \<and> n \<le> 57 then Some (n - 48) else None)"

lemma digit_val_digit_char [simp]: "d < 10 \<Longrightarrow> digit_val (digit_char d) = Some d"
  by (simp add: digit_val_def digit_char_def Let_def)

fun show_nat :: "nat \<Rightarrow> string" where
  "show_nat n = (if n < 10 then [digit_char n] else show_nat (n div 10) @ [digit_char (n mod 10)])"

declare show_nat.simps [simp del]

definition show_int :: "int \<Rightarrow> string" where
  "show_int i = (if i < 0 then ''-'' @ show_nat (nat (- i)) else show_nat (nat i))"

fun digits_val :: "nat \<Rightarrow> string \<Rightarrow> nat option" where
  "digits_val acc [] = Some acc"
| "digits_val acc (c # cs) =
     (case digit_val c of None \<Rightarrow> None | Some d \<Rightarrow> digits_val (10 * acc + d) cs)"

definition read_nat :: "string \<Rightarrow> nat option" where
  "read_nat s = (if s = [] then None else digits_val 0 s)"

lemma digits_val_append:
  "digits_val acc (s @ t) =
     (case digits_val acc s of None \<Rightarrow> None | Some a \<Rightarrow> digits_val a t)"
  by (induction s arbitrary: acc) (auto split: option.splits)

lemma show_nat_not_Nil [simp]: "show_nat n \<noteq> []"
  by (subst show_nat.simps) simp

lemma digits_val_show_nat: "digits_val 0 (show_nat n) = Some n"
proof (induction n rule: show_nat.induct)
  case (1 n)
  show ?case
  proof (cases "n < 10")
    case True
    then show ?thesis by (subst show_nat.simps) simp
  next
    case False
    with 1 show ?thesis
      by (subst show_nat.simps) (simp add: digits_val_append)
  qed
qed

lemma read_nat_show_nat [simp, codec]: "read_nat (show_nat n) = Some n"
  by (simp add: read_nat_def digits_val_show_nat)

lemma show_nat_digits: "\<forall>c \<in> set (show_nat n). digit_val c \<noteq> None"
proof (induction n rule: show_nat.induct)
  case (1 n)
  then show ?case
    by (subst show_nat.simps) (auto simp: digit_val_digit_char)
qed

text \<open>\<open>strconv.Atoi\<close> on a 64-bit platform: an optional sign, decimal digits, the range of int.\<close>

definition int64_range :: "int \<Rightarrow> bool" where
  "int64_range i \<longleftrightarrow> - (2 ^ 63) \<le> i \<and> i < 2 ^ 63"

definition strconv_Atoi :: "string \<Rightarrow> int option" where
  "strconv_Atoi s =
     (let signed = (case s of [] \<Rightarrow> (1, s)
                    | c # cs \<Rightarrow> if c = CHR ''-'' then (-1, cs)
                              else if c = CHR ''+'' then (1, cs) else (1, s))
      in case read_nat (snd signed) of
           None \<Rightarrow> None
         | Some n \<Rightarrow> let i = fst signed * int n in if int64_range i then Some i else None)"

lemma strconv_Atoi_range: "strconv_Atoi s = Some i \<Longrightarrow> int64_range i"
  by (auto simp: strconv_Atoi_def Let_def split: option.splits if_splits)

subsection \<open>Lists\<close>

lemma take_append_exact [simp]: "length xs = n \<Longrightarrow> take n (xs @ ys) = xs"
  by simp

lemma drop_append_exact [simp]: "length xs = n \<Longrightarrow> drop n (xs @ ys) = ys"
  by simp

lemma split_at_unique:
  assumes "xs @ c # ys = xs' @ c # ys'" and "c \<notin> set xs" and "c \<notin> set xs'"
  shows "xs = xs' \<and> ys = ys'"
proof -
  have "takeWhile (\<lambda>x. x \<noteq> c) (xs @ c # ys) = xs"
    using assms(2) by (induction xs) auto
  moreover have "takeWhile (\<lambda>x. x \<noteq> c) (xs' @ c # ys') = xs'"
    using assms(3) by (induction xs') auto
  ultimately have "xs = xs'" using assms(1) by simp
  with assms(1) show ?thesis by simp
qed

end
