(* ===== verification/Go_Hex.thy ===== *)
theory Go_Hex
  imports Prelude
begin

text \<open>
  The package \<open>encoding/hex\<close> as node and client use it: \<open>EncodeToString\<close> writes two
  lower-case digits per byte, \<open>DecodeString\<close> accepts both cases and reports an odd length
  or the first byte that is no hexadecimal digit.
\<close>

datatype hex_error = ErrLength | InvalidByteError char

definition hex_digit :: "byte \<Rightarrow> char" where
  "hex_digit n = (if n < 10 then char_of (48 + unat n) else char_of (87 + unat n))"

definition from_hex_char :: "char \<Rightarrow> byte option" where
  "from_hex_char c =
     (let n = (of_char c :: nat)
      in if 48 \<le> n \<and> n \<le> 57 then Some (word_of_nat (n - 48))
         else if 97 \<le> n \<and> n \<le> 102 then Some (word_of_nat (n - 87))
         else if 65 \<le> n \<and> n \<le> 70 then Some (word_of_nat (n - 55))
         else None)"

definition hex_EncodeToString :: "bytes \<Rightarrow> string" where
  "hex_EncodeToString bs = concat (map (\<lambda>b. [hex_digit (drop_bit 4 b), hex_digit (b AND 15)]) bs)"

fun hex_DecodeString :: "string \<Rightarrow> hex_error + bytes" where
  "hex_DecodeString [] = Inr []"
| "hex_DecodeString [c] =
     (case from_hex_char c of None \<Rightarrow> Inl (InvalidByteError c) | Some _ \<Rightarrow> Inl ErrLength)"
| "hex_DecodeString (c # d # cs) =
     (case from_hex_char c of
        None \<Rightarrow> Inl (InvalidByteError c)
      | Some a \<Rightarrow> (case from_hex_char d of
          None \<Rightarrow> Inl (InvalidByteError d)
        | Some b \<Rightarrow> (case hex_DecodeString cs of
            Inl e \<Rightarrow> Inl e
          | Inr bs \<Rightarrow> Inr ((push_bit 4 a OR b) # bs))))"

lemma from_hex_char_hex_digit:
  assumes "n < (16 :: byte)"
  shows "from_hex_char (hex_digit n) = Some n"
proof -
  have n: "unat n < 16" using assms by (simp add: word_less_nat_alt)
  have small: "n < 10 \<longleftrightarrow> unat n < 10" by (simp add: word_less_nat_alt)
  show ?thesis
    using n by (simp add: from_hex_char_def hex_digit_def small Let_def)
qed

lemma high_nibble_less: "drop_bit 4 (b :: byte) < 16"
proof -
  have "unat b < 256" using unsigned_less [of b] by simp
  then have "unat b div 16 < 16" by simp
  then show ?thesis
    by (simp add: word_less_nat_alt drop_bit_eq_div unat_div)
qed

lemma low_nibble_less: "(b :: byte) AND 15 < 16"
proof -
  have "b AND 15 \<le> 15" by (rule word_and_le1)
  then show ?thesis by (rule order_le_less_trans) simp
qed

lemma nibbles_join: "push_bit 4 (drop_bit 4 b) OR (b AND 15) = (b :: byte)"
proof (rule bit_word_eqI)
  fix n
  assume n: "n < LENGTH(8)"
  have "bit (15 :: byte) n \<longleftrightarrow> n < 4"
    using bit_mask_iff [of 4 n, where 'a = byte] n by (simp add: mask_eq_exp_minus_1)
  then show "bit (push_bit 4 (drop_bit 4 b) OR (b AND 15)) n = bit b n"
    using n by (auto simp: bit_simps)
qed

lemma hex_Decode_Encode [simp, codec]: "hex_DecodeString (hex_EncodeToString bs) = Inr bs"
proof (induction bs)
  case Nil
  then show ?case by (simp add: hex_EncodeToString_def)
next
  case (Cons b bs)
  then show ?case
    by (simp add: hex_EncodeToString_def from_hex_char_hex_digit high_nibble_less
        low_nibble_less nibbles_join)
qed

lemma length_hex_EncodeToString [simp]: "length (hex_EncodeToString bs) = 2 * length bs"
  by (induction bs) (simp_all add: hex_EncodeToString_def)

lemma hex_EncodeToString_inject [simp]:
  "hex_EncodeToString a = hex_EncodeToString b \<longleftrightarrow> a = b"
  by (metis hex_Decode_Encode sum.inject(2))

lemma hex_EncodeToString_eq_Nil [simp]: "hex_EncodeToString bs = [] \<longleftrightarrow> bs = []"
  by (metis length_0_conv length_hex_EncodeToString mult_is_0 zero_neq_numeral)

lemma hex_DecodeString_length:
  "hex_DecodeString s = Inr bs \<Longrightarrow> length s = 2 * length bs"
  by (induction s arbitrary: bs rule: hex_DecodeString.induct)
    (auto split: option.splits sum.splits)

text \<open>A non-empty text never decodes to an empty slice: what \<open>/store\<close> relies on.\<close>

lemma hex_DecodeString_not_Nil:
  "hex_DecodeString s = Inr bs \<Longrightarrow> s \<noteq> [] \<Longrightarrow> bs \<noteq> []"
  using hex_DecodeString_length by fastforce

text \<open>Every byte the encoder writes is a digit or a lower-case letter, so it is never an underscore.\<close>

lemma hex_digit_alnum:
  assumes "n < (16 :: byte)"
  shows "hex_digit n \<in> set ''0123456789abcdef''"
proof -
  have "unat n < 16" using assms by (simp add: word_less_nat_alt)
  then have "unat n \<in> set [0..<16]" by simp
  moreover have "\<forall>k \<in> set [0..<16]. hex_digit (word_of_nat k) \<in> set ''0123456789abcdef''"
    by (simp add: hex_digit_def upt_rec char_of_def bit_simps) 
  ultimately have "hex_digit (word_of_nat (unat n)) \<in> set ''0123456789abcdef''" by blast
  then show ?thesis by simp
qed

lemma set_hex_EncodeToString: "set (hex_EncodeToString bs) \<subseteq> set ''0123456789abcdef''"
  using hex_digit_alnum [OF high_nibble_less] hex_digit_alnum [OF low_nibble_less]
  by (fastforce simp: hex_EncodeToString_def)

end
