(* ===== verification/Go_Json.thy ===== *)
theory Go_Json
  imports Go_Hex
begin

text \<open>
  The packages \<open>encoding/json\<close> and \<open>encoding/base64\<close>: the text \<open>json.Marshal\<close> writes, the
  text its decoder accepts, and how a JSON value is stored into the fields of a Go struct.
  Object members are kept in order with duplicates, since the decoder applies them in order.
  A number keeps its literal text. Bytes from 0x80 on are taken to be valid UTF-8 and pass
  through; field names are compared with ASCII case folding; the decoder's nesting limit of
  10000 is not modelled.
\<close>

datatype json =
    JNull
  | JBool bool
  | JNum string
  | JStr string
  | JArr "json list"
  | JObj "(string \<times> json) list"

subsection \<open>Writing\<close>

text \<open>String escapes of \<open>json.Marshal\<close>, the HTML-sensitive characters included.\<close>

definition json_esc :: "char \<Rightarrow> string" where
  "json_esc c =
     (if c = CHR 0x22 then [CHR 0x5C, CHR 0x22]
      else if c = CHR 0x5C then [CHR 0x5C, CHR 0x5C]
      else if c = CHR 0x08 then [CHR 0x5C, CHR ''b'']
      else if c = CHR 0x0C then [CHR 0x5C, CHR ''f'']
      else if c = CHR 0x0A then [CHR 0x5C, CHR ''n'']
      else if c = CHR 0x0D then [CHR 0x5C, CHR ''r'']
      else if c = CHR 0x09 then [CHR 0x5C, CHR ''t'']
      else if (of_char c :: nat) < 32 \<or> c = CHR ''<'' \<or> c = CHR ''>'' \<or> c = CHR ''&''
        then [CHR 0x5C, CHR ''u'', CHR ''0'', CHR ''0'',
              hex_digit (drop_bit 4 (byte_of_char c)), hex_digit (byte_of_char c AND 15)]
      else [c])"

definition json_text :: "string \<Rightarrow> string" where
  "json_text s = CHR 0x22 # concat (map json_esc s) @ [CHR 0x22]"

fun json_print :: "json \<Rightarrow> string"
  and json_print_elems :: "json list \<Rightarrow> string"
  and json_print_members :: "(string \<times> json) list \<Rightarrow> string" where
  "json_print JNull = ''null''"
| "json_print (JBool b) = (if b then ''true'' else ''false'')"
| "json_print (JNum s) = s"
| "json_print (JStr s) = json_text s"
| "json_print (JArr xs) = CHR ''['' # json_print_elems xs"
| "json_print (JObj kvs) = CHR ''{'' # json_print_members kvs"
| "json_print_elems [] = '']''"
| "json_print_elems [x] = json_print x @ '']''"
| "json_print_elems (x # y # ys) = json_print x @ CHR '','' # json_print_elems (y # ys)"
| "json_print_members [] = ''}''"
| "json_print_members [(k, v)] = json_text k @ CHR '':'' # json_print v @ ''}''"
| "json_print_members ((k, v) # m # ms) =
     json_text k @ CHR '':'' # json_print v @ CHR '','' # json_print_members (m # ms)"

subsection \<open>Reading\<close>

definition json_ws :: "char \<Rightarrow> bool" where
  "json_ws c \<longleftrightarrow> c = CHR 0x20 \<or> c = CHR 0x09 \<or> c = CHR 0x0A \<or> c = CHR 0x0D"

abbreviation skip_ws :: "string \<Rightarrow> string" where
  "skip_ws s \<equiv> dropWhile json_ws s"

definition is_digit :: "char \<Rightarrow> bool" where
  "is_digit c \<longleftrightarrow> digit_val c \<noteq> None"

definition hex4 :: "char \<Rightarrow> char \<Rightarrow> char \<Rightarrow> char \<Rightarrow> nat option" where
  "hex4 a b c d =
     (case (from_hex_char a, from_hex_char b, from_hex_char c, from_hex_char d) of
        (Some w, Some x, Some y, Some z) \<Rightarrow>
          Some (unat w * 4096 + unat x * 256 + unat y * 16 + unat z)
      | _ \<Rightarrow> None)"

definition utf8_encode :: "nat \<Rightarrow> string" where
  "utf8_encode n =
     (if n < 128 then [char_of n]
      else if n < 2048 then [char_of (192 + n div 64), char_of (128 + n mod 64)]
      else if n < 65536 then
        [char_of (224 + n div 4096), char_of (128 + n div 64 mod 64), char_of (128 + n mod 64)]
      else [char_of (240 + n div 262144), char_of (128 + n div 4096 mod 64),
            char_of (128 + n div 64 mod 64), char_of (128 + n mod 64)])"

definition simple_escape :: "char \<Rightarrow> char option" where
  "simple_escape c =
     (if c = CHR 0x22 \<or> c = CHR 0x5C \<or> c = CHR ''/'' then Some c
      else if c = CHR ''b'' then Some (CHR 0x08)
      else if c = CHR ''f'' then Some (CHR 0x0C)
      else if c = CHR ''n'' then Some (CHR 0x0A)
      else if c = CHR ''r'' then Some (CHR 0x0D)
      else if c = CHR ''t'' then Some (CHR 0x09)
      else None)"

text \<open>The second half of a surrogate pair, if the text goes on with one.\<close>

definition low_surrogate :: "string \<Rightarrow> (nat \<times> string) option" where
  "low_surrogate s =
     (case s of
        bs # u # a # b # c # d # r \<Rightarrow>
          if bs = CHR 0x5C \<and> u = CHR ''u'' then
            (case hex4 a b c d of
               Some n \<Rightarrow> if 56320 \<le> n \<and> n < 57344 then Some (n, r) else None
             | None \<Rightarrow> None)
          else None
      | _ \<Rightarrow> None)"

text \<open>
  The rune an escape stands for and the text after it; a lone surrogate half is U+FFFD.
\<close>

definition decode_rune :: "nat \<Rightarrow> string \<Rightarrow> nat \<times> string" where
  "decode_rune n r =
     (if 55296 \<le> n \<and> n < 56320 then
        (case low_surrogate r of
           Some (m, r') \<Rightarrow> (65536 + (n - 55296) * 1024 + (m - 56320), r')
         | None \<Rightarrow> (65533, r))
      else if 56320 \<le> n \<and> n < 57344 then (65533, r)
      else (n, r))"

lemma decode_rune_length: "length (snd (decode_rune n r)) \<le> length r"
  by (auto simp: decode_rune_def low_surrogate_def split: option.splits list.splits if_splits)

text \<open>The rest of a string literal, after its opening quote.\<close>

function p_string :: "string \<Rightarrow> (string \<times> string) option" where
  "p_string [] = None"
| "p_string (c # cs) =
     (if c = CHR 0x22 then Some ([], cs)
      else if c = CHR 0x5C then
        (case cs of
           [] \<Rightarrow> None
         | d # ds \<Rightarrow>
             if d = CHR ''u'' then
               (case ds of
                  w # x # y # z # r \<Rightarrow>
                    (case hex4 w x y z of
                       None \<Rightarrow> None
                     | Some n \<Rightarrow> map_option (apfst (\<lambda>s. utf8_encode (fst (decode_rune n r)) @ s))
                                  (p_string (snd (decode_rune n r))))
                | _ \<Rightarrow> None)
             else (case simple_escape d of
                     None \<Rightarrow> None
                   | Some e \<Rightarrow> map_option (apfst (Cons e)) (p_string ds)))
      else if (of_char c :: nat) < 32 then None
      else map_option (apfst (Cons c)) (p_string cs))"
  by pat_completeness auto
termination
proof (relation "measure length", goal_cases)
  case (2 c cs d ds w b x e y g z r n)
  then show ?case using decode_rune_length [of n r] by simp
qed auto

definition p_digits :: "string \<Rightarrow> string \<times> string" where
  "p_digits s = (takeWhile is_digit s, dropWhile is_digit s)"

text \<open>Fraction and exponent of a number; \<open>None\<close> is a syntax error.\<close>

definition p_frac :: "string \<Rightarrow> (string \<times> string) option" where
  "p_frac s =
     (case s of
        c # cs \<Rightarrow> if c = CHR ''.'' then
                   (let (ds, r) = p_digits cs in if ds = [] then None else Some (c # ds, r))
                 else Some ([], s)
      | [] \<Rightarrow> Some ([], s))"

definition p_exp :: "string \<Rightarrow> (string \<times> string) option" where
  "p_exp s =
     (case s of
        c # cs \<Rightarrow> if c = CHR ''e'' \<or> c = CHR ''E'' then
                   (let (sg, r1) = (case cs of
                                      d # ds \<Rightarrow> if d = CHR ''+'' \<or> d = CHR ''-'' then ([d], ds) else ([], cs)
                                    | [] \<Rightarrow> ([], cs));
                        (ds, r) = p_digits r1
                    in if ds = [] then None else Some (c # sg @ ds, r))
                 else Some ([], s)
      | [] \<Rightarrow> Some ([], s))"

definition p_number :: "string \<Rightarrow> (string \<times> string) option" where
  "p_number s =
     (let (sg, s1) = (case s of c # cs \<Rightarrow> if c = CHR ''-'' then ([c], cs) else ([], s) | [] \<Rightarrow> ([], s));
          (ip, s2) = (case s1 of c # cs \<Rightarrow> if c = CHR ''0'' then ([c], cs) else p_digits s1
                               | [] \<Rightarrow> p_digits s1)
      in if ip = [] then None
         else (case p_frac s2 of
                 None \<Rightarrow> None
               | Some (fp, s3) \<Rightarrow> (case p_exp s3 of
                     None \<Rightarrow> None
                   | Some (ep, s4) \<Rightarrow> Some (sg @ ip @ fp @ ep, s4))))"

definition p_literal :: "string \<Rightarrow> json \<Rightarrow> string \<Rightarrow> (json \<times> string) option" where
  "p_literal w v s = (if take (length w) s = w then Some (v, drop (length w) s) else None)"

text \<open>
  Values. The first argument is fuel; every call below another one reads at least one
  character, so the length of the text is enough.
\<close>

fun p_value :: "nat \<Rightarrow> string \<Rightarrow> (json \<times> string) option"
  and p_elems :: "nat \<Rightarrow> string \<Rightarrow> (json list \<times> string) option"
  and p_members :: "nat \<Rightarrow> string \<Rightarrow> ((string \<times> json) list \<times> string) option" where
  "p_value 0 s = None"
| "p_value (Suc n) s =
     (case skip_ws s of
        [] \<Rightarrow> None
      | c # cs \<Rightarrow>
          if c = CHR ''{'' then
            (case skip_ws cs of
               d # ds \<Rightarrow> if d = CHR ''}'' then Some (JObj [], ds)
                        else map_option (apfst JObj) (p_members n (d # ds))
             | [] \<Rightarrow> None)
          else if c = CHR ''['' then
            (case skip_ws cs of
               d # ds \<Rightarrow> if d = CHR '']'' then Some (JArr [], ds)
                        else map_option (apfst JArr) (p_elems n (d # ds))
             | [] \<Rightarrow> None)
          else if c = CHR 0x22 then map_option (apfst JStr) (p_string cs)
          else if c = CHR ''n'' then p_literal ''null'' JNull (c # cs)
          else if c = CHR ''t'' then p_literal ''true'' (JBool True) (c # cs)
          else if c = CHR ''f'' then p_literal ''false'' (JBool False) (c # cs)
          else map_option (apfst JNum) (p_number (c # cs)))"
| "p_elems 0 s = None"
| "p_elems (Suc n) s =
     (case p_value n s of
        None \<Rightarrow> None
      | Some (v, r) \<Rightarrow>
          (case skip_ws r of
             [] \<Rightarrow> None
           | c # cs \<Rightarrow> if c = CHR '','' then map_option (apfst (Cons v)) (p_elems n cs)
                      else if c = CHR '']'' then Some ([v], cs) else None))"
| "p_members 0 s = None"
| "p_members (Suc n) s =
     (case skip_ws s of
        [] \<Rightarrow> None
      | q # qs \<Rightarrow>
          if q \<noteq> CHR 0x22 then None
          else (case p_string qs of
                  None \<Rightarrow> None
                | Some (k, r) \<Rightarrow>
                    (case skip_ws r of
                       [] \<Rightarrow> None
                     | c # cs \<Rightarrow>
                         if c \<noteq> CHR '':'' then None
                         else (case p_value n cs of
                                 None \<Rightarrow> None
                               | Some (v, r2) \<Rightarrow>
                                   (case skip_ws r2 of
                                      [] \<Rightarrow> None
                                    | e # es \<Rightarrow>
                                        if e = CHR '','' then
                                          map_option (apfst (Cons (k, v))) (p_members n es)
                                        else if e = CHR ''}'' then Some ([(k, v)], es)
                                        else None)))))"

text \<open>
  \<open>json.Unmarshal\<close> wants one value and nothing but white space after it;
  \<open>json.NewDecoder(r).Decode\<close> takes the first value and leaves the rest unread.
\<close>

definition json_first :: "string \<Rightarrow> json option" where
  "json_first s = map_option fst (p_value (Suc (length s)) s)"

definition json_whole :: "string \<Rightarrow> json option" where
  "json_whole s =
     (case p_value (Suc (length s)) s of
        None \<Rightarrow> None
      | Some (v, r) \<Rightarrow> if skip_ws r = [] then Some v else None)"

subsection \<open>Reading back what was written\<close>

lemma hex4_byte:
  "hex4 (CHR ''0'') (CHR ''0'') (hex_digit (drop_bit 4 b)) (hex_digit (b AND 15)) = Some (unat b)"
proof -
  have zero: "from_hex_char (CHR ''0'') = Some 0"
    by (simp add: from_hex_char_def)
  have "unat b = unat (drop_bit 4 b) * 16 + unat (b AND 15)"
  proof -
    have "unat (drop_bit 4 b) = unat b div 16"
      by (simp add: drop_bit_eq_div unat_div)
    moreover have "unat (b AND 15) = unat b mod 16"
    proof -
      have "b AND 15 = take_bit 4 b" by (simp add: take_bit_eq_mask mask_eq_exp_minus_1)
      then show ?thesis by (simp add: take_bit_eq_mod unat_mod)
    qed
    ultimately show ?thesis by simp
  qed
  then show ?thesis
    by (simp add: hex4_def zero from_hex_char_hex_digit high_nibble_less low_nibble_less)
qed

lemma p_string_plain:
  "c \<noteq> CHR 0x22 \<Longrightarrow> c \<noteq> CHR 0x5C \<Longrightarrow> \<not> (of_char c :: nat) < 32 \<Longrightarrow>
   p_string (c # cs) = map_option (apfst (Cons c)) (p_string cs)"
  by simp

lemma p_string_u00:
  assumes "(of_char c :: nat) < 128"
  shows "p_string (CHR 0x5C # CHR ''u'' # CHR ''0'' # CHR ''0'' #
           hex_digit (drop_bit 4 (byte_of_char c)) # hex_digit (byte_of_char c AND 15) # r) =
         map_option (apfst (Cons c)) (p_string r)"
proof -
  have "unat (byte_of_char c) = of_char c"
    by (simp add: byte_of_char_def unat_of_nat of_char_less_256)
  moreover have "(@) [c] = Cons c" by (simp add: fun_eq_iff)
  ultimately show ?thesis
    using assms by (simp add: hex4_byte decode_rune_def utf8_encode_def)
qed

lemma p_string_esc: "p_string (json_esc c @ r) = map_option (apfst (Cons c)) (p_string r)"
proof (cases "c \<in> set [CHR 0x22, CHR 0x5C, CHR 0x08, CHR 0x0C, CHR 0x0A, CHR 0x0D, CHR 0x09]")
  case True
  then show ?thesis by (auto simp: json_esc_def simple_escape_def)
next
  case False
  show ?thesis
  proof (cases "(of_char c :: nat) < 32 \<or> c = CHR ''<'' \<or> c = CHR ''>'' \<or> c = CHR ''&''")
    case True
    then have "(of_char c :: nat) < 128" by auto
    with True False show ?thesis
      by (simp add: json_esc_def p_string_u00 del: p_string.simps)
  next
    case plain: False
    with False show ?thesis
      by (simp add: json_esc_def p_string_plain del: p_string.simps)
  qed
qed

lemma p_string_escaped:
  "p_string (concat (map json_esc s) @ CHR 0x22 # r) = Some (s, r)"
  by (induction s) (simp_all add: p_string_esc del: p_string.simps(2), simp)

lemma json_text_Cons: "json_text s @ r = CHR 0x22 # concat (map json_esc s) @ CHR 0x22 # r"
  by (simp add: json_text_def)

text \<open>Integer literals, as \<open>json.Marshal\<close> writes them.\<close>

definition stops_number :: "string \<Rightarrow> bool" where
  "stops_number r \<longleftrightarrow> (case r of [] \<Rightarrow> True | c # _ \<Rightarrow> c \<in> set [CHR '','', CHR '']'', CHR ''}'', CHR 0x0A])"

lemma digit_char_0: "digit_char 0 = CHR ''0''"
  by code_simp

lemma hd_show_nat: "0 < n \<Longrightarrow> hd (show_nat n) \<noteq> CHR ''0''"
proof (induction n rule: show_nat.induct)
  case (1 n)
  show ?case
  proof (cases "n < 10")
    case True
    with 1 have "n \<in> set [1,2,3,4,5,6,7,8,9]" by auto
    then show ?thesis by (subst show_nat.simps) (auto simp: digit_char_def char_of_def)
  next
    case False
    with 1 show ?thesis by (subst show_nat.simps) (simp add: hd_append)
  qed
qed

lemma digits_span:
  assumes "\<forall>c \<in> set ds. is_digit c" and "stops_number r"
  shows "p_digits (ds @ r) = (ds, r)"
proof -
  have "r = [] \<or> \<not> is_digit (hd r)"
    using assms(2) by (auto simp: stops_number_def is_digit_def digit_val_def split: list.splits)
  then show ?thesis
    using assms(1) by (cases r) (auto simp: p_digits_def takeWhile_append dropWhile_append2)
qed

lemma show_nat_is_digit: "\<forall>c \<in> set (show_nat n). is_digit c"
  using show_nat_digits by (simp add: is_digit_def)

lemma p_number_show_nat:
  assumes "stops_number r"
  shows "p_number (show_nat n @ r) = Some (show_nat n, r)"
proof -
  have stop: "p_frac r = Some ([], r)" "p_exp r = Some ([], r)"
    using assms by (auto simp: p_frac_def p_exp_def stops_number_def split: list.splits)
  obtain c cs where s: "show_nat n = c # cs" by (cases "show_nat n") simp_all
  have dig: "is_digit c" using show_nat_is_digit [of n] s by simp
  then have minus: "c \<noteq> CHR ''-''" by (auto simp: is_digit_def digit_val_def)
  have span: "p_digits (c # cs @ r) = (c # cs, r)"
    using digits_span [OF show_nat_is_digit assms, of n] s by simp
  show ?thesis
  proof (cases "n = 0")
    case True
    then have "c # cs = ''0''" using s digit_char_0 by (simp add: show_nat.simps)
    then show ?thesis using s stop by (simp add: p_number_def)
  next
    case False
    then have "c \<noteq> CHR ''0''" using hd_show_nat [of n] s by simp
    then show ?thesis using s stop minus span by (simp add: p_number_def)
  qed
qed

lemma p_number_show_int:
  assumes "stops_number r"
  shows "p_number (show_int i @ r) = Some (show_int i, r)"
proof (cases "i < 0")
  case True
  let ?n = "show_nat (nat (- i))"
  have "p_number (?n @ r) = Some (?n, r)" using assms by (rule p_number_show_nat)
  moreover obtain c cs where s: "?n = c # cs" by (cases ?n) simp_all
  moreover have "c \<noteq> CHR ''-''"
    using show_nat_is_digit [of "nat (- i)"] s by (auto simp: is_digit_def digit_val_def)
  ultimately have "p_number (CHR ''-'' # ?n @ r) = Some (CHR ''-'' # ?n, r)"
    by (auto simp: p_number_def Let_def split: prod.splits option.splits if_splits)
  then show ?thesis using True by (simp add: show_int_def)
next
  case False
  then show ?thesis using p_number_show_nat [OF assms] by (simp add: show_int_def)
qed

text \<open>
  The values the program writes hold integer numbers only; every such value is read back,
  whatever follows it, as long as a number cannot run on into what follows.
\<close>

fun json_ok :: "json \<Rightarrow> bool" where
  "json_ok (JNum s) \<longleftrightarrow> (\<exists>i. s = show_int i)"
| "json_ok (JArr xs) \<longleftrightarrow> (\<forall>x \<in> set xs. json_ok x)"
| "json_ok (JObj kvs) \<longleftrightarrow> (\<forall>kv \<in> set kvs. json_ok (snd kv))"
| "json_ok _ \<longleftrightarrow> True"

lemma show_int_Cons:
  obtains c cs where "show_int i = c # cs" and "is_digit c \<or> c = CHR ''-''"
proof (cases "i < 0")
  case True
  then show ?thesis using that by (simp add: show_int_def)
next
  case False
  then obtain c cs where "show_int i = c # cs" "c \<in> set (show_nat (nat i))"
    by (cases "show_nat (nat i)") (simp_all add: show_int_def)
  then show ?thesis using that show_nat_is_digit by blast
qed

lemma number_head:
  "is_digit c \<or> c = CHR ''-'' \<Longrightarrow>
   \<not> json_ws c \<and> c \<notin> set ''{[ntf]}'' \<and> c \<noteq> CHR 0x22"
  by (auto simp: is_digit_def digit_val_def json_ws_def split: if_splits)

text \<open>The first character of a printed value is no white space and no closing bracket.\<close>

lemma json_print_head:
  assumes "json_ok v"
  obtains c cs where "json_print v = c # cs" and "\<not> json_ws c" and "c \<notin> set '']}''"
proof (cases v)
  case (JNum s)
  with assms obtain i where "s = show_int i" by auto
  then show ?thesis using that JNum show_int_Cons number_head by (metis insertCI json_print.simps(3) list.set(2))
next
  case (JBool b)
  then show ?thesis using that by (cases b) (simp_all add: json_ws_def)
qed (use that in \<open>simp_all add: json_ws_def json_text_def\<close>)

lemma stops_number_simps [simp]:
  "stops_number []" "stops_number (CHR '','' # r)" "stops_number (CHR '']'' # r)"
  "stops_number (CHR ''}'' # r)" "stops_number (CHR 0x0A # r)"
  by (simp_all add: stops_number_def)

lemma p_value_number:
  assumes "stops_number r"
  shows "p_value (Suc n) (show_int i @ r) = Some (JNum (show_int i), r)"
proof -
  obtain c cs where s: "show_int i = c # cs" and c: "is_digit c \<or> c = CHR ''-''"
    by (rule show_int_Cons)
  from c have "\<not> json_ws c \<and> c \<notin> set ''{[ntf]}'' \<and> c \<noteq> CHR 0x22"
    by (rule number_head)
  then show ?thesis
    using p_number_show_int [OF assms, of i] s by simp
qed

lemma json_print_elems_head:
  assumes "xs \<noteq> []" and "\<forall>x \<in> set xs. json_ok x"
  obtains c cs where "json_print_elems xs = c # cs" and "\<not> json_ws c" and "c \<notin> set '']}''"
proof -
  obtain x ys where xs: "xs = x # ys" using assms(1) by (cases xs) auto
  then have "json_ok x" using assms(2) by simp
  then obtain c cs where "json_print x = c # cs" "\<not> json_ws c" "c \<notin> set '']}''"
    by (rule json_print_head)
  then show ?thesis using that xs by (cases ys) simp_all
qed

lemma json_print_members_head:
  assumes "kvs \<noteq> []"
  obtains cs where "json_print_members kvs = CHR 0x22 # cs"
  using assms that by (cases kvs rule: json_print_members.cases) (auto simp: json_text_def)

lemma p_value_array:
  assumes "xs \<noteq> []" and "\<forall>x \<in> set xs. json_ok x"
    and "p_elems n (json_print_elems xs @ r) = Some (xs, r)"
  shows "p_value (Suc n) (CHR ''['' # json_print_elems xs @ r) = Some (JArr xs, r)"
proof -
  obtain c cs where "json_print_elems xs = c # cs" "\<not> json_ws c" "c \<notin> set '']}''"
    using assms(1,2) by (rule json_print_elems_head)
  then show ?thesis using assms(3) by (simp add: json_ws_def)
qed

lemma p_value_object:
  assumes "kvs \<noteq> []" and "p_members n (json_print_members kvs @ r) = Some (kvs, r)"
  shows "p_value (Suc n) (CHR ''{'' # json_print_members kvs @ r) = Some (JObj kvs, r)"
proof -
  obtain cs where "json_print_members kvs = CHR 0x22 # cs"
    using assms(1) by (rule json_print_members_head)
  then show ?thesis using assms(2) by (simp add: json_ws_def)
qed

lemma p_members_step:
  assumes "p_value n (t @ e # es) = Some (v, e # es)" and "\<not> json_ws e"
  shows "p_members (Suc n) (json_text k @ CHR '':'' # t @ e # es) =
    (if e = CHR '','' then map_option (apfst (Cons (k, v))) (p_members n es)
     else if e = CHR ''}'' then Some ([(k, v)], es) else None)"
  using assms by (simp add: json_text_Cons p_string_escaped json_ws_def)

lemma p_value_print:
  "json_ok v \<Longrightarrow> length (json_print v) \<le> n \<Longrightarrow> stops_number r \<Longrightarrow>
     p_value n (json_print v @ r) = Some (v, r)"
  and p_elems_print:
  "\<forall>x \<in> set xs. json_ok x \<Longrightarrow> xs \<noteq> [] \<Longrightarrow> length (json_print_elems xs) \<le> n \<Longrightarrow>
     p_elems n (json_print_elems xs @ r) = Some (xs, r)"
  and p_members_print:
  "\<forall>kv \<in> set kvs. json_ok (snd kv) \<Longrightarrow> kvs \<noteq> [] \<Longrightarrow> length (json_print_members kvs) \<le> n \<Longrightarrow>
     p_members n (json_print_members kvs @ r) = Some (kvs, r)"
proof (induction v and xs and kvs arbitrary: n r and n r and n r
    rule: json_print_json_print_elems_json_print_members.induct)
  case 1
  then show ?case by (cases n) (simp_all add: json_ws_def p_literal_def)
next
  case (2 b)
  then show ?case by (cases n; cases b) (simp_all add: json_ws_def p_literal_def)
next
  case (3 s)
  then obtain i where "s = show_int i" by auto
  moreover have "show_int i \<noteq> []" by (rule show_int_Cons [of i]) simp
  ultimately show ?case using 3 by (cases n) (simp_all add: p_value_number del: p_value.simps)
next
  case (4 s)
  then show ?case
    by (cases n) (simp_all add: json_ws_def json_text_def p_string_escaped)
next
  case (5 xs)
  show ?case
  proof (cases "xs = []")
    case True
    with 5 show ?thesis by (cases n) (simp_all add: json_ws_def)
  next
    case False
    with 5 obtain m where n: "n = Suc m" by (cases n) auto
    with 5 False have "p_elems m (json_print_elems xs @ r) = Some (xs, r)" by simp
    then show ?thesis using n 5 False by (simp add: p_value_array del: p_value.simps)
  qed
next
  case (6 kvs)
  show ?case
  proof (cases "kvs = []")
    case True
    with 6 show ?thesis by (cases n) (simp_all add: json_ws_def)
  next
    case False
    with 6 obtain m where n: "n = Suc m" by (cases n) auto
    with 6 False have "p_members m (json_print_members kvs @ r) = Some (kvs, r)" by simp
    then show ?thesis using n 6 False by (simp add: p_value_object del: p_value.simps)
  qed
next
  case 7
  then show ?case by simp
next
  case (8 x)
  then obtain m where n: "n = Suc m" by (cases n) auto
  with 8 show ?case by (simp add: json_ws_def)
next
  case (9 x y ys)
  then obtain m where n: "n = Suc m" by (cases n) auto
  with 9 show ?case by (simp add: json_ws_def)
next
  case 10
  then show ?case by simp
next
  case (11 k v)
  then obtain m where n: "n = Suc m" by (cases n) auto
  with 11 have "p_value m (json_print v @ CHR ''}'' # r) = Some (v, CHR ''}'' # r)" by simp
  then show ?case
    using n p_members_step [of m "json_print v" "CHR ''}''" r v k]
    by (simp add: json_ws_def del: p_members.simps)
next
  case (12 k v kv kvs)
  let ?t = "json_print_members (kv # kvs) @ r"
  obtain m where n: "n = Suc m" using 12 by (cases n) auto
  have "p_value m (json_print v @ CHR '','' # ?t) = Some (v, CHR '','' # ?t)"
    using 12 n by simp
  moreover have "p_members m ?t = Some (kv # kvs, r)" using 12 n by simp
  ultimately show ?case
    using n p_members_step [of m "json_print v" "CHR '',''" ?t v k]
    by (simp add: json_ws_def del: p_members.simps)
qed

lemma json_whole_print [codec]: "json_ok v \<Longrightarrow> json_whole (json_print v) = Some v"
  using p_value_print [of v "Suc (length (json_print v))" "[]"] by (simp add: json_whole_def)

lemma json_first_print [codec]:
  "json_ok v \<Longrightarrow> stops_number r \<Longrightarrow> json_first (json_print v @ r) = Some v"
  using p_value_print [of v "Suc (length (json_print v @ r))" r] by (simp add: json_first_def)

subsection \<open>Base64\<close>

text \<open>A \<open>[]byte\<close> field is a padded base64 string in JSON, and null when it is nil.\<close>

definition b64_alphabet :: string where
  "b64_alphabet = ''ABCDEFGHIJKLMNOPQRSTUVWXYZabcdefghijklmnopqrstuvwxyz0123456789+/''"

definition b64_char :: "nat \<Rightarrow> char" where
  "b64_char i = b64_alphabet ! i"

fun index_from :: "nat \<Rightarrow> 'a \<Rightarrow> 'a list \<Rightarrow> nat option" where
  "index_from i x [] = None"
| "index_from i x (y # ys) = (if x = y then Some i else index_from (Suc i) x ys)"

definition b64_val :: "char \<Rightarrow> nat option" where
  "b64_val c = index_from 0 c b64_alphabet"

fun b64_encode :: "bytes \<Rightarrow> string" where
  "b64_encode [] = []"
| "b64_encode [a] =
     [b64_char (unat a div 4), b64_char (unat a mod 4 * 16), CHR ''='', CHR ''='']"
| "b64_encode [a, b] =
     [b64_char (unat a div 4), b64_char (unat a mod 4 * 16 + unat b div 16),
      b64_char (unat b mod 16 * 4), CHR ''='']"
| "b64_encode (a # b # c # r) =
     b64_char (unat a div 4) # b64_char (unat a mod 4 * 16 + unat b div 16) #
     b64_char (unat b mod 16 * 4 + unat c div 64) # b64_char (unat c mod 64) # b64_encode r"

definition b64_byte1 :: "nat \<Rightarrow> nat \<Rightarrow> byte" where
  "b64_byte1 w x = word_of_nat (w * 4 + x div 16)"

definition b64_byte2 :: "nat \<Rightarrow> nat \<Rightarrow> byte" where
  "b64_byte2 x y = word_of_nat (x mod 16 * 16 + y div 4)"

definition b64_byte3 :: "nat \<Rightarrow> nat \<Rightarrow> byte" where
  "b64_byte3 y z = word_of_nat (y mod 4 * 64 + z)"

text \<open>
  The standard decoder is not strict: it ignores the spare bits before the padding. It also
  skips line breaks, which \<open>b64_decode\<close> drops first.
\<close>

fun b64_quads :: "string \<Rightarrow> bytes option" where
  "b64_quads [] = Some []"
| "b64_quads (p # q # r # s # t) =
     (case (b64_val p, b64_val q) of
        (Some w, Some x) \<Rightarrow>
          if s = CHR ''='' then
            (if t \<noteq> [] then None
             else if r = CHR ''='' then Some [b64_byte1 w x]
             else (case b64_val r of
                     None \<Rightarrow> None
                   | Some y \<Rightarrow> Some [b64_byte1 w x, b64_byte2 x y]))
          else (case (b64_val r, b64_val s) of
                  (Some y, Some z) \<Rightarrow>
                    map_option (\<lambda>bs. b64_byte1 w x # b64_byte2 x y # b64_byte3 y z # bs) (b64_quads t)
                | _ \<Rightarrow> None)
      | _ \<Rightarrow> None)"
| "b64_quads _ = None"

definition b64_decode :: "string \<Rightarrow> bytes option" where
  "b64_decode s = b64_quads (filter (\<lambda>c. c \<noteq> CHR 0x0D \<and> c \<noteq> CHR 0x0A) s)"

lemma b64_alphabet_ok:
  "list_all (\<lambda>i. b64_val (b64_char i) = Some i \<and>
     b64_char i \<noteq> CHR ''='' \<and> b64_char i \<noteq> CHR 0x0D \<and> b64_char i \<noteq> CHR 0x0A) [0..<64]"
  by code_simp

lemma b64_char_ok [simp]:
  assumes "i < 64"
  shows "b64_val (b64_char i) = Some i" "b64_char i \<noteq> CHR ''=''"
    "b64_char i \<noteq> CHR 0x0D" "b64_char i \<noteq> CHR 0x0A"
  using b64_alphabet_ok assms by (simp_all add: list_all_iff)

lemma unat_byte_less [simp]: "unat (b :: byte) < 256"
  using unsigned_less [of b] by simp

lemma b64_sextets [simp]:
  "unat (a :: byte) div 4 < 64" "unat a mod 4 * 16 + unat (b :: byte) div 16 < 64"
  "unat a mod 4 * 16 < 64" "unat a mod 16 * 4 < 64"
  "unat a mod 16 * 4 + unat b div 64 < 64" "unat a mod 64 < 64"
  using unat_byte_less [of a] unat_byte_less [of b] by linarith+

lemma b64_arith:
  fixes a b c :: nat
  assumes "a < 256" and "b < 256" and "c < 256"
  shows "a div 4 * 4 + (a mod 4 * 16 + b div 16) div 16 = a"
    and "a div 4 * 4 + a mod 4 * 16 div 16 = a"
    and "(a mod 4 * 16 + b div 16) mod 16 * 16 + (b mod 16 * 4 + c div 64) div 4 = b"
    and "(a mod 4 * 16 + b div 16) mod 16 * 16 + b mod 16 * 4 div 4 = b"
    and "(b mod 16 * 4 + c div 64) mod 4 * 64 + c mod 64 = c"
proof -
  have "b div 16 < 16" and "c div 64 < 4" using assms by auto
  then show "a div 4 * 4 + (a mod 4 * 16 + b div 16) div 16 = a"
    and "a div 4 * 4 + a mod 4 * 16 div 16 = a"
    and "(a mod 4 * 16 + b div 16) mod 16 * 16 + (b mod 16 * 4 + c div 64) div 4 = b"
    and "(a mod 4 * 16 + b div 16) mod 16 * 16 + b mod 16 * 4 div 4 = b"
    and "(b mod 16 * 4 + c div 64) mod 4 * 64 + c mod 64 = c"
    by simp_all
qed

lemma b64_bytes [simp]:
  "b64_byte1 (unat a div 4) (unat a mod 4 * 16 + unat b div 16) = a"
  "b64_byte1 (unat a div 4) (unat a mod 4 * 16) = a"
  "b64_byte2 (unat a mod 4 * 16 + unat b div 16) (unat b mod 16 * 4 + unat c div 64) = b"
  "b64_byte2 (unat a mod 4 * 16 + unat b div 16) (unat b mod 16 * 4) = b"
  "b64_byte3 (unat b mod 16 * 4 + unat c div 64) (unat c mod 64) = c"
  by (simp_all only: b64_byte1_def b64_byte2_def b64_byte3_def of_nat_unat ucast_id
      b64_arith [OF unat_byte_less unat_byte_less unat_byte_less])

lemma b64_quads_encode: "b64_quads (b64_encode bs) = Some bs"
  by (induction bs rule: b64_encode.induct) simp_all

lemma b64_encode_no_breaks:
  "filter (\<lambda>c. c \<noteq> CHR 0x0D \<and> c \<noteq> CHR 0x0A) (b64_encode bs) = b64_encode bs"
  by (induction bs rule: b64_encode.induct) simp_all

lemma b64_decode_encode [simp, codec]: "b64_decode (b64_encode bs) = Some bs"
  by (simp add: b64_decode_def b64_encode_no_breaks b64_quads_encode)

subsection \<open>Struct fields\<close>

text \<open>
  The decoder walks the members in order; a member whose name folds to the field's name is
  stored into the field. Null leaves a string or number as it is and makes a slice nil; a
  value of another type is an \<open>UnmarshalTypeError\<close>, the \<open>None\<close> of these functions.
\<close>

definition fold_char :: "char \<Rightarrow> char" where
  "fold_char c =
     (let n = (of_char c :: nat) in if 65 \<le> n \<and> n \<le> 90 then char_of (n + 32) else c)"

definition fold_name :: "string \<Rightarrow> string" where
  "fold_name s = map fold_char s"

definition field_values :: "string \<Rightarrow> (string \<times> json) list \<Rightarrow> json list" where
  "field_values name kvs = map snd (filter (\<lambda>kv. fold_name (fst kv) = fold_name name) kvs)"

definition json_members :: "json \<Rightarrow> (string \<times> json) list option" where
  "json_members v = (case v of JNull \<Rightarrow> Some [] | JObj kvs \<Rightarrow> Some kvs | _ \<Rightarrow> None)"

fun set_string :: "string \<Rightarrow> json list \<Rightarrow> string option" where
  "set_string cur [] = Some cur"
| "set_string cur (JNull # vs) = set_string cur vs"
| "set_string cur (JStr s # vs) = set_string s vs"
| "set_string cur (_ # vs) = None"

fun set_bytes :: "slice \<Rightarrow> json list \<Rightarrow> slice option" where
  "set_bytes cur [] = Some cur"
| "set_bytes cur (JNull # vs) = set_bytes None vs"
| "set_bytes cur (JStr s # vs) =
     (case b64_decode s of None \<Rightarrow> None | Some b \<Rightarrow> set_bytes (Some b) vs)"
| "set_bytes cur (_ # vs) = None"

fun set_int :: "int \<Rightarrow> json list \<Rightarrow> int option" where
  "set_int cur [] = Some cur"
| "set_int cur (JNull # vs) = set_int cur vs"
| "set_int cur (JNum s # vs) =
     (case strconv_Atoi s of None \<Rightarrow> None | Some i \<Rightarrow> set_int i vs)"
| "set_int cur (_ # vs) = None"

definition string_field :: "string \<Rightarrow> (string \<times> json) list \<Rightarrow> string option" where
  "string_field name kvs = set_string [] (field_values name kvs)"

definition bytes_field :: "string \<Rightarrow> (string \<times> json) list \<Rightarrow> slice option" where
  "bytes_field name kvs = set_bytes None (field_values name kvs)"

definition int_field :: "string \<Rightarrow> (string \<times> json) list \<Rightarrow> int option" where
  "int_field name kvs = set_int 0 (field_values name kvs)"

definition slice_json :: "slice \<Rightarrow> json" where
  "slice_json s = (case s of None \<Rightarrow> JNull | Some b \<Rightarrow> JStr (b64_encode b))"

lemma set_bytes_slice_json [simp, codec]: "set_bytes cur [slice_json s] = Some s"
  by (cases s) (simp_all add: slice_json_def)

lemma json_ok_slice_json [simp]: "json_ok (slice_json s)"
  by (cases s) (simp_all add: slice_json_def)

lemma strconv_Atoi_show_int [simp, codec]:
  assumes "int64_range i"
  shows "strconv_Atoi (show_int i) = Some i"
proof (cases "i < 0")
  case True
  then show ?thesis using assms by (simp add: strconv_Atoi_def show_int_def)
next
  case False
  obtain c cs where s: "show_nat (nat i) = c # cs" by (cases "show_nat (nat i)") simp_all
  then have "is_digit c" using show_nat_is_digit [of "nat i"] by simp
  then have "c \<noteq> CHR ''-'' \<and> c \<noteq> CHR ''+''" by (auto simp: is_digit_def digit_val_def)
  then show ?thesis
    using False assms s read_nat_show_nat [of "nat i"]
    by (simp add: strconv_Atoi_def show_int_def)
qed

text \<open>A JSON object of string members, as \<open>json.Marshal\<close> writes a \<open>map[string]string\<close>.\<close>

abbreviation json_strings :: "(string \<times> string) list \<Rightarrow> json" where
  "json_strings kvs \<equiv> JObj (map (apsnd JStr) kvs)"

text \<open>
  The contract a struct offers through \<open>Marshal\<close> and \<open>Unmarshal\<close>, and what follows for the
  text: a marshalled value is read back from the text by both ways of decoding.
\<close>

locale json_codec =
  fixes to_json :: "'a \<Rightarrow> json"
    and of_json :: "json \<Rightarrow> 'a option"
    and valid :: "'a \<Rightarrow> bool"
  assumes to_json_ok: "valid a \<Longrightarrow> json_ok (to_json a)"
    and of_to_json: "valid a \<Longrightarrow> of_json (to_json a) = Some a"
begin

lemma unmarshal_marshal:
  "valid a \<Longrightarrow> Option.bind (json_whole (json_print (to_json a))) of_json = Some a"
  by (simp add: codec to_json_ok of_to_json)

lemma decode_marshal:
  "valid a \<Longrightarrow> Option.bind (json_first (json_print (to_json a))) of_json = Some a"
  using json_first_print [of "to_json a" "[]"] by (simp add: to_json_ok of_to_json)

lemma decode_encode:
  "valid a \<Longrightarrow> Option.bind (json_first (json_print (to_json a) @ [CHR 0x0A])) of_json = Some a"
  by (simp add: codec to_json_ok of_to_json)

end

end
