(* ===== verification/Client_Admin.thy ===== *)
theory Client_Admin
  imports Go_Json
begin

text \<open>
  \<open>client/admin/admin.go\<close>, the HTTP client of the administrative endpoints. \<open>http.NewRequest\<close> and
  the transport are parameters; the transport may change the network it works on. \<open>Status\<close>
  returns the decoded object.
\<close>

subsection \<open>Administrative client\<close>

record AdminClient =
  ac_NodeURL :: string
  ac_APIKey :: string

record admin_request =
  aq_Method :: string
  aq_URL :: string
  aq_Header :: "(string \<times> string) list"
  aq_Body :: "string option"

record 'n admin_env =
  ae_NewRequest :: "string \<Rightarrow> string \<Rightarrow> string option"    \<comment> \<open>error for method and URL\<close>
  ae_Do :: "admin_request \<Rightarrow> 'n \<Rightarrow> (string + nat \<times> (string + string)) \<times> 'n"
    \<comment> \<open>transport error, or the code and what reading the body gives\<close>

definition NewAdminClient :: "string \<Rightarrow> string \<Rightarrow> AdminClient" where
  "NewAdminClient nodeURL apiKey = \<lparr>ac_NodeURL = nodeURL, ac_APIKey = apiKey\<rparr>"

definition doJSON ::
    "'n admin_env \<Rightarrow> AdminClient \<Rightarrow> string \<Rightarrow> string \<Rightarrow> json option \<Rightarrow> 'n \<Rightarrow> (string \<times> nat) result \<times> 'n" where
  "doJSON A c method path body n =
     (let url = ac_NodeURL c @ path
      in case ae_NewRequest A method url of
           Some e \<Rightarrow> (Err e, n)
         | None \<Rightarrow>
             let req = \<lparr>aq_Method = method, aq_URL = url,
                        aq_Header = (if ac_APIKey c \<noteq> [] then [(''X-Api-Key'', ac_APIKey c)] else []) @
                                    [(''Content-Type'', ''application/json'')],
                        aq_Body = map_option json_print body\<rparr>
             in case ae_Do A req n of
                  (Inl e, n') \<Rightarrow> (Err e, n')
                | (Inr (code, Inl e), n') \<Rightarrow> (Err e, n')
                | (Inr (code, Inr data), n') \<Rightarrow> (Ok (data, code), n'))"

definition admin_RotateKey :: "'n admin_env \<Rightarrow> AdminClient \<Rightarrow> 'n \<Rightarrow> unit result \<times> 'n" where
  "admin_RotateKey A c n =
     (case doJSON A c ''POST'' ''/rotate-key'' None n of
        (Err e, n') \<Rightarrow> (Err e, n')
      | (Panic p, n') \<Rightarrow> (Panic p, n')
      | (Ok (_, code), n') \<Rightarrow>
          if code \<noteq> 200 then (Err (''rotate-key returned '' @ show_nat code), n') else (Ok (), n'))"

definition admin_PurgeShares :: "'n admin_env \<Rightarrow> AdminClient \<Rightarrow> string \<Rightarrow> string \<Rightarrow> 'n \<Rightarrow> unit result \<times> 'n" where
  "admin_PurgeShares A c objectID contractID n =
     (case doJSON A c ''DELETE'' ''/shares''
             (Some (json_strings [(''contract_id'', contractID), (''object_id'', objectID)])) n of
        (Err e, n') \<Rightarrow> (Err e, n')
      | (Panic p, n') \<Rightarrow> (Panic p, n')
      | (Ok (_, code), n') \<Rightarrow>
          if code \<noteq> 200 then (Err (''purge-shares returned '' @ show_nat code), n') else (Ok (), n'))"

definition admin_Status :: "'n admin_env \<Rightarrow> AdminClient \<Rightarrow> 'n \<Rightarrow> (string \<times> json) list result \<times> 'n" where
  "admin_Status A c n =
     (case doJSON A c ''GET'' ''/status'' None n of
        (Err e, n') \<Rightarrow> (Err e, n')
      | (Panic p, n') \<Rightarrow> (Panic p, n')
      | (Ok (data, _), n') \<Rightarrow>
          (case Option.bind (json_whole data) json_members of
             None \<Rightarrow> (Err ''json: cannot unmarshal status'', n')
           | Some m \<Rightarrow> (Ok m, n')))"

text \<open>An administrative call reports success exactly when the request could be built and sent and the node
  answered 200, and it sends the API key of the client.\<close>

theorem admin_RotateKey_Ok:
  "fst (admin_RotateKey A c n) = Ok () \<longleftrightarrow>
     ae_NewRequest A ''POST'' (ac_NodeURL c @ ''/rotate-key'') = None \<and>
     (\<exists>data. fst (ae_Do A \<lparr>aq_Method = ''POST'', aq_URL = ac_NodeURL c @ ''/rotate-key'',
         aq_Header = (if ac_APIKey c \<noteq> [] then [(''X-Api-Key'', ac_APIKey c)] else []) @
                     [(''Content-Type'', ''application/json'')], aq_Body = None\<rparr> n) = Inr (200, Inr data))"
  by (auto simp: admin_RotateKey_def doJSON_def Let_def split: option.splits sum.splits prod.splits)

end
