(* ===== verification/Go_Http.thy ===== *)
theory Go_Http
  imports Go_Json
begin

text \<open>
  The part of \<open>net/http\<close> the node is written against: requests, the response writer, handlers
  and the request multiplexer. A handler takes the writer, the request and the state of the
  node, and is served or panics (the server then drops the connection); in both cases the
  writer and the state are those reached. Header names are in canonical form.
\<close>

record http_request =
  r_Method :: string
  r_Path :: string
  r_Header :: "(string \<times> string) list"
  r_RemoteAddr :: string
  r_Body :: string
  r_MaxBytes :: "int option"         \<comment> \<open>limit of an http.MaxBytesReader around the body\<close>

record http_writer =
  w_code :: "nat option"             \<comment> \<open>None until the header is written\<close>
  w_header :: "(string \<times> string) list"
  w_body :: string
  w_status :: nat                    \<comment> \<open>code of a statusWriter around the writer\<close>

datatype 's outcome =
    Served http_writer 's
  | Panicked string http_writer 's

type_synonym 's handler = "http_writer \<Rightarrow> http_request \<Rightarrow> 's \<Rightarrow> 's outcome"

definition new_writer :: http_writer where
  "new_writer = \<lparr>w_code = None, w_header = [], w_body = [], w_status = 200\<rparr>"

definition header_get :: "http_request \<Rightarrow> string \<Rightarrow> string" where
  "header_get r k = (case map_of (r_Header r) k of None \<Rightarrow> [] | Some v \<Rightarrow> v)"

text \<open>Headers set after the header was written do not reach the client.\<close>

definition header_set :: "string \<Rightarrow> string \<Rightarrow> http_writer \<Rightarrow> http_writer" where
  "header_set k v w =
     (if w_code w = None then w\<lparr>w_header := (k, v) # filter (\<lambda>p. fst p \<noteq> k) (w_header w)\<rparr> else w)"

text \<open>
  \<open>WriteHeader\<close> of a \<open>statusWriter\<close> records the code and passes it on, where only the first
  counts. A \<open>Write\<close> before any \<open>WriteHeader\<close> sends 200, which the \<open>statusWriter\<close> does not see.
\<close>

definition write_header :: "nat \<Rightarrow> http_writer \<Rightarrow> http_writer" where
  "write_header code w =
     w\<lparr>w_status := code, w_code := (case w_code w of None \<Rightarrow> Some code | Some c \<Rightarrow> Some c)\<rparr>"

definition write_body :: "string \<Rightarrow> http_writer \<Rightarrow> http_writer" where
  "write_body s w =
     w\<lparr>w_code := (case w_code w of None \<Rightarrow> Some 200 | Some c \<Rightarrow> Some c), w_body := w_body w @ s\<rparr>"

text \<open>\<open>http.Error\<close>.\<close>

definition http_Error :: "string \<Rightarrow> nat \<Rightarrow> http_writer \<Rightarrow> http_writer" where
  "http_Error msg code w =
     write_body (msg @ [CHR 0x0A])
       (write_header code
         (header_set ''X-Content-Type-Options'' ''nosniff''
           (header_set ''Content-Type'' ''text/plain; charset=utf-8'' w)))"

text \<open>\<open>json.NewEncoder(w).Encode(v)\<close>: the value and a line break.\<close>

definition json_Encode :: "json \<Rightarrow> http_writer \<Rightarrow> http_writer" where
  "json_Encode v w = write_body (json_print v @ [CHR 0x0A]) w"

text \<open>
  What \<open>json.NewDecoder(r.Body).Decode\<close> sees of the body: at most the limit of the reader (a
  negative limit counts as 0). If the first value does not end within the limit, the read
  error is the decoder's error.
\<close>

definition body_seen :: "http_request \<Rightarrow> string" where
  "body_seen r =
     (case r_MaxBytes r of
        None \<Rightarrow> r_Body r
      | Some n \<Rightarrow> if int (length (r_Body r)) \<le> n then r_Body r else take (nat n) (r_Body r))"

definition json_Decode :: "http_request \<Rightarrow> json option" where
  "json_Decode r = json_first (body_seen r)"

primrec outcome_writer :: "'s outcome \<Rightarrow> http_writer" where
  "outcome_writer (Served w s) = w"
| "outcome_writer (Panicked p w s) = w"

primrec outcome_state :: "'s outcome \<Rightarrow> 's" where
  "outcome_state (Served w s) = s"
| "outcome_state (Panicked p w s) = s"

primrec served :: "'s outcome \<Rightarrow> bool" where
  "served (Served w s) = True"
| "served (Panicked p w s) = False"

text \<open>
  The status code the client sees; a handler that writes nothing is answered with 200 and a
  panic before anything is written with no response at all.
\<close>

definition status_of :: "'s outcome \<Rightarrow> nat option" where
  "status_of out =
     (case out of
        Served w s \<Rightarrow> (case w_code w of None \<Rightarrow> Some 200 | Some c \<Rightarrow> Some c)
      | Panicked p w s \<Rightarrow> None)"

subsection \<open>The multiplexer\<close>

text \<open>
  \<open>http.ServeMux\<close> with patterns that are plain paths: they start with a slash, are clean, and have no
  wildcard, method or host. Registering a pattern twice panics, and so does one without any slash; a
  pattern that ends in a slash matches the paths below it, the longest match wins, and a path
  without a match gets 404. \<open>Err\<close> stands for a pattern that is outside this model, so that nothing is
  claimed of a server with one. Redirects to a cleaned path are not modelled.
\<close>

type_synonym 's mux = "(string \<times> 's handler) list"

definition plain_path :: "string \<Rightarrow> bool" where
  "plain_path p \<longleftrightarrow>
     (case p of [] \<Rightarrow> False
      | c # rest \<Rightarrow>
          c = CHR ''/'' \<and> list_all (\<lambda>d. d \<notin> set [CHR ''{'', CHR ''}'', CHR 0x20, CHR 0x09]) rest \<and>
          list_all (\<lambda>seg. seg \<noteq> []) (butlast (split_on (CHR ''/'') rest)) \<and>
          list_all (\<lambda>seg. seg \<noteq> ''.'' \<and> seg \<noteq> ''..'') (split_on (CHR ''/'') rest))"

definition mux_handle :: "string \<Rightarrow> 's handler \<Rightarrow> 's mux \<Rightarrow> 's mux result" where
  "mux_handle pat h m =
     (if CHR ''/'' \<notin> set pat then Panic ''host/path missing /''
      else if \<not> plain_path pat then Err ''pattern outside the model''
      else if pat \<in> set (map fst m) then Panic (''http: multiple registrations for '' @ pat)
      else Ok (m @ [(pat, h)]))"

definition path_matches :: "string \<Rightarrow> string \<Rightarrow> bool" where
  "path_matches pat p \<longleftrightarrow> p = pat \<or> (pat \<noteq> [] \<and> last pat = CHR ''/'' \<and> take (length pat) p = pat)"

fun best_match :: "string \<Rightarrow> 's mux \<Rightarrow> (string \<times> 's handler) option" where
  "best_match p [] = None"
| "best_match p ((pat, h) # m) =
     (let rest = best_match p m
      in if path_matches pat p then
           (case rest of
              None \<Rightarrow> Some (pat, h)
            | Some (pat', h') \<Rightarrow> if length pat' \<le> length pat then Some (pat, h) else rest)
         else rest)"

definition mux_serve :: "'s mux \<Rightarrow> 's handler" where
  "mux_serve m w r s =
     (case best_match (r_Path r) m of
        Some (pat, h) \<Rightarrow> h w r s
      | None \<Rightarrow> Served (http_Error ''404 page not found'' 404 w) s)"

lemma plain_path_slash: "plain_path p \<Longrightarrow> CHR ''/'' \<in> set p"
  by (cases p) (simp_all add: plain_path_def)

lemma header_set_fields [simp]:
  "w_code (header_set k v w) = w_code w" "w_body (header_set k v w) = w_body w"
  by (simp_all add: header_set_def)

lemma write_body_code: "w_code (write_body s w) = (case w_code w of None \<Rightarrow> Some 200 | Some c \<Rightarrow> Some c)"
  by (simp add: write_body_def write_header_def Let_def split: option.splits)

lemma http_Error_code [simp]: "w_code w = None \<Longrightarrow> w_code (http_Error msg code w) = Some code"
  by (simp add: http_Error_def write_body_code write_header_def)

lemma http_Error_body [simp]: "w_body (http_Error msg code w) = w_body w @ msg @ [CHR 0x0A]"
  by (simp add: http_Error_def write_body_def write_header_def Let_def)

lemma json_Encode_body [simp]: "w_body (json_Encode v w) = w_body w @ json_print v @ [CHR 0x0A]"
  by (simp add: json_Encode_def write_body_def write_header_def Let_def)

lemma json_Encode_code: "w_code (json_Encode v w) = (case w_code w of None \<Rightarrow> Some 200 | Some c \<Rightarrow> Some c)"
  by (simp add: json_Encode_def write_body_code)

lemma write_header_code [simp]: "w_code w = None \<Longrightarrow> w_code (write_header c w) = Some c"
  by (simp add: write_header_def)

lemma write_header_body [simp]: "w_body (write_header c w) = w_body w"
  by (simp add: write_header_def)

lemma new_writer_fields [simp]: "w_code new_writer = None" "w_body new_writer = []"
  by (simp_all add: new_writer_def)

lemma status_of_Served: "w_code w = Some c \<Longrightarrow> status_of (Served w s) = Some c"
  by (simp add: status_of_def)

lemma body_seen_unlimited [simp]: "r_MaxBytes r = None \<Longrightarrow> body_seen r = r_Body r"
  by (simp add: body_seen_def)

lemma best_match_exact:
  assumes "distinct (map fst m)" and "(p, h) \<in> set m"
  shows "\<exists>h'. best_match p m = Some (p, h') \<and> (p, h') \<in> set m"
  using assms
proof (induction m)
  case (Cons e m)
  obtain pat g where e: "e = (pat, g)" by (cases e)
  have longest: "\<And>pat' h'. best_match p m = Some (pat', h') \<Longrightarrow> length pat' \<le> length p \<and> (pat', h') \<in> set m"
  proof (induction m)
    case (Cons e' m')
    then show ?case
      by (cases e') (auto simp: path_matches_def Let_def split: if_splits option.splits,
          (metis append_take_drop_id length_append le_add1)+)
  qed simp
  show ?case
  proof (cases "pat = p")
    case True
    then show ?thesis using e longest by (auto simp: Let_def path_matches_def split: option.splits)
  next
    case False
    then obtain h' where h': "best_match p m = Some (p, h')" "(p, h') \<in> set m" using Cons e by auto
    have "path_matches pat p \<Longrightarrow> length pat < length p"
    proof -
      assume "path_matches pat p"
      then have "take (length pat) p = pat" using False by (auto simp: path_matches_def)
      then show ?thesis using False by (metis linorder_not_le take_all)
    qed
    then show ?thesis using e h' by (auto simp: Let_def)
  qed
qed simp

end
