(* ===== verification/Node_Store.thy ===== *)
theory Node_Store
  imports Go_Json "HOL-Library.AList"
begin

text \<open>
  \<open>node/store.go\<close> and \<open>node/store_interface.go\<close>: the share store of a node on a bbolt
  database. bbolt is not part of the repository: a database handle carries the operations
  bbolt offers and the database they work on, and \<open>bolt_ok\<close> states what bbolt documents of
  them. The \<open>ShareStore\<close> interface of the code is a locale; \<open>BoltStore\<close> is its interpretation.
\<close>

subsection \<open>bbolt\<close>

record 'db bolt_api =
  bolt_begin :: "'db \<Rightarrow> bool \<Rightarrow> string option"          \<comment> \<open>error of Begin(writable)\<close>
  bolt_bucket :: "'db \<Rightarrow> string \<Rightarrow> bool"                 \<comment> \<open>tx.Bucket is not nil\<close>
  bolt_create :: "'db \<Rightarrow> string \<Rightarrow> string + 'db"         \<comment> \<open>CreateBucketIfNotExists\<close>
  bolt_put :: "'db \<Rightarrow> string \<Rightarrow> string \<Rightarrow> string \<Rightarrow> string + 'db"
  bolt_get :: "'db \<Rightarrow> string \<Rightarrow> string \<Rightarrow> string option"
  bolt_delete :: "'db \<Rightarrow> string \<Rightarrow> string \<Rightarrow> string + 'db"
  bolt_foreach :: "'db \<Rightarrow> string \<Rightarrow> (string \<times> string) list"
  bolt_close :: "'db \<Rightarrow> string option \<times> 'db"

record 'db DB =
  bolt :: "'db bolt_api"
  bdata :: 'db

text \<open>
  Documented behaviour: a committed Put or Delete is seen by the next Get and touches no other
  key; neither removes a bucket or closes the database; a created bucket is there and starts
  without changing others; ForEach visits every key once, with the value Get returns.
\<close>

definition bolt_same :: "'db bolt_api \<Rightarrow> 'db \<Rightarrow> 'db \<Rightarrow> bool" where
  "bolt_same B x y \<longleftrightarrow>
     (\<forall>w. bolt_begin B y w = bolt_begin B x w) \<and> (\<forall>b. bolt_bucket B x b \<longrightarrow> bolt_bucket B y b)"

definition bolt_ok :: "'db bolt_api \<Rightarrow> bool" where
  "bolt_ok B \<longleftrightarrow>
     (\<forall>x b k v y. bolt_put B x b k v = Inr y \<longrightarrow>
        bolt_same B x y \<and>
        (\<forall>b' k'. bolt_get B y b' k' = (if b' = b \<and> k' = k then Some v else bolt_get B x b' k'))) \<and>
     (\<forall>x b k y. bolt_delete B x b k = Inr y \<longrightarrow>
        bolt_same B x y \<and>
        (\<forall>b' k'. bolt_get B y b' k' = (if b' = b \<and> k' = k then None else bolt_get B x b' k'))) \<and>
     (\<forall>x b y. bolt_create B x b = Inr y \<longrightarrow>
        bolt_same B x y \<and> bolt_bucket B y b \<and> (\<forall>b' k'. bolt_get B y b' k' = bolt_get B x b' k')) \<and>
     (\<forall>x b. distinct (map fst (bolt_foreach B x b)) \<and>
        map_of (bolt_foreach B x b) = bolt_get B x b)"

lemma bolt_putD:
  assumes "bolt_ok B" and "bolt_put B x b k v = Inr y"
  shows "bolt_same B x y"
    and "bolt_get B y b' k' = (if b' = b \<and> k' = k then Some v else bolt_get B x b' k')"
  using assms unfolding bolt_ok_def by blast+

lemma bolt_deleteD:
  assumes "bolt_ok B" and "bolt_delete B x b k = Inr y"
  shows "bolt_same B x y"
    and "bolt_get B y b' k' = (if b' = b \<and> k' = k then None else bolt_get B x b' k')"
  using assms unfolding bolt_ok_def by blast+

lemma bolt_createD:
  assumes "bolt_ok B" and "bolt_create B x b = Inr y"
  shows "bolt_same B x y" and "bolt_bucket B y b" and "bolt_get B y b' k' = bolt_get B x b' k'"
  using assms unfolding bolt_ok_def by blast+

lemma bolt_foreachD:
  assumes "bolt_ok B"
  shows "distinct (map fst (bolt_foreach B x b))" and "map_of (bolt_foreach B x b) = bolt_get B x b"
  using assms unfolding bolt_ok_def by blast+

text \<open>
  \<open>db.Update\<close> and \<open>db.View\<close> on a pointer that may be nil. The function given to \<open>Update\<close> returns
  the database with its change; an error or a panic rolls it back.
\<close>

type_synonym 'db db_ptr = "'db DB option"

definition db_Update :: "'db db_ptr \<Rightarrow> ('db bolt_api \<Rightarrow> 'db \<Rightarrow> 'db result) \<Rightarrow> 'db db_ptr result" where
  "db_Update db fn =
     (case db of
        None \<Rightarrow> Panic nil_deref
      | Some d \<Rightarrow>
          (case bolt_begin (bolt d) (bdata d) True of
             Some e \<Rightarrow> Err e
           | None \<Rightarrow> bind_result (fn (bolt d) (bdata d)) (\<lambda>x. Ok (Some (d\<lparr>bdata := x\<rparr>)))))"

definition db_View :: "'db db_ptr \<Rightarrow> ('db bolt_api \<Rightarrow> 'db \<Rightarrow> 'a result) \<Rightarrow> 'a result" where
  "db_View db fn =
     (case db of
        None \<Rightarrow> Panic nil_deref
      | Some d \<Rightarrow>
          (case bolt_begin (bolt d) (bdata d) False of
             Some e \<Rightarrow> Err e
           | None \<Rightarrow> fn (bolt d) (bdata d)))"

definition of_sum :: "string + 'a \<Rightarrow> 'a result" where
  "of_sum s = (case s of Inl e \<Rightarrow> Err e | Inr a \<Rightarrow> Ok a)"

lemma of_sum_eq_Ok [simp]: "of_sum s = Ok a \<longleftrightarrow> s = Inr a"
  by (simp add: of_sum_def split: sum.splits)

subsection \<open>Stored shares\<close>

record StoredShareDB =
  sh_EphemeralPubKey :: slice
  sh_Ciphertext :: slice
  sh_Nonce :: slice

definition zero_share :: StoredShareDB where
  "zero_share = \<lparr>sh_EphemeralPubKey = None, sh_Ciphertext = None, sh_Nonce = None\<rparr>"

definition share_to_json :: "StoredShareDB \<Rightarrow> json" where
  "share_to_json s =
     JObj [(''ephemeral_pubkey'', slice_json (sh_EphemeralPubKey s)),
           (''ciphertext'', slice_json (sh_Ciphertext s)),
           (''nonce'', slice_json (sh_Nonce s))]"

definition share_of_json :: "json \<Rightarrow> StoredShareDB option" where
  "share_of_json v =
     Option.bind (json_members v) (\<lambda>ms.
     Option.bind (bytes_field ''ephemeral_pubkey'' ms) (\<lambda>e.
     Option.bind (bytes_field ''ciphertext'' ms) (\<lambda>c.
     Option.bind (bytes_field ''nonce'' ms) (\<lambda>n.
       Some \<lparr>sh_EphemeralPubKey = e, sh_Ciphertext = c, sh_Nonce = n\<rparr>))))"

record StoredShareV2 =
  v2_EphemeralPubKey :: slice
  v2_Ciphertext :: slice
  v2_Nonce :: slice
  v2_KeyVersion :: "64 word"

definition shareBucket :: string where
  "shareBucket = ''shares''"

definition dataDir :: string where
  "dataDir = ''./data''"

text \<open>
  \<open>initDB\<close>: the environment, \<open>os.MkdirAll\<close> and \<open>bolt.Open\<close> are arguments. A failed Open leaves
  the global pointer nil.
\<close>

definition initDB ::
    "(string \<Rightarrow> string) \<Rightarrow> (string \<Rightarrow> string option) \<Rightarrow> (string \<Rightarrow> string + 'db DB) \<Rightarrow>
     'db db_ptr \<Rightarrow> unit result \<times> 'db db_ptr" where
  "initDB getenv mkdirAll open_db db =
     (let dir = (if getenv ''DATA_DIR'' = [] then dataDir else getenv ''DATA_DIR'')
      in case mkdirAll dir of
           Some e \<Rightarrow> (Err (''failed to create data directory '' @ dir @ '': '' @ e), db)
         | None \<Rightarrow>
             (case open_db (dir @ ''/shares.db'') of
                Inl e \<Rightarrow> (Err (''failed to open BoltDB: '' @ e), None)
              | Inr d \<Rightarrow>
                  (case db_Update (Some d) (\<lambda>B x. wrap_err ''failed to create shares bucket: ''
                          (of_sum (bolt_create B x shareBucket))) of
                     Ok db' \<Rightarrow> (Ok (), db')
                   | Err e \<Rightarrow> (Err e, Some d)
                   | Panic p \<Rightarrow> (Panic p, Some d))))"

definition saveShare :: "'db db_ptr \<Rightarrow> string \<Rightarrow> StoredShareDB \<Rightarrow> 'db db_ptr result" where
  "saveShare db key share =
     (let data = json_print (share_to_json share)
      in db_Update db (\<lambda>B x.
           if \<not> bolt_bucket B x shareBucket then Panic nil_deref
           else of_sum (bolt_put B x shareBucket key data)))"

definition loadShare :: "'db db_ptr \<Rightarrow> string \<Rightarrow> (StoredShareDB \<times> bool) result" where
  "loadShare db key =
     bind_result
       (db_View db (\<lambda>B x.
          if \<not> bolt_bucket B x shareBucket then Panic nil_deref
          else (case bolt_get B x shareBucket key of
                  None \<Rightarrow> Ok zero_share
                | Some v \<Rightarrow>
                    (case Option.bind (json_whole v) share_of_json of
                       None \<Rightarrow> Err ''json: cannot unmarshal stored share''
                     | Some share \<Rightarrow> Ok share))))
       (\<lambda>share. Ok (share, sh_Ciphertext share \<noteq> None))"

definition countShares :: "'db db_ptr \<Rightarrow> nat result" where
  "countShares db =
     db_View db (\<lambda>B x.
       if \<not> bolt_bucket B x shareBucket then Panic nil_deref
       else Ok (length (bolt_foreach B x shareBucket)))"

definition deleteShare :: "'db db_ptr \<Rightarrow> string \<Rightarrow> 'db db_ptr result" where
  "deleteShare db key =
     db_Update db (\<lambda>B x.
       if \<not> bolt_bucket B x shareBucket then Panic nil_deref
       else of_sum (bolt_delete B x shareBucket key))"

definition closeDB :: "'db db_ptr \<Rightarrow> 'db db_ptr" where
  "closeDB db =
     (case db of None \<Rightarrow> None | Some d \<Rightarrow> Some (d\<lparr>bdata := snd (bolt_close (bolt d) (bdata d))\<rparr>))"

definition listShareKeys :: "'db db_ptr \<Rightarrow> string list result" where
  "listShareKeys db =
     db_View db (\<lambda>B x.
       if \<not> bolt_bucket B x shareBucket then Panic nil_deref
       else Ok (map fst (bolt_foreach B x shareBucket)))"

subsection \<open>The codec of a stored share\<close>

lemma field_values_Nil [simp]: "field_values n [] = []"
  by (simp add: field_values_def)

lemma field_values_Cons:
  "field_values n ((k, v) # kvs) =
     (if fold_name k = fold_name n then v # field_values n kvs else field_values n kvs)"
  by (simp add: field_values_def)

lemma fold_share_names:
  "fold_name ''ephemeral_pubkey'' = ''ephemeral_pubkey''"
  "fold_name ''ciphertext'' = ''ciphertext''" "fold_name ''nonce'' = ''nonce''"
  by code_simp+

interpretation share_json: json_codec share_to_json share_of_json "\<lambda>_. True"
proof
  fix s :: StoredShareDB
  show "json_ok (share_to_json s)" by (simp add: share_to_json_def)
  show "share_of_json (share_to_json s) = Some s"
    by (simp add: share_to_json_def share_of_json_def json_members_def bytes_field_def
        field_values_Cons fold_share_names)
qed

subsection \<open>The ShareStore interface\<close>

text \<open>
  What the handlers rely on: Save, Load, Delete and Count of a store whose content is a map
  from keys to shares. \<open>good\<close> is the state in which the store is open. A share without
  ciphertext is reported as absent, so only shares with ciphertext count as content.
\<close>

locale share_store =
  fixes Save :: "'s \<Rightarrow> string \<Rightarrow> StoredShareDB \<Rightarrow> 's result"
    and Load :: "'s \<Rightarrow> string \<Rightarrow> (StoredShareDB \<times> bool) result"
    and Delete :: "'s \<Rightarrow> string \<Rightarrow> 's result"
    and good :: "'s \<Rightarrow> bool"
  assumes Save_good: "good s \<Longrightarrow> Save s k sh = Ok s' \<Longrightarrow> good s'"
    and Delete_good: "good s \<Longrightarrow> Delete s k = Ok s' \<Longrightarrow> good s'"
    and Load_no_panic: "good s \<Longrightarrow> \<not> is_panic (Load s k)"
    and Load_Save: "good s \<Longrightarrow> Save s k sh = Ok s' \<Longrightarrow> Load s' k = Ok (sh, sh_Ciphertext sh \<noteq> None)"
    and Load_Save_other: "good s \<Longrightarrow> Save s k sh = Ok s' \<Longrightarrow> k' \<noteq> k \<Longrightarrow> Load s' k' = Load s k'"
    and Load_Delete: "good s \<Longrightarrow> Delete s k = Ok s' \<Longrightarrow> Load s' k = Ok (zero_share, False)"
    and Load_Delete_other: "good s \<Longrightarrow> Delete s k = Ok s' \<Longrightarrow> k' \<noteq> k \<Longrightarrow> Load s' k' = Load s k'"
begin

definition content :: "'s \<Rightarrow> string \<Rightarrow> StoredShareDB option" where
  "content s k = (case Load s k of Ok (sh, True) \<Rightarrow> Some sh | _ \<Rightarrow> None)"

lemma content_eq_Some: "content s k = Some sh \<longleftrightarrow> Load s k = Ok (sh, True)"
  by (auto simp: content_def split: result.splits bool.splits)

lemma content_Save:
  assumes "good s" and "Save s k sh = Ok s'" and "sh_Ciphertext sh \<noteq> None"
  shows "content s' = (content s)(k \<mapsto> sh)"
proof
  fix k'
  show "content s' k' = ((content s)(k \<mapsto> sh)) k'"
    using Load_Save [OF assms(1,2)] Load_Save_other [OF assms(1,2), of k'] assms(3)
    by (simp add: content_def)
qed

lemma content_Delete:
  assumes "good s" and "Delete s k = Ok s'"
  shows "content s' = (content s)(k := None)"
proof
  fix k'
  show "content s' k' = ((content s)(k := None)) k'"
    using Load_Delete [OF assms] Load_Delete_other [OF assms, of k'] by (simp add: content_def)
qed

end

text \<open>The methods of \<open>BoltStore\<close>, the store behind \<open>globalStore\<close>.\<close>

definition BoltStore_Save :: "'db db_ptr \<Rightarrow> string \<Rightarrow> StoredShareDB \<Rightarrow> 'db db_ptr result" where
  [simp]: "BoltStore_Save db key share = saveShare db key share"

definition BoltStore_Load :: "'db db_ptr \<Rightarrow> string \<Rightarrow> (StoredShareDB \<times> bool) result" where
  [simp]: "BoltStore_Load db key = loadShare db key"

definition BoltStore_Delete :: "'db db_ptr \<Rightarrow> string \<Rightarrow> 'db db_ptr result" where
  [simp]: "BoltStore_Delete db key = deleteShare db key"

definition BoltStore_Count :: "'db db_ptr \<Rightarrow> nat result" where
  [simp]: "BoltStore_Count db = countShares db"

text \<open>\<open>BoltStore\<close> is such a store while its database is open and has the shares bucket.\<close>

definition db_good :: "'db db_ptr \<Rightarrow> bool" where
  "db_good db \<longleftrightarrow>
     (case db of
        None \<Rightarrow> False
      | Some d \<Rightarrow> bolt_ok (bolt d) \<and> (\<forall>w. bolt_begin (bolt d) (bdata d) w = None) \<and>
                  bolt_bucket (bolt d) (bdata d) shareBucket)"

lemma db_good_same:
  "db_good (Some d) \<Longrightarrow> bolt_same (bolt d) (bdata d) y \<Longrightarrow> db_good (Some (d\<lparr>bdata := y\<rparr>))"
  by (simp add: db_good_def bolt_same_def)

lemma loadShare_good:
  "db_good (Some d) \<Longrightarrow> loadShare (Some d) k =
     (case bolt_get (bolt d) (bdata d) shareBucket k of
        None \<Rightarrow> Ok (zero_share, False)
      | Some v \<Rightarrow> (case Option.bind (json_whole v) share_of_json of
           None \<Rightarrow> Err ''json: cannot unmarshal stored share''
         | Some share \<Rightarrow> Ok (share, sh_Ciphertext share \<noteq> None)))"
  by (simp add: loadShare_def db_View_def db_good_def zero_share_def split: option.splits)

lemma saveShare_good:
  assumes "db_good db" and "saveShare db k sh = Ok db'"
  obtains d y where "db = Some d" and "db' = Some (d\<lparr>bdata := y\<rparr>)"
    and "bolt_put (bolt d) (bdata d) shareBucket k (json_print (share_to_json sh)) = Inr y"
  using assms by (cases db) (auto simp: saveShare_def db_Update_def db_good_def split: if_splits)

lemma deleteShare_good:
  assumes "db_good db" and "deleteShare db k = Ok db'"
  obtains d y where "db = Some d" and "db' = Some (d\<lparr>bdata := y\<rparr>)"
    and "bolt_delete (bolt d) (bdata d) shareBucket k = Inr y"
  using assms by (cases db) (auto simp: deleteShare_def db_Update_def db_good_def split: if_splits)

lemma saveShare_loadShare:
  assumes "db_good db" and "saveShare db k sh = Ok db'"
  shows "db_good db'"
    and "loadShare db' k' = (if k' = k then Ok (sh, sh_Ciphertext sh \<noteq> None) else loadShare db k')"
proof -
  obtain d y where d: "db = Some d" "db' = Some (d\<lparr>bdata := y\<rparr>)"
    and put: "bolt_put (bolt d) (bdata d) shareBucket k (json_print (share_to_json sh)) = Inr y"
    using assms by (rule saveShare_good)
  have ok: "bolt_ok (bolt d)" using assms(1) d by (simp add: db_good_def)
  show good: "db_good db'" using db_good_same bolt_putD(1) [OF ok put] assms(1) d by simp
  show "loadShare db' k' = (if k' = k then Ok (sh, sh_Ciphertext sh \<noteq> None) else loadShare db k')"
    using assms(1) good d share_json.unmarshal_marshal [of sh]
    by (simp add: loadShare_good bolt_putD(2) [OF ok put])
qed

lemma deleteShare_loadShare:
  assumes "db_good db" and "deleteShare db k = Ok db'"
  shows "db_good db'"
    and "loadShare db' k' = (if k' = k then Ok (zero_share, False) else loadShare db k')"
proof -
  obtain d y where d: "db = Some d" "db' = Some (d\<lparr>bdata := y\<rparr>)"
    and del: "bolt_delete (bolt d) (bdata d) shareBucket k = Inr y"
    using assms by (rule deleteShare_good)
  have ok: "bolt_ok (bolt d)" using assms(1) d by (simp add: db_good_def)
  show good: "db_good db'" using db_good_same bolt_deleteD(1) [OF ok del] assms(1) d by simp
  show "loadShare db' k' = (if k' = k then Ok (zero_share, False) else loadShare db k')"
    using assms(1) good d by (simp add: loadShare_good bolt_deleteD(2) [OF ok del])
qed

lemma loadShare_no_panic: "db_good db \<Longrightarrow> \<not> is_panic (loadShare db k)"
  by (cases db) (simp_all add: loadShare_good db_good_def [of None] split: option.splits)

interpretation BoltStore: share_store saveShare loadShare deleteShare db_good
proof
  fix db db' :: "'a db_ptr" and k k' :: string and sh :: StoredShareDB
  assume good: "db_good db"
  then show "\<not> is_panic (loadShare db k)" by (rule loadShare_no_panic)
  { assume save: "saveShare db k sh = Ok db'"
    note facts = saveShare_loadShare [OF good save]
    show "db_good db'" and "loadShare db' k = Ok (sh, sh_Ciphertext sh \<noteq> None)"
      and "k' \<noteq> k \<Longrightarrow> loadShare db' k' = loadShare db k'"
      using facts(1) facts(2) [of k] facts(2) [of k'] by simp_all }
  { assume del: "deleteShare db k = Ok db'"
    note facts = deleteShare_loadShare [OF good del]
    show "db_good db'" and "loadShare db' k = Ok (zero_share, False)"
      and "k' \<noteq> k \<Longrightarrow> loadShare db' k' = loadShare db k'"
      using facts(1) facts(2) [of k] facts(2) [of k'] by simp_all }
qed

lemma initDB_good:
  assumes "initDB getenv mkdirAll open_db db = (Ok (), db')"
    and "\<And>p d. open_db p = Inr d \<Longrightarrow> bolt_ok (bolt d) \<and> (\<forall>w. bolt_begin (bolt d) (bdata d) w = None)"
  shows "db_good db'"
proof -
  obtain p d y where "open_db p = Inr d" "bolt_create (bolt d) (bdata d) shareBucket = Inr y"
      "db' = Some (d\<lparr>bdata := y\<rparr>)"
    using assms(1)
    by (auto simp: initDB_def db_Update_def Let_def split: option.splits sum.splits result.splits if_splits)
  moreover from this(1) have ok: "bolt_ok (bolt d)" and "\<forall>w. bolt_begin (bolt d) (bdata d) w = None"
    using assms(2) by blast+
  ultimately show ?thesis
    using bolt_createD(1,2) [OF ok] by (auto simp: db_good_def bolt_same_def)
qed

text \<open>A share saved in an open store is what the next Load returns, every other key is as before,
  and the store stays open; a share is reported as present exactly when it has ciphertext.\<close>

theorem store_save_load:
  assumes "db_good db" and "saveShare db k sh = Ok db'"
  shows "db_good db' \<and> loadShare db' k = Ok (sh, sh_Ciphertext sh \<noteq> None) \<and>
    (\<forall>k'. k' \<noteq> k \<longrightarrow> loadShare db' k' = loadShare db k')"
  using BoltStore.Save_good BoltStore.Load_Save BoltStore.Load_Save_other assms by blast

text \<open>C15: refinement of the store to a map: while the store is open, Save of a share with ciphertext
  is a map update and Delete removes the key, and nothing else changes.\<close>

theorem store_refines_map:
  assumes "db_good db"
  shows "(\<forall>k sh db'. saveShare db k sh = Ok db' \<longrightarrow> sh_Ciphertext sh \<noteq> None \<longrightarrow>
            BoltStore.content db' = (BoltStore.content db)(k \<mapsto> sh)) \<and>
    (\<forall>k db'. deleteShare db k = Ok db' \<longrightarrow> BoltStore.content db' = (BoltStore.content db)(k := None))"
  using BoltStore.content_Save BoltStore.content_Delete assms by blast

text \<open>The count of an open store is the number of its keys, and the listed keys are exactly the keys
  with a value.\<close>

theorem store_count:
  assumes "db_good (Some d)"
  shows "countShares (Some d) = Ok (card (dom (bolt_get (bolt d) (bdata d) shareBucket))) \<and>
    (\<exists>ks. listShareKeys (Some d) = Ok ks \<and> distinct ks \<and>
          set ks = dom (bolt_get (bolt d) (bdata d) shareBucket))"
proof -
  let ?l = "bolt_foreach (bolt d) (bdata d) shareBucket"
  have ok: "bolt_ok (bolt d)" using assms by (simp add: db_good_def)
  have "set (map fst ?l) = dom (bolt_get (bolt d) (bdata d) shareBucket)"
    using bolt_foreachD(2) [OF ok] dom_map_of_conv_image_fst [of ?l] by simp
  moreover have "card (set (map fst ?l)) = length ?l"
    using distinct_card [OF bolt_foreachD(1) [OF ok]] by simp
  ultimately show ?thesis
    using assms bolt_foreachD(1) [OF ok]
    by (simp add: countShares_def listShareKeys_def db_View_def db_good_def)
qed

subsection \<open>A concrete bbolt\<close>

text \<open>
  An association list as database, with one bucket: it satisfies \<open>bolt_ok\<close>,
  so the hypothesis can hold.
\<close>

type_synonym alist_db = "(string \<times> string) list"

definition bucket_bolt :: "string \<Rightarrow> alist_db bolt_api" where
  "bucket_bolt bkt =
     \<lparr> bolt_begin = (\<lambda>_ _. None),
       bolt_bucket = (\<lambda>_ b. b = bkt),
       bolt_create = (\<lambda>x b. if b = bkt then Inr x else Inl ''bucket name required''),
       bolt_put = (\<lambda>x b k v. if b \<noteq> bkt \<or> k = [] then Inl ''key required''
                             else Inr (AList.update k v x)),
       bolt_get = (\<lambda>x b. if b = bkt then map_of x else Map.empty),
       bolt_delete = (\<lambda>x b k. if b \<noteq> bkt then Inl ''bucket not found'' else Inr (AList.delete k x)),
       bolt_foreach = (\<lambda>x b. if b = bkt then AList.clearjunk x else []),
       bolt_close = (\<lambda>x. (None, x)) \<rparr>"

definition alist_bolt :: "alist_db bolt_api" where
  "alist_bolt = bucket_bolt shareBucket"

lemma bolt_ok_bucket: "bolt_ok (bucket_bolt bkt)"
  by (auto simp: bolt_ok_def bolt_same_def bucket_bolt_def update_conv' delete_conv' distinct_clearjunk
      map_of_clearjunk split: if_splits)

lemma bolt_ok_alist: "bolt_ok alist_bolt"
  by (simp add: alist_bolt_def bolt_ok_bucket)

definition alist_DB :: "alist_db \<Rightarrow> alist_db DB" where
  "alist_DB x = \<lparr>bolt = alist_bolt, bdata = x\<rparr>"

lemma db_good_alist [simp]: "db_good (Some (alist_DB x))"
  by (simp add: db_good_def alist_DB_def bolt_ok_alist) (simp add: alist_bolt_def bucket_bolt_def)

lemma saveShare_alist:
  "k \<noteq> [] \<Longrightarrow> saveShare (Some (alist_DB x)) k sh =
     Ok (Some (alist_DB (AList.update k (json_print (share_to_json sh)) x)))"
  by (simp add: saveShare_def db_Update_def alist_DB_def alist_bolt_def bucket_bolt_def of_sum_def)

theorem store_save_load_witness:
  "let sh = \<lparr>sh_EphemeralPubKey = Some [4], sh_Ciphertext = Some [1, 2], sh_Nonce = Some [9]\<rparr>;
       db' = Some (alist_DB (AList.update ''C_o'' (json_print (share_to_json sh)) []))
   in saveShare (Some (alist_DB [])) ''C_o'' sh = Ok db' \<and> loadShare db' ''C_o'' = Ok (sh, True)"
  using store_save_load [OF db_good_alist saveShare_alist [of "''C_o''" "[]"
      "\<lparr>sh_EphemeralPubKey = Some [4], sh_Ciphertext = Some [1, 2], sh_Nonce = Some [9]\<rparr>"]]
  by (simp add: Let_def saveShare_alist)

theorem store_refines_map_witness:
  "let sh = \<lparr>sh_EphemeralPubKey = Some [4], sh_Ciphertext = Some [1, 2], sh_Nonce = Some [9]\<rparr>;
       db' = Some (alist_DB (AList.update ''C_o'' (json_print (share_to_json sh)) []))
   in BoltStore.content db' = (BoltStore.content (Some (alist_DB [])))(''C_o'' \<mapsto> sh)"
  using store_refines_map [OF db_good_alist, of "[]"] saveShare_alist [of "''C_o''" "[]"] by (simp add: Let_def)

theorem store_count_witness:
  "countShares (Some (alist_DB [(''a'', ''v''), (''b'', ''w'')])) = Ok 2"
  using store_count [OF db_good_alist, of "[(''a'', ''v''), (''b'', ''w'')]"]
  by (simp add: alist_DB_def alist_bolt_def bucket_bolt_def)

end
