(* ===== verification/Go_Gcm.thy ===== *)
theory Go_Gcm
  imports Prelude
begin

text \<open>
  The packages \<open>crypto/aes\<close> and \<open>crypto/cipher\<close>: Galois/Counter Mode with the standard
  12-byte nonce and 16-byte tag. The AES block function is a parameter (a function on 128-bit
  blocks for each key); the mode itself is modelled, so that opening a sealed message is
  proved here rather than assumed. A nonce of another length makes \<open>Seal\<close> and \<open>Open\<close> panic,
  which is how the package behaves.
\<close>

type_synonym block = "128 word"
type_synonym aes_block = "bytes \<Rightarrow> block \<Rightarrow> block"

subsection \<open>Blocks\<close>

definition bytes_of_block :: "block \<Rightarrow> bytes" where
  "bytes_of_block b = map (\<lambda>i. ucast (drop_bit (8 * (15 - i)) b)) [0..<16]"

fun word_of_bytes :: "bytes \<Rightarrow> block" where
  "word_of_bytes [] = 0"
| "word_of_bytes (b # bs) = push_bit (8 * length bs) (ucast b) OR word_of_bytes bs"

text \<open>The first 16 bytes as a block, padded with zero bytes on the right.\<close>

definition block_of_bytes :: "bytes \<Rightarrow> block" where
  "block_of_bytes bs = word_of_bytes (take 16 bs @ replicate (16 - length bs) 0)"

subsection \<open>GHASH\<close>

definition gf_step :: "block \<Rightarrow> nat \<Rightarrow> block \<times> block \<Rightarrow> block \<times> block" where
  "gf_step x i zv =
     (let (z, v) = zv
      in (if bit x (127 - i) then z XOR v else z,
          if bit v 0 then drop_bit 1 v XOR 0xE1000000000000000000000000000000 else drop_bit 1 v))"

definition gf_mult :: "block \<Rightarrow> block \<Rightarrow> block" where
  "gf_mult x y = fst (fold (gf_step x) [0..<128] (0, y))"

function ghash_bytes :: "block \<Rightarrow> block \<Rightarrow> bytes \<Rightarrow> block" where
  "ghash_bytes h y bs =
     (if bs = [] then y
      else ghash_bytes h (gf_mult (y XOR block_of_bytes bs) h) (drop 16 bs))"
  by pat_completeness auto
termination
  by (relation "measure (\<lambda>(h, y, bs). length bs)") auto

declare ghash_bytes.simps [simp del]

definition ghash :: "block \<Rightarrow> bytes \<Rightarrow> bytes \<Rightarrow> block" where
  "ghash h aad ct =
     (let y = ghash_bytes h (ghash_bytes h 0 aad) ct;
          lens = push_bit 64 (word_of_nat (8 * length aad)) OR word_of_nat (8 * length ct)
      in gf_mult (y XOR lens) h)"

subsection \<open>Counter mode\<close>

definition inc32 :: "block \<Rightarrow> block" where
  "inc32 c = push_bit 32 (drop_bit 32 c) OR take_bit 32 (c + 1)"

function gctr :: "(block \<Rightarrow> block) \<Rightarrow> block \<Rightarrow> bytes \<Rightarrow> bytes" where
  "gctr e c bs =
     (if bs = [] then []
      else map2 (XOR) (take 16 bs) (bytes_of_block (e c)) @ gctr e (inc32 c) (drop 16 bs))"
  by pat_completeness auto
termination
  by (relation "measure (\<lambda>(e, c, bs). length bs)") auto

declare gctr.simps [simp del]

lemma length_bytes_of_block [simp]: "length (bytes_of_block b) = 16"
  by (simp add: bytes_of_block_def)

lemma map2_xor_twice: "length a \<le> length k \<Longrightarrow> map2 (XOR) (map2 (XOR) a k) k = (a :: bytes)"
proof (induction a k rule: list_induct2')
  case (4 x xs y ys)
  then show ?case by (simp add: xor.assoc)
qed auto

lemma length_gctr [simp]: "length (gctr e c bs) = length bs"
proof (induction e c bs rule: gctr.induct)
  case (1 e c bs)
  then show ?case by (subst gctr.simps) (auto simp: min_def)
qed

lemma gctr_twice: "gctr e c (gctr e c bs) = bs"
proof (induction e c bs rule: gctr.induct)
  case (1 e c bs)
  show ?case
  proof (cases "bs = []")
    case True
    then show ?thesis by (simp add: gctr.simps)
  next
    case False
    define k h t where "k = bytes_of_block (e c)" and "h = map2 (XOR) (take 16 bs) k"
      and "t = gctr e (inc32 c) (drop 16 bs)"
    note parts = this
    have split: "gctr e c bs = h @ t" using False by (simp add: gctr.simps [of e c bs] parts)
    have len: "length h = min (length bs) 16" by (simp add: parts)
    have ht: "take 16 (h @ t) = h" "drop 16 (h @ t) = t"
      using len by (cases "length bs \<le> 16"; simp add: min_def parts(3) gctr.simps)+
    have "length (h @ t) \<noteq> 0" using False len by simp
    then have "(h @ t = []) = False" by blast
    then have "gctr e c (h @ t) = map2 (XOR) h k @ gctr e (inc32 c) t"
      by (subst gctr.simps) (simp only: ht if_False parts(1))
    also have "map2 (XOR) h k = take 16 bs" by (simp add: parts map2_xor_twice)
    also have "gctr e (inc32 c) t = drop 16 bs" using 1 False by (simp add: parts)
    finally show ?thesis using split by simp
  qed
qed

subsection \<open>Seal and Open\<close>

definition gcm_NonceSize :: nat where
  "gcm_NonceSize = 12"

definition gcm_Overhead :: nat where
  "gcm_Overhead = 16"

text \<open>The size limit is an integer, so that comparing with it stays executable.\<close>

definition gcm_max_plain :: int where
  "gcm_max_plain = (2 ^ 32 - 2) * 16"

text \<open>The error of \<open>aes.NewCipher\<close> for a key that is not 16, 24 or 32 bytes long.\<close>

definition aes_key_ok :: "bytes \<Rightarrow> bool" where
  "aes_key_ok key \<longleftrightarrow> length key \<in> set [16, 24, 32]"

definition aes_NewCipher :: "aes_block \<Rightarrow> bytes \<Rightarrow> (block \<Rightarrow> block) result" where
  "aes_NewCipher aes key =
     (if aes_key_ok key then Ok (aes key)
      else Err (''crypto/aes: invalid key size '' @ show_nat (length key)))"

definition gcm_j0 :: "bytes \<Rightarrow> block" where
  "gcm_j0 nonce = block_of_bytes (nonce @ [0, 0, 0, 1])"

definition gcm_tag :: "(block \<Rightarrow> block) \<Rightarrow> bytes \<Rightarrow> bytes \<Rightarrow> bytes \<Rightarrow> bytes" where
  "gcm_tag e nonce ct aad = bytes_of_block (ghash (e 0) aad ct XOR e (gcm_j0 nonce))"

definition gcm_nonce_panic :: string where
  "gcm_nonce_panic = ''crypto/cipher: incorrect nonce length given to GCM''"

definition gcm_open_error :: string where
  "gcm_open_error = ''cipher: message authentication failed''"

definition gcm_Seal :: "(block \<Rightarrow> block) \<Rightarrow> bytes \<Rightarrow> bytes \<Rightarrow> bytes \<Rightarrow> bytes result" where
  "gcm_Seal e nonce pt aad =
     (if length nonce \<noteq> gcm_NonceSize then Panic gcm_nonce_panic
      else if gcm_max_plain < int (length pt) then Panic ''crypto/cipher: message too large for GCM''
      else let ct = gctr e (inc32 (gcm_j0 nonce)) pt in Ok (ct @ gcm_tag e nonce ct aad))"

definition gcm_Open :: "(block \<Rightarrow> block) \<Rightarrow> bytes \<Rightarrow> bytes \<Rightarrow> bytes \<Rightarrow> bytes result" where
  "gcm_Open e nonce ct aad =
     (if length nonce \<noteq> gcm_NonceSize then Panic gcm_nonce_panic
      else if length ct < gcm_Overhead then Err gcm_open_error
      else if gcm_max_plain + int gcm_Overhead < int (length ct) then Err gcm_open_error
      else let body = take (length ct - gcm_Overhead) ct;
               tag = drop (length ct - gcm_Overhead) ct
           in if gcm_tag e nonce body aad = tag
              then Ok (gctr e (inc32 (gcm_j0 nonce)) body) else Err gcm_open_error)"

lemma length_gcm_tag [simp]: "length (gcm_tag e nonce ct aad) = 16"
  by (simp add: gcm_tag_def)

lemma gcm_Open_Seal_iff:
  assumes "length nonce = gcm_NonceSize"
  shows "gcm_Open e nonce ct aad = Ok pt \<longleftrightarrow> gcm_Seal e nonce pt aad = Ok ct"
proof
  assume "gcm_Open e nonce ct aad = Ok pt"
  then have size: "gcm_Overhead \<le> length ct" "int (length ct) \<le> gcm_max_plain + int gcm_Overhead"
    and tag: "gcm_tag e nonce (take (length ct - gcm_Overhead) ct) aad = drop (length ct - gcm_Overhead) ct"
    and pt: "pt = gctr e (inc32 (gcm_j0 nonce)) (take (length ct - gcm_Overhead) ct)"
    by (auto simp: gcm_Open_def Let_def split: if_splits)
  then show "gcm_Seal e nonce pt aad = Ok ct"
    using assms by (simp add: gcm_Seal_def gctr_twice Let_def)
next
  assume "gcm_Seal e nonce pt aad = Ok ct"
  then have "int (length pt) \<le> gcm_max_plain"
    and "ct = gctr e (inc32 (gcm_j0 nonce)) pt @ gcm_tag e nonce (gctr e (inc32 (gcm_j0 nonce)) pt) aad"
    by (auto simp: gcm_Seal_def Let_def split: if_splits)
  then show "gcm_Open e nonce ct aad = Ok pt"
    using assms by (simp add: gcm_Open_def gctr_twice gcm_Overhead_def Let_def)
qed

lemma gcm_Seal_total:
  "length nonce = gcm_NonceSize \<Longrightarrow> int (length pt) \<le> gcm_max_plain \<Longrightarrow>
   \<exists>ct. gcm_Seal e nonce pt aad = Ok ct \<and> length ct = length pt + gcm_Overhead"
  by (simp add: gcm_Seal_def gcm_Overhead_def Let_def)

lemma gcm_Open_no_panic:
  "length nonce = gcm_NonceSize \<Longrightarrow> \<not> is_panic (gcm_Open e nonce ct aad)"
  by (simp add: gcm_Open_def Let_def)

subsection \<open>The interface\<close>

text \<open>
  What client and node rely on in an AEAD: a message opens to exactly the plaintext that
  seals to it, sealing works within the size limit, and with a nonce of the right length
  opening returns. The \<open>.enc\<close> file of the client, a legacy file and every chunk of a
  streamed file put the nonce in front of the sealed text; the lemmas of the locale show
  that such a bundle splits and opens again.
\<close>

locale aead =
  fixes Seal Open :: "'k \<Rightarrow> bytes \<Rightarrow> bytes \<Rightarrow> bytes \<Rightarrow> bytes result"
    and nonce_size overhead :: nat
    and max_plain :: int
  assumes open_iff_seal:
    "length n = nonce_size \<Longrightarrow> Open k n c a = Ok p \<longleftrightarrow> Seal k n p a = Ok c"
    and seal_total:
    "length n = nonce_size \<Longrightarrow> int (length p) \<le> max_plain \<Longrightarrow>
       \<exists>c. Seal k n p a = Ok c \<and> length c = length p + overhead"
    and open_no_panic: "length n = nonce_size \<Longrightarrow> \<not> is_panic (Open k n c a)"
begin

lemma open_seal: "length n = nonce_size \<Longrightarrow> Seal k n p a = Ok c \<Longrightarrow> Open k n c a = Ok p"
  by (simp add: open_iff_seal)

lemma open_prefixed:
  assumes "length n = nonce_size" and "Seal k n p a = Ok c"
  shows "Open k (take nonce_size (n @ c)) (drop nonce_size (n @ c)) a = Ok p"
  using assms by (simp add: open_seal)

lemma seal_inject:
  assumes "length n = nonce_size" and "Seal k n p a = Ok c" and "Seal k n p' a = Ok c"
  shows "p = p'"
proof -
  have "Open k n c a = Ok p" using assms(1,2) by (rule open_seal)
  moreover have "Open k n c a = Ok p'" using assms(1,3) by (rule open_seal)
  ultimately show ?thesis by simp
qed

end

interpretation gcm: aead gcm_Seal gcm_Open gcm_NonceSize gcm_Overhead gcm_max_plain
  by unfold_locales (simp_all add: gcm_Open_Seal_iff gcm_Seal_total gcm_Open_no_panic)

end
