(* ===== verification/Externals.thy ===== *)
theory Externals
  imports Go_Gcm
begin

text \<open>
  Functions whose code is not in the repository, as one record of parameters: the AES block
  function, P-256, Ed25519 and SHA-256 of the Go standard library, HKDF of golang.org/x/crypto
  and the key and address encodings of the Stellar SDK. A private key is represented by its
  scalar bytes, a public key by its encoding. Two predicates state the documented behaviour
  the program relies on; theorems that need it name the predicate as a hypothesis.
\<close>

datatype VersionByte = VersionByteAccountID | VersionByteContract

record ext =
  aes :: aes_block
  p256_Valid :: "bytes \<Rightarrow> bool"                     \<comment> \<open>bytes of some ecdh.PrivateKey\<close>
  p256_PublicKey :: "bytes \<Rightarrow> bytes"                \<comment> \<open>priv.PublicKey().Bytes()\<close>
  p256_NewPublicKey :: "bytes \<Rightarrow> string + bytes"
  p256_ECDH :: "bytes \<Rightarrow> bytes \<Rightarrow> string + bytes"
  ed25519_Verify :: "bytes \<Rightarrow> bytes \<Rightarrow> bytes \<Rightarrow> bool"
  sha256_Sum256 :: "bytes \<Rightarrow> bytes"
  hkdf_Read :: "bytes \<Rightarrow> bytes \<Rightarrow> nat \<Rightarrow> string + bytes" \<comment> \<open>secret, info, length\<close>
  strkey_Decode :: "VersionByte \<Rightarrow> string \<Rightarrow> string + bytes"
  strkey_Encode :: "VersionByte \<Rightarrow> bytes \<Rightarrow> string + string"
  keypair_ParseFull :: "string \<Rightarrow> string + bytes"      \<comment> \<open>seed text to key pair\<close>
  keypair_Address :: "bytes \<Rightarrow> string"
  keypair_Sign :: "bytes \<Rightarrow> bytes \<Rightarrow> string + bytes"

text \<open>
  P-256 as \<open>crypto/ecdh\<close> documents it: the encoding of a public key is not empty and parses back to it, both
  sides of an exchange compute the same secret, and the secret is 32 bytes long.
\<close>

definition p256_ok :: "ext \<Rightarrow> bool" where
  "p256_ok X \<longleftrightarrow>
     (\<forall>k. p256_Valid X k \<longrightarrow>
        p256_NewPublicKey X (p256_PublicKey X k) = Inr (p256_PublicKey X k) \<and> p256_PublicKey X k \<noteq> []) \<and>
     (\<forall>a b. p256_Valid X a \<and> p256_Valid X b \<longrightarrow>
        (\<exists>s. p256_ECDH X a (p256_PublicKey X b) = Inr s \<and>
             p256_ECDH X b (p256_PublicKey X a) = Inr s \<and> length s = 32))"

text \<open>
  The Stellar SDK: the address of a key pair is a non-empty text that decodes to its 32-byte Ed25519
  public key, and a signature made with the pair verifies under that key. A SHA-256 digest is 32
  bytes long.
\<close>

definition stellar_ok :: "ext \<Rightarrow> bool" where
  "stellar_ok X \<longleftrightarrow>
     (\<forall>seed kp. keypair_ParseFull X seed = Inr kp \<longrightarrow>
        keypair_Address X kp \<noteq> [] \<and>
        (\<exists>pk. strkey_Decode X VersionByteAccountID (keypair_Address X kp) = Inr pk \<and>
              length pk = 32 \<and>
              (\<forall>m sig. keypair_Sign X kp m = Inr sig \<longrightarrow> ed25519_Verify X pk m sig)))"

definition digest_ok :: "ext \<Rightarrow> bool" where
  "digest_ok X \<longleftrightarrow> (\<forall>b. length (sha256_Sum256 X b) = 32)"

lemma p256_okD:
  assumes "p256_ok X"
  shows "p256_Valid X k \<Longrightarrow>
      p256_NewPublicKey X (p256_PublicKey X k) = Inr (p256_PublicKey X k)"
    and "p256_Valid X a \<Longrightarrow> p256_Valid X b \<Longrightarrow>
      \<exists>s. p256_ECDH X a (p256_PublicKey X b) = Inr s \<and>
          p256_ECDH X b (p256_PublicKey X a) = Inr s \<and> length s = 32"
    and "p256_Valid X k \<Longrightarrow> p256_PublicKey X k \<noteq> []"
  using assms unfolding p256_ok_def by blast+

lemma stellar_okD:
  assumes "stellar_ok X" and "keypair_ParseFull X seed = Inr kp"
  obtains pk where "strkey_Decode X VersionByteAccountID (keypair_Address X kp) = Inr pk"
    and "length pk = 32"
    and "\<And>m sig. keypair_Sign X kp m = Inr sig \<Longrightarrow> ed25519_Verify X pk m sig"
  using assms unfolding stellar_ok_def by blast

subsection \<open>A concrete instance\<close>

text \<open>
  The hypotheses can hold: an instance in which a key is its own public key, the shared
  secret is the bytewise sum of the two keys, and a signature is the signed message.
\<close>

definition pad32 :: "bytes \<Rightarrow> bytes" where
  "pad32 b = take 32 (b @ replicate 32 0)"

definition ext_example :: ext where
  "ext_example =
     \<lparr> aes = (\<lambda>key b. b XOR word_of_nat (length key)),
       p256_Valid = (\<lambda>k. length k = 32),
       p256_PublicKey = (\<lambda>k. k),
       p256_NewPublicKey = (\<lambda>b. if length b = 32 then Inr b else Inl ''crypto/ecdh: invalid public key''),
       p256_ECDH = (\<lambda>a b. Inr (pad32 (map2 (+) a b))),
       ed25519_Verify = (\<lambda>pk m sig. sig = m),
       sha256_Sum256 = pad32,
       hkdf_Read = (\<lambda>secret info n. Inr (take n (secret @ info @ replicate n 0))),
       strkey_Decode = (\<lambda>v s. if length s = 32 then Inr (bytes_of_string s) else Inl ''invalid length''),
       strkey_Encode = (\<lambda>v b. Inr (string_of_bytes b)),
       keypair_ParseFull = (\<lambda>s. if s = [] then Inl ''empty seed'' else Inr (bytes_of_string s)),
       keypair_Address = (\<lambda>kp. string_of_bytes (pad32 kp)),
       keypair_Sign = (\<lambda>kp m. Inr m) \<rparr>"

lemma length_pad32 [simp]: "length (pad32 b) = 32"
  by (simp add: pad32_def)

lemma pad32_not_Nil [simp]: "pad32 b \<noteq> []"
  using length_pad32 [of b] by (metis list.size(3) zero_neq_numeral)

lemma length_string_of_bytes [simp]: "length (string_of_bytes b) = length b"
  by (simp add: string_of_bytes_def)

lemma map2_add_commute: "map2 (+) a b = map2 (+) b (a :: bytes)"
  by (induction a b rule: list_induct2') (simp_all add: add.commute)

lemma p256_ok_example: "p256_ok ext_example"
  by (auto simp: p256_ok_def ext_example_def map2_add_commute)

lemma stellar_ok_example: "stellar_ok ext_example"
  by (simp add: stellar_ok_def ext_example_def string_of_bytes_def)

lemma digest_ok_example: "digest_ok ext_example"
  by (simp add: digest_ok_def ext_example_def)

end
