(* ===== verification/Stellar_Xdr.thy ===== *)
theory Stellar_Xdr
  imports Externals
begin

text \<open>
  The parts of a Stellar transaction the program builds and inspects, as the Go SDK declares
  them (pointers are options), and the SDK functions it calls as parameters. An enumeration
  value the program only prints carries its printed form.
\<close>

datatype EnvelopeType = EnvelopeTypeTx | EnvelopeTypeOther string
datatype HostFunctionType = HostFunctionTypeInvokeContract | HostFunctionTypeOther
datatype ScAddressType = ScAddressTypeAccount | ScAddressTypeContract | ScAddressTypeOther string

record AccountId =
  acc_Ed25519 :: slice

record ScAddress =
  sca_Type :: ScAddressType
  sca_AccountId :: "AccountId option"
  sca_ContractId :: "bytes option"

datatype ScVal = ScvBytes bytes | ScvAddress ScAddress | ScvOther string

record InvokeContractArgs =
  ica_ContractAddress :: ScAddress
  ica_FunctionName :: string
  ica_Args :: "ScVal list"

record HostFunction =
  hf_Type :: HostFunctionType
  hf_InvokeContract :: "InvokeContractArgs option"

datatype MuxedAccount = MuxedEd25519 bytes | MuxedMed25519 "64 word" bytes

datatype OperationBody = InvokeHostFunctionOp HostFunction | OtherOperation string

record Operation =
  op_SourceAccount :: "MuxedAccount option"
  op_Body :: OperationBody

record TransactionV1 =
  tx_SourceAccount :: MuxedAccount
  tx_Operations :: "Operation list"

record TransactionEnvelope =
  env_Type :: EnvelopeType
  env_V1 :: "TransactionV1 option"

text \<open>What the client hands to \<open>txnbuild.NewTransaction\<close>.\<close>

record TransactionParams =
  tp_AccountID :: string
  tp_Sequence :: int
  tp_IncrementSequenceNum :: bool
  tp_Operations :: "Operation list"

record xdr_api =
  SafeUnmarshalBase64 :: "string \<Rightarrow> string + TransactionEnvelope"
  muxed_GetAddress :: "MuxedAccount \<Rightarrow> string + string"
  acc_GetAddress :: "AccountId \<Rightarrow> string + string"
  NewTransaction :: "TransactionParams \<Rightarrow> string + TransactionEnvelope"
  tx_Base64 :: "TransactionEnvelope \<Rightarrow> string + string"

text \<open>
  Documented behaviour of the SDK: a built transaction is a version 1 envelope with the given
  source account and operations, its base-64 text is read back as itself, and an address
  text that decodes is what its bytes encode to; an account id is printed as its key's address.
\<close>

definition xdr_ok :: "ext \<Rightarrow> xdr_api \<Rightarrow> bool" where
  "xdr_ok X A \<longleftrightarrow>
     (\<forall>p env. NewTransaction A p = Inr env \<longrightarrow>
        env_Type env = EnvelopeTypeTx \<and>
        (\<exists>v1. env_V1 env = Some v1 \<and> tx_Operations v1 = tp_Operations p \<and>
              muxed_GetAddress A (tx_SourceAccount v1) = Inr (tp_AccountID p))) \<and>
     (\<forall>env s. tx_Base64 A env = Inr s \<longrightarrow> SafeUnmarshalBase64 A s = Inr env) \<and>
     (\<forall>v s b. strkey_Decode X v s = Inr b \<longrightarrow> length b = 32 \<and> strkey_Encode X v b = Inr s) \<and>
     (\<forall>b s. strkey_Encode X VersionByteAccountID b = Inr s \<longrightarrow> acc_GetAddress A \<lparr>acc_Ed25519 = Some b\<rparr> = Inr s)"

lemma xdr_okD:
  assumes "xdr_ok X A"
  shows "NewTransaction A p = Inr env \<Longrightarrow>
      env_Type env = EnvelopeTypeTx \<and>
      (\<exists>v1. env_V1 env = Some v1 \<and> tx_Operations v1 = tp_Operations p \<and>
            muxed_GetAddress A (tx_SourceAccount v1) = Inr (tp_AccountID p))"
    and "tx_Base64 A env = Inr s \<Longrightarrow> SafeUnmarshalBase64 A s = Inr env"
    and "strkey_Decode X v t = Inr b \<Longrightarrow> length b = 32 \<and> strkey_Encode X v b = Inr t"
    and "strkey_Encode X VersionByteAccountID b = Inr t \<Longrightarrow> acc_GetAddress A \<lparr>acc_Ed25519 = Some b\<rparr> = Inr t"
  using assms unfolding xdr_ok_def by blast+

subsection \<open>A concrete instance\<close>

text \<open>An SDK that serialises one transaction; it satisfies \<open>xdr_ok\<close>.\<close>

definition xdr_example :: "TransactionEnvelope \<Rightarrow> xdr_api" where
  "xdr_example env =
     \<lparr> SafeUnmarshalBase64 = (\<lambda>s. if s = ''TX'' then Inr env else Inl ''unexpected EOF''),
       muxed_GetAddress = (\<lambda>m. case m of MuxedEd25519 b \<Rightarrow> Inr (string_of_bytes b)
                                      | MuxedMed25519 i b \<Rightarrow> Inl ''muxed''),
       acc_GetAddress = (\<lambda>a. case acc_Ed25519 a of None \<Rightarrow> Inl ''nil key'' | Some b \<Rightarrow> Inr (string_of_bytes b)),
       NewTransaction = (\<lambda>p. Inr \<lparr>env_Type = EnvelopeTypeTx, env_V1 = Some
          \<lparr>tx_SourceAccount = MuxedEd25519 (bytes_of_string (tp_AccountID p)),
           tx_Operations = tp_Operations p\<rparr>\<rparr>),
       tx_Base64 = (\<lambda>e. if e = env then Inr ''TX'' else Inl ''unsupported'') \<rparr>"

lemma xdr_ok_example: "xdr_ok ext_example (xdr_example env)"
  by (auto simp: xdr_ok_def xdr_example_def ext_example_def split: if_splits)

end
