(* ===== verification/Node_State.thy ===== *)
theory Node_State
  imports Go_Http Node_Store Stellar_Xdr
begin

text \<open>
  The package variables of the node (\<open>node/main.go\<close>, \<open>store.go\<close>, \<open>keymanager.go\<close>, \<open>ratelimit.go\<close>,
  \<open>logger.go\<close>, \<open>metrics.go\<close>) as one record, and what a request finds outside the program as
  another: random bytes, the clock, name resolution, the Soroban RPC service, the Stellar
  SDK, golang.org/x/time/rate and the level filter of zerolog. A request is served at one
  instant of the clock. A time is a number of nanoseconds.
\<close>

text \<open>A float64: mantissa and binary exponent, or one of the special values.\<close>

datatype float64 = Float int int | Infinite bool | NaN

datatype log_level =
  TraceLevel | DebugLevel | InfoLevel | WarnLevel | ErrorLevel | FatalLevel | PanicLevel | NoLevel | Disabled

record log_entry =
  le_level :: log_level
  le_msg :: string
  le_fields :: "(string \<times> string) list"

record 'lim limiter_api =
  lim_New :: "float64 \<Rightarrow> int \<Rightarrow> 'lim"                  \<comment> \<open>rate.NewLimiter\<close>
  lim_Every :: "go_time \<Rightarrow> float64"                  \<comment> \<open>rate.Every\<close>
  lim_Allow :: "go_time \<Rightarrow> 'lim \<Rightarrow> bool \<times> 'lim"        \<comment> \<open>Allow at a time\<close>

record 'lim node_env =
  ne_ext :: ext
  ne_xdr :: xdr_api
  ne_rate :: "'lim limiter_api"
  ne_Enabled :: "log_level \<Rightarrow> log_level \<Rightarrow> bool"     \<comment> \<open>global level, level of the event\<close>
  ne_GenerateKey :: "string + bytes"                 \<comment> \<open>ecdh.P256().GenerateKey(rand.Reader)\<close>
  ne_rand :: "nat \<Rightarrow> bytes"                            \<comment> \<open>what rand.Read leaves in a buffer\<close>
  ne_Now :: go_time
  ne_Since :: "go_time \<Rightarrow> string"                      \<comment> \<open>time.Since(t).String()\<close>
  ne_RFC3339 :: "go_time \<Rightarrow> string"
  ne_RFC3339Nano :: "go_time \<Rightarrow> string"
  ne_Micros :: int                                   \<comment> \<open>duration of the request\<close>
  ne_LookupHost :: "string \<Rightarrow> string option"           \<comment> \<open>the error, if any\<close>
  ne_Post :: "string \<Rightarrow> string \<Rightarrow> string \<Rightarrow> string + (string + string)"
    \<comment> \<open>http.Post of url, content type and body: an error, or what io.ReadAll gives for the body\<close>

record KeyManager =
  km_currentVersion :: "64 word"
  km_keys :: "(64 word \<times> bytes) list"
  km_lastRotation :: go_time
  km_dataDir :: string

record 'lim ipLimiterStore =
  limiters :: "(string \<times> 'lim) list"
  ip_r :: float64
  ip_b :: int

record ('db, 'lim) node_state =
  db :: "'db db_ptr"
  nodePrivateKey :: bytes
  nodePublicKey :: bytes
  globalKeyManager :: "KeyManager option"
  globalIPLimiter :: "'lim ipLimiterStore option"
  objectLimiters :: "(string \<times> 'lim) list"
  sorobanRPCURL :: string
  nodeStartTime :: go_time
  nodeVersion :: string
  sharesInStore :: int
  log_on :: bool                        \<comment> \<open>InitLogger has run; before it the loggers discard\<close>
  log_global :: log_level
  logs :: "log_entry list"
  audit :: "log_entry list"

text \<open>An event sent to \<open>logger\<close> or \<open>auditLogger\<close>; both obey zerolog's global level.\<close>

definition log_to_logger ::
    "'lim node_env \<Rightarrow> log_level \<Rightarrow> string \<Rightarrow> (string \<times> string) list \<Rightarrow>
     ('db, 'lim) node_state \<Rightarrow> ('db, 'lim) node_state" where
  "log_to_logger E lvl msg flds s =
     (if log_on s \<and> ne_Enabled E (log_global s) lvl
      then s\<lparr>logs := logs s @ [\<lparr>le_level = lvl, le_msg = msg, le_fields = flds\<rparr>]\<rparr> else s)"

definition log_to_audit ::
    "'lim node_env \<Rightarrow> log_level \<Rightarrow> string \<Rightarrow> (string \<times> string) list \<Rightarrow>
     ('db, 'lim) node_state \<Rightarrow> ('db, 'lim) node_state" where
  "log_to_audit E lvl msg flds s =
     (if log_on s \<and> ne_Enabled E (log_global s) lvl
      then s\<lparr>audit := audit s @ [\<lparr>le_level = lvl, le_msg = msg, le_fields = flds\<rparr>]\<rparr> else s)"

lemma log_to_logger_fields [simp]:
  "db (log_to_logger E l m f s) = db s"
  "nodePrivateKey (log_to_logger E l m f s) = nodePrivateKey s"
  "nodePublicKey (log_to_logger E l m f s) = nodePublicKey s"
  "globalKeyManager (log_to_logger E l m f s) = globalKeyManager s"
  "globalIPLimiter (log_to_logger E l m f s) = globalIPLimiter s"
  "objectLimiters (log_to_logger E l m f s) = objectLimiters s"
  "audit (log_to_logger E l m f s) = audit s"
  "sharesInStore (log_to_logger E l m f s) = sharesInStore s"
  "sorobanRPCURL (log_to_logger E l m f s) = sorobanRPCURL s"
  "log_on (log_to_logger E l m f s) = log_on s"
  "log_global (log_to_logger E l m f s) = log_global s"
  by (simp_all add: log_to_logger_def)

lemma log_to_audit_fields [simp]:
  "db (log_to_audit E l m f s) = db s"
  "nodePrivateKey (log_to_audit E l m f s) = nodePrivateKey s"
  "nodePublicKey (log_to_audit E l m f s) = nodePublicKey s"
  "globalKeyManager (log_to_audit E l m f s) = globalKeyManager s"
  "globalIPLimiter (log_to_audit E l m f s) = globalIPLimiter s"
  "objectLimiters (log_to_audit E l m f s) = objectLimiters s"
  "logs (log_to_audit E l m f s) = logs s"
  "sharesInStore (log_to_audit E l m f s) = sharesInStore s"
  "sorobanRPCURL (log_to_audit E l m f s) = sorobanRPCURL s"
  "log_on (log_to_audit E l m f s) = log_on s"
  "log_global (log_to_audit E l m f s) = log_global s"
  by (simp_all add: log_to_audit_def)

subsection \<open>Rate limiters\<close>

text \<open>
  golang.org/x/time/rate documents a limiter with a finite rate as a token bucket of the
  burst size that starts full: of n calls of \<open>Allow\<close> at one instant the first ones succeed, as
  many as the burst. \<open>rate.Every\<close> of a positive interval is a finite rate.
\<close>

fun allow_calls :: "'lim limiter_api \<Rightarrow> go_time \<Rightarrow> nat \<Rightarrow> 'lim \<Rightarrow> bool list \<times> 'lim" where
  "allow_calls L t 0 l = ([], l)"
| "allow_calls L t (Suc n) l =
     (case lim_Allow L t l of (ok, l') \<Rightarrow> (case allow_calls L t n l' of (oks, l'') \<Rightarrow> (ok # oks, l'')))"

definition limiter_ok :: "'lim limiter_api \<Rightarrow> bool" where
  "limiter_ok L \<longleftrightarrow>
     (\<forall>m e b t n. fst (allow_calls L t n (lim_New L (Float m e) b)) =
        map (\<lambda>i. int i < b) [0..<n]) \<and>
     (\<forall>d > 0. \<exists>m e. lim_Every L d = Float m e)"

lemma limiter_okD:
  "limiter_ok L \<Longrightarrow>
   fst (allow_calls L t n (lim_New L (Float m e) b)) = map (\<lambda>i. int i < b) [0..<n]"
  by (simp add: limiter_ok_def)

subsection \<open>A concrete environment\<close>

text \<open>
  A limiter that counts tokens and never refills, and an environment around the other
  concrete instances: the RPC service answers with a fixed text, and log events of the
  global level pass.
\<close>

definition limiter_example :: "int limiter_api" where
  "limiter_example =
     \<lparr> lim_New = (\<lambda>r b. b), lim_Every = (\<lambda>d. Float 1 0), lim_Allow = (\<lambda>t n. if 0 < n then (True, n - 1) else (False, n)) \<rparr>"

lemma allow_calls_example:
  "fst (allow_calls limiter_example t n b) = map (\<lambda>i. int i < b) [0..<n]"
proof (induction n arbitrary: b)
  case (Suc n)
  have "map (\<lambda>i. int i < b) [0..<Suc n] = (0 < b) # map (\<lambda>i. int (Suc i) < b) [0..<n]"
    by (simp add: upt_conv_Cons map_Suc_upt [symmetric] comp_def del: upt_Suc)
  then show ?case
    using Suc [of "b - 1"] Suc [of b]
    by (auto simp: limiter_example_def split: prod.splits)
qed simp

lemma limiter_ok_example: "limiter_ok limiter_example"
  using allow_calls_example by (simp add: limiter_ok_def limiter_example_def)

definition env_example :: "TransactionEnvelope \<Rightarrow> string \<Rightarrow> int node_env" where
  "env_example env rpc =
     \<lparr> ne_ext = ext_example, ne_xdr = xdr_example env, ne_rate = limiter_example,
       ne_Enabled = (\<lambda>g l. g = l), ne_GenerateKey = Inr (replicate 32 7),
       ne_rand = (\<lambda>n. replicate n 0), ne_Now = 0, ne_Since = (\<lambda>t. ''1s''),
       ne_RFC3339 = (\<lambda>t. ''2024-01-01T00:00:00Z''), ne_RFC3339Nano = (\<lambda>t. ''2024-01-01T00:00:00Z''),
       ne_Micros = 1, ne_LookupHost = (\<lambda>h. None), ne_Post = (\<lambda>u c b. Inr (Inr rpc)) \<rparr>"

definition state_example :: "(alist_db, int) node_state" where
  "state_example =
     \<lparr> db = Some (alist_DB []), nodePrivateKey = replicate 32 1, nodePublicKey = replicate 32 1,
       globalKeyManager = None, globalIPLimiter = None, objectLimiters = [],
       sorobanRPCURL = ''https://soroban-testnet.stellar.org:443'', nodeStartTime = 0,
       nodeVersion = ''dev'', sharesInStore = 0, log_on = True, log_global = InfoLevel,
       logs = [], audit = [] \<rparr>"

end
