(* ===== verification/Node_Keys.thy ===== *)
theory Node_Keys
  imports Node_State
begin

text \<open>
  \<open>node/keystore.go\<close> and \<open>node/keymanager.go\<close>: the node key on disk and the versioned keys in
  memory. PEM and the ASN.1 form of EC keys are parameters; \<open>keystore_ok\<close> states that what they
  write they read back. The key manager's methods work on the node state, because \<open>Rotate\<close>
  writes the package variables that hold the active key.
\<close>

type_synonym files = "string \<Rightarrow> bytes option"

record ecdsa_key =
  ec_Curve :: string
  ec_D :: int
  ec_X :: int
  ec_Y :: int

record keystore_env =
  os_MkdirAll :: "string \<Rightarrow> string option"
  os_WriteFile :: "string \<Rightarrow> bytes \<Rightarrow> files \<Rightarrow> string option \<times> files"
  pem_Decode :: "bytes \<Rightarrow> (string \<times> bytes) option"
  pem_EncodeToMemory :: "string \<Rightarrow> bytes \<Rightarrow> bytes"
  x509_ParseECPrivateKey :: "bytes \<Rightarrow> string + ecdsa_key"
  x509_MarshalECPrivateKey :: "ecdsa_key \<Rightarrow> string + bytes"
  P256_ScalarBaseMult :: "bytes \<Rightarrow> int \<times> int"
  ecdsa_ECDH :: "ecdsa_key \<Rightarrow> string + bytes"

definition keyFileName :: string where
  "keyFileName = ''node_key.pem''"

text \<open>\<open>big.Int.SetBytes\<close>: big-endian.\<close>

definition SetBytes :: "bytes \<Rightarrow> int" where
  "SetBytes bs = foldl (\<lambda>a b. 256 * a + uint b) 0 bs"

definition privToEC :: "keystore_env \<Rightarrow> bytes \<Rightarrow> ecdsa_key result" where
  "privToEC K priv =
     (let xy = P256_ScalarBaseMult K priv
      in Ok \<lparr>ec_Curve = ''P-256'', ec_D = SetBytes priv, ec_X = fst xy, ec_Y = snd xy\<rparr>)"

definition saveKeyToDisk ::
    "keystore_env \<Rightarrow> bytes \<Rightarrow> string \<Rightarrow> files \<Rightarrow> unit result \<times> files" where
  "saveKeyToDisk K priv path fs =
     (case privToEC K priv of
        Err e \<Rightarrow> (Err e, fs)
      | Panic p \<Rightarrow> (Panic p, fs)
      | Ok ecKey \<Rightarrow>
          (case x509_MarshalECPrivateKey K ecKey of
             Inl e \<Rightarrow> (Err (''failed to marshal EC key: '' @ e), fs)
           | Inr derBytes \<Rightarrow>
               (case os_WriteFile K path (pem_EncodeToMemory K ''EC PRIVATE KEY'' derBytes) fs of
                  (Some e, fs') \<Rightarrow> (Err e, fs')
                | (None, fs') \<Rightarrow> (Ok (), fs'))))"

text \<open>
  The key on disk: \<open>Some\<close> when the file holds a PEM block of the right type that parses, with
  what the conversion to an ECDH key returned.
\<close>

definition stored_key :: "keystore_env \<Rightarrow> string \<Rightarrow> files \<Rightarrow> (string + bytes) option" where
  "stored_key K keyPath fs =
     (case fs keyPath of
        None \<Rightarrow> None
      | Some data \<Rightarrow>
          (case pem_Decode K data of
             None \<Rightarrow> None
           | Some (ty, der) \<Rightarrow>
               if ty = ''EC PRIVATE KEY'' then
                 (case x509_ParseECPrivateKey K der of
                    Inl e \<Rightarrow> None
                  | Inr key \<Rightarrow> Some (ecdsa_ECDH K key))
               else None))"

definition LoadOrGenerateKey ::
    "keystore_env \<Rightarrow> string + bytes \<Rightarrow> string \<Rightarrow> files \<Rightarrow> bytes result \<times> files" where
  "LoadOrGenerateKey K gen dir fs =
     (case os_MkdirAll K dir of
        Some e \<Rightarrow> (Err (''failed to create data directory: '' @ e), fs)
      | None \<Rightarrow>
          let keyPath = dir @ ''/'' @ keyFileName
          in (case stored_key K keyPath fs of
                Some (Inr priv) \<Rightarrow> (Ok priv, fs)
              | Some (Inl e) \<Rightarrow> (Err e, fs)
              | None \<Rightarrow>
                  (case gen of
                     Inl e \<Rightarrow> (Err (''failed to generate P-256 key: '' @ e), fs)
                   | Inr priv \<Rightarrow>
                       (case saveKeyToDisk K priv keyPath fs of
                          (Ok _, fs') \<Rightarrow> (Ok priv, fs')
                        | (Err e, fs') \<Rightarrow> (Err (''failed to persist node key: '' @ e), fs')
                        | (Panic p, fs') \<Rightarrow> (Panic p, fs')))))"

text \<open>
  Documented behaviour of the encodings and of \<open>os.WriteFile\<close>: a written file holds the data, a
  PEM block and a marshalled key are read back, and the ECDH form of the key built from a
  P-256 scalar is that scalar.
\<close>

definition keystore_ok :: "ext \<Rightarrow> keystore_env \<Rightarrow> bool" where
  "keystore_ok X K \<longleftrightarrow>
     (\<forall>path data fs fs'. os_WriteFile K path data fs = (None, fs') \<longrightarrow> fs' = fs(path \<mapsto> data)) \<and>
     (\<forall>ty der. pem_Decode K (pem_EncodeToMemory K ty der) = Some (ty, der)) \<and>
     (\<forall>key der. x509_MarshalECPrivateKey K key = Inr der \<longrightarrow> x509_ParseECPrivateKey K der = Inr key) \<and>
     (\<forall>priv key. p256_Valid X priv \<longrightarrow> privToEC K priv = Ok key \<longrightarrow> ecdsa_ECDH K key = Inr priv)"

subsection \<open>The key manager\<close>

definition initKeyManager ::
    "keystore_env \<Rightarrow> 'lim node_env \<Rightarrow> string \<Rightarrow> files \<Rightarrow> ('db, 'lim) node_state \<Rightarrow>
     unit result \<times> files \<times> ('db, 'lim) node_state" where
  "initKeyManager K E dir fs s =
     (case LoadOrGenerateKey K (ne_GenerateKey E) dir fs of
        (Err e, fs') \<Rightarrow> (Err e, fs', s)
      | (Panic p, fs') \<Rightarrow> (Panic p, fs', s)
      | (Ok priv, fs') \<Rightarrow>
          (Ok (), fs', s\<lparr>
             globalKeyManager := Some \<lparr>km_currentVersion = 0, km_keys = [(0, priv)],
                                       km_lastRotation = ne_Now E, km_dataDir = dir\<rparr>,
             nodePrivateKey := priv,
             nodePublicKey := p256_PublicKey (ne_ext E) priv\<rparr>))"

definition CurrentVersion :: "KeyManager \<Rightarrow> 64 word" where
  "CurrentVersion km = km_currentVersion km"

definition GetKey :: "KeyManager \<Rightarrow> 64 word \<Rightarrow> bytes option" where
  "GetKey km version = map_of (km_keys km) version"

text \<open>The background goroutine of a rotation: it only logs.\<close>

definition reencryptShares ::
    "'lim node_env \<Rightarrow> 64 word \<Rightarrow> ('db, 'lim) node_state \<Rightarrow> ('db, 'lim) node_state" where
  "reencryptShares E newVersion s =
     log_to_logger E InfoLevel ''share_reencryption_complete'' [(''version'', show_nat (unat newVersion))]
       (log_to_logger E InfoLevel ''share_reencryption_started'' [(''version'', show_nat (unat newVersion))] s)"

definition Rotate :: "'lim node_env \<Rightarrow> ('db, 'lim) node_state \<Rightarrow> unit result \<times> ('db, 'lim) node_state" where
  "Rotate E s =
     (case ne_GenerateKey E of
        Inl e \<Rightarrow> (Err (''failed to generate new key: '' @ e), s)
      | Inr newKey \<Rightarrow>
          (case globalKeyManager s of
             None \<Rightarrow> (Panic nil_deref, s)
           | Some km \<Rightarrow>
               let newVersion = km_currentVersion km + 1;
                   km' = km\<lparr>km_keys := AList.update newVersion newKey (km_keys km),
                            km_currentVersion := newVersion,
                            km_lastRotation := ne_Now E\<rparr>;
                   s1 = s\<lparr>globalKeyManager := Some km', nodePrivateKey := newKey,
                          nodePublicKey := p256_PublicKey (ne_ext E) newKey\<rparr>;
                   s2 = reencryptShares E newVersion s1
               in (Ok (), log_to_audit E InfoLevel ''key_rotated''
                     [(''old_version'', show_nat (unat (newVersion - 1))),
                      (''new_version'', show_nat (unat newVersion))] s2)))"

definition StatusFields :: "'lim node_env \<Rightarrow> KeyManager \<Rightarrow> json" where
  "StatusFields E km =
     JObj [(''current_key_version'', JNum (show_nat (unat (km_currentVersion km)))),
           (''last_rotation_time'', JStr (ne_RFC3339 E (km_lastRotation km)))]"

definition MarshalVersioned :: "'lim node_env \<Rightarrow> KeyManager \<Rightarrow> string" where
  "MarshalVersioned E km =
     json_print (JObj [(''current_version'', JNum (show_nat (unat (km_currentVersion km)))),
           (''key_count'', JNum (show_nat (length (AList.clearjunk (km_keys km))))),
           (''last_rotation'', JStr (ne_RFC3339Nano E (km_lastRotation km)))])"

subsection \<open>The key on disk\<close>

abbreviation keyPath_of :: "string \<Rightarrow> string" where
  "keyPath_of dir \<equiv> dir @ ''/'' @ keyFileName"

lemma saveKeyToDisk_stored:
  assumes "keystore_ok X K" and "p256_Valid X priv" and "saveKeyToDisk K priv path fs = (Ok (), fs')"
  shows "stored_key K path fs' = Some (Inr priv)"
proof -
  obtain key der where k: "privToEC K priv = Ok key" and m: "x509_MarshalECPrivateKey K key = Inr der"
    and w: "os_WriteFile K path (pem_EncodeToMemory K ''EC PRIVATE KEY'' der) fs = (None, fs')"
    using assms(3)
    by (auto simp: saveKeyToDisk_def split: result.splits sum.splits option.splits prod.splits)
  have "fs' = fs(path \<mapsto> pem_EncodeToMemory K ''EC PRIVATE KEY'' der)"
    and "\<And>ty der. pem_Decode K (pem_EncodeToMemory K ty der) = Some (ty, der)"
    and "x509_ParseECPrivateKey K der = Inr key" and "ecdsa_ECDH K key = Inr priv"
    using assms(1,2) k m w unfolding keystore_ok_def by blast+
  then show ?thesis by (simp add: stored_key_def)
qed

lemma LoadOrGenerateKey_stored:
  assumes "keystore_ok X K" and "\<And>p. gen = Inr p \<Longrightarrow> p256_Valid X p"
    and "LoadOrGenerateKey K gen dir fs = (Ok priv, fs')"
  shows "stored_key K (keyPath_of dir) fs' = Some (Inr priv)"
  using assms(2,3) saveKeyToDisk_stored [OF assms(1)]
  by (auto simp: LoadOrGenerateKey_def Let_def split: option.splits sum.splits result.splits prod.splits)

lemma LoadOrGenerateKey_load:
  "os_MkdirAll K dir = None \<Longrightarrow> stored_key K (keyPath_of dir) fs = Some (Inr priv) \<Longrightarrow>
   LoadOrGenerateKey K gen dir fs = (Ok priv, fs)"
  by (simp add: LoadOrGenerateKey_def)

lemma LoadOrGenerateKey_mkdir:
  "LoadOrGenerateKey K gen dir fs = (Ok priv, fs') \<Longrightarrow> os_MkdirAll K dir = None"
  by (auto simp: LoadOrGenerateKey_def split: option.splits)

subsection \<open>Versioned keys\<close>

text \<open>
  What a key manager promises: rotating adds the new key under the next version and makes it
  the active one, and no earlier key is lost. The consequences for a sequence of rotations
  are proved once here.
\<close>

locale versioned_keys =
  fixes inv :: "'s \<Rightarrow> bool"
    and version :: "'s \<Rightarrow> nat"
    and key :: "'s \<Rightarrow> nat \<Rightarrow> bytes option"
    and active :: "'s \<Rightarrow> bytes"
    and rotate :: "bytes \<Rightarrow> 's \<Rightarrow> 's"
    and bound :: nat
  assumes active_key: "inv s \<Longrightarrow> key s (version s) = Some (active s)"
    and no_future_key: "inv s \<Longrightarrow> version s < v \<Longrightarrow> v < bound \<Longrightarrow> key s v = None"
    and rotate_inv: "inv s \<Longrightarrow> Suc (version s) < bound \<Longrightarrow> inv (rotate k s)"
    and rotate_version: "inv s \<Longrightarrow> Suc (version s) < bound \<Longrightarrow> version (rotate k s) = Suc (version s)"
    and rotate_key: "inv s \<Longrightarrow> Suc (version s) < bound \<Longrightarrow> v < bound \<Longrightarrow>
       key (rotate k s) v = (if v = Suc (version s) then Some k else key s v)"
begin

lemma rotations:
  assumes "inv s" and "version s + length ks < bound"
  shows "inv (fold rotate ks s) \<and> version (fold rotate ks s) = version s + length ks \<and>
    (\<forall>v \<le> version s. key (fold rotate ks s) v = key s v) \<and>
    (\<forall>i < length ks. key (fold rotate ks s) (version s + Suc i) = Some (ks ! i))"
  using assms
proof (induction ks rule: rev_induct)
  case (snoc k ks)
  let ?t = "fold rotate ks s"
  have t: "inv ?t" "version ?t = version s + length ks"
      "\<forall>v \<le> version s. key ?t v = key s v"
      "\<forall>i < length ks. key ?t (version s + Suc i) = Some (ks ! i)"
    using snoc by simp_all
  have lt: "Suc (version ?t) < bound" using snoc.prems t(2) by simp
  have key': "\<And>v. v < bound \<Longrightarrow> key (rotate k ?t) v = (if v = Suc (version ?t) then Some k else key ?t v)"
    using rotate_key [OF t(1) lt] by blast
  have old: "key (rotate k ?t) v = key s v" if "v \<le> version s" for v
    using that key' [of v] t(2,3) lt by simp
  have new: "key (rotate k ?t) (version s + Suc i) = Some ((ks @ [k]) ! i)" if "i < length (ks @ [k])" for i
    using that key' [of "version s + Suc i"] t(2,4) lt by (cases "i = length ks") (simp_all add: nth_append)
  show ?case
    using rotate_inv [OF t(1) lt] rotate_version [OF t(1) lt] t(2) old new by simp
qed simp

lemma active_after_rotations:
  assumes "inv s" and "version s + length ks < bound" and "ks \<noteq> []"
  shows "active (fold rotate ks s) = last ks"
proof -
  note r = rotations [OF assms(1,2)]
  have "key (fold rotate ks s) (version s + length ks) = Some (ks ! (length ks - 1))"
  proof -
    have "length ks - 1 < length ks" and "Suc (length ks - 1) = length ks" using assms(3) by simp_all
    then show ?thesis using r by metis
  qed
  moreover have "key (fold rotate ks s) (version s + length ks) = Some (active (fold rotate ks s))"
    using r active_key [of "fold rotate ks s"] by simp
  ultimately show ?thesis using assms(3) by (simp add: last_conv_nth)
qed

end

text \<open>
  The invariant of the node's key manager: the current version's key is the active private
  key, the public key belongs to it, and no version above the current one has a key.
\<close>

definition km_inv :: "ext \<Rightarrow> ('db, 'lim) node_state \<Rightarrow> bool" where
  "km_inv X s \<longleftrightarrow>
     (case globalKeyManager s of
        None \<Rightarrow> False
      | Some km \<Rightarrow> GetKey km (CurrentVersion km) = Some (nodePrivateKey s) \<and>
                   nodePublicKey s = p256_PublicKey X (nodePrivateKey s) \<and>
                   (\<forall>v. CurrentVersion km < v \<longrightarrow> GetKey km v = None))"

definition km_version :: "('db, 'lim) node_state \<Rightarrow> nat" where
  "km_version s = (case globalKeyManager s of None \<Rightarrow> 0 | Some km \<Rightarrow> unat (CurrentVersion km))"

definition km_key :: "('db, 'lim) node_state \<Rightarrow> nat \<Rightarrow> bytes option" where
  "km_key s v = (case globalKeyManager s of None \<Rightarrow> None | Some km \<Rightarrow> GetKey km (word_of_nat v))"

definition rotate_to :: "'lim node_env \<Rightarrow> bytes \<Rightarrow> ('db, 'lim) node_state \<Rightarrow> ('db, 'lim) node_state" where
  "rotate_to E k s = snd (Rotate (E\<lparr>ne_GenerateKey := Inr k\<rparr>) s)"

lemma reencryptShares_fields [simp]:
  "db (reencryptShares E v s) = db s"
  "nodePrivateKey (reencryptShares E v s) = nodePrivateKey s"
  "nodePublicKey (reencryptShares E v s) = nodePublicKey s"
  "globalKeyManager (reencryptShares E v s) = globalKeyManager s"
  "globalIPLimiter (reencryptShares E v s) = globalIPLimiter s"
  "objectLimiters (reencryptShares E v s) = objectLimiters s"
  by (simp_all add: reencryptShares_def)

lemma Rotate_state:
  assumes "globalKeyManager s = Some km"
  shows "globalKeyManager (rotate_to E k s) =
      Some (km\<lparr>km_keys := AList.update (km_currentVersion km + 1) k (km_keys km),
               km_currentVersion := km_currentVersion km + 1, km_lastRotation := ne_Now E\<rparr>)"
    and "nodePrivateKey (rotate_to E k s) = k"
    and "nodePublicKey (rotate_to E k s) = p256_PublicKey (ne_ext E) k"
    and "db (rotate_to E k s) = db s"
  using assms by (simp_all add: rotate_to_def Rotate_def Let_def)

lemma unat_Suc64:
  fixes v :: "64 word"
  assumes "Suc (unat v) < 2 ^ 64"
  shows "unat (v + 1) = Suc (unat v)"
  using assms unat_add_lem [of v 1] by simp

lemma km_invE:
  assumes "km_inv X s"
  obtains km where "globalKeyManager s = Some km"
    and "GetKey km (CurrentVersion km) = Some (nodePrivateKey s)"
    and "nodePublicKey s = p256_PublicKey X (nodePrivateKey s)"
    and "\<forall>v. CurrentVersion km < v \<longrightarrow> GetKey km v = None"
  using assms by (auto simp: km_inv_def split: option.splits)

lemma rotate_to_inv:
  assumes "km_inv (ne_ext E) s" and "Suc (km_version s) < 2 ^ 64"
  shows "km_inv (ne_ext E) (rotate_to E k s)" and "km_version (rotate_to E k s) = Suc (km_version s)"
    and "v < 2 ^ 64 \<Longrightarrow> km_key (rotate_to E k s) v = (if v = Suc (km_version s) then Some k else km_key s v)"
proof -
  obtain km where km: "globalKeyManager s = Some km"
      and "GetKey km (CurrentVersion km) = Some (nodePrivateKey s)"
      and "nodePublicKey s = p256_PublicKey (ne_ext E) (nodePrivateKey s)"
      and future: "\<forall>v. CurrentVersion km < v \<longrightarrow> GetKey km v = None"
    using assms(1) by (rule km_invE)
  have ver: "unat (km_currentVersion km + 1) = Suc (unat (km_currentVersion km))"
    using assms(2) km by (intro unat_Suc64) (simp add: km_version_def CurrentVersion_def)
  then have gt: "km_currentVersion km < km_currentVersion km + 1" by (simp add: word_less_nat_alt)
  show "km_version (rotate_to E k s) = Suc (km_version s)"
    using km ver by (simp add: km_version_def Rotate_state CurrentVersion_def)
  show "km_inv (ne_ext E) (rotate_to E k s)"
    using future gt Rotate_state [OF km, of E k]
    by (auto simp: km_inv_def CurrentVersion_def GetKey_def update_conv')
  show "km_key (rotate_to E k s) v = (if v = Suc (km_version s) then Some k else km_key s v)"
    if "v < 2 ^ 64"
  proof -
    have "unat (word_of_nat v :: 64 word) = v" using that by (simp add: unat_of_nat)
    then have "(word_of_nat v = km_currentVersion km + 1) = (v = Suc (unat (km_currentVersion km)))"
      using ver by (metis word_unat_eq_iff)
    then show ?thesis
      using km by (simp add: km_key_def km_version_def Rotate_state GetKey_def CurrentVersion_def update_conv')
  qed
qed

lemma km_inv_keys:
  assumes "km_inv X s"
  shows "km_key s (km_version s) = Some (nodePrivateKey s)"
    and "km_version s < v \<Longrightarrow> v < 2 ^ 64 \<Longrightarrow> km_key s v = None"
  using assms
  by (auto simp: km_inv_def km_key_def km_version_def CurrentVersion_def word_less_nat_alt unat_of_nat
      split: option.splits)

interpretation node_keys: versioned_keys "km_inv (ne_ext E)" km_version km_key nodePrivateKey
    "rotate_to E" "2 ^ 64" for E
  using rotate_to_inv km_inv_keys by unfold_locales blast+

lemma initKeyManager_ok:
  assumes "initKeyManager K E dir fs s = (Ok (), fs', s')"
  obtains priv where "LoadOrGenerateKey K (ne_GenerateKey E) dir fs = (Ok priv, fs')"
    and "km_inv (ne_ext E) s'" and "km_version s' = 0" and "nodePrivateKey s' = priv" and "db s' = db s"
proof (cases "LoadOrGenerateKey K (ne_GenerateKey E) dir fs")
  case (Pair r fs1)
  with assms obtain priv where "r = Ok priv" "fs1 = fs'" by (cases r) (auto simp: initKeyManager_def)
  with Pair assms show ?thesis
    by (intro that [of priv])
      (auto simp: initKeyManager_def km_inv_def GetKey_def CurrentVersion_def km_version_def)
qed

text \<open>C19: the node key survives a restart: once LoadOrGenerateKey has returned a key, every later call on
  the resulting files returns the same key and changes no file.\<close>

theorem node_key_persists:
  assumes "keystore_ok X K" and "\<And>p. gen = Inr p \<Longrightarrow> p256_Valid X p"
    and "LoadOrGenerateKey K gen dir fs = (Ok priv, fs')"
  shows "LoadOrGenerateKey K gen' dir fs' = (Ok priv, fs')"
  using LoadOrGenerateKey_load LoadOrGenerateKey_mkdir LoadOrGenerateKey_stored assms by metis


text \<open>C35: rotations are not persisted: a restart on the files of the running node goes back to the key from
  before the first rotation, at version 0, whatever keys the node has rotated to.\<close>

theorem rotation_lost_on_restart:
  assumes "keystore_ok (ne_ext E) K" and "\<And>p. ne_GenerateKey E = Inr p \<Longrightarrow> p256_Valid (ne_ext E) p"
    and "initKeyManager K E dir fs s = (Ok (), fs', s0)"
    and "ks \<noteq> []" and "length ks < 2 ^ 64" and "last ks \<noteq> nodePrivateKey s0"
  shows "\<exists>s2. initKeyManager K E' dir fs' s1 = (Ok (), fs', s2) \<and> km_version s2 = 0 \<and>
    nodePrivateKey s2 = nodePrivateKey s0 \<and>
    nodePrivateKey s2 \<noteq> nodePrivateKey (fold (rotate_to E) ks s0)"
proof -
  obtain priv where p: "LoadOrGenerateKey K (ne_GenerateKey E) dir fs = (Ok priv, fs')"
      and inv: "km_inv (ne_ext E) s0" and v0: "km_version s0 = 0" and priv: "nodePrivateKey s0 = priv"
    using assms(3) by (rule initKeyManager_ok)
  have "LoadOrGenerateKey K (ne_GenerateKey E') dir fs' = (Ok priv, fs')"
    using LoadOrGenerateKey_load LoadOrGenerateKey_mkdir LoadOrGenerateKey_stored [OF assms(1,2)] p by metis
  moreover have "nodePrivateKey (fold (rotate_to E) ks s0) = last ks"
    using node_keys.active_after_rotations [OF inv _ assms(4)] assms(5) v0 by simp
  ultimately show ?thesis
    using assms(6) priv by (simp add: initKeyManager_def km_version_def CurrentVersion_def)
qed

subsection \<open>A concrete key store\<close>

text \<open>
  An instance of the parameters that satisfies \<open>keystore_ok\<close>: a length-prefixed PEM form, an
  ASN.1 form of the one key that the examples store, and a total file system.
\<close>

fun FillBytes :: "nat \<Rightarrow> int \<Rightarrow> bytes" where
  "FillBytes 0 d = []"
| "FillBytes (Suc n) d = FillBytes n (d div 256) @ [word_of_int (d mod 256)]"

lemma SetBytes_snoc: "SetBytes (bs @ [b]) = 256 * SetBytes bs + uint b"
  by (simp add: SetBytes_def)

lemma FillBytes_SetBytes: "FillBytes (length bs) (SetBytes bs) = bs"
proof (induction bs rule: rev_induct)
  case (snoc b bs)
  have "uint b < 256" using uint_lt2p [of b] by simp
  then show ?case using snoc by (simp add: SetBytes_snoc)
qed simp

definition key_example :: ecdsa_key where
  "key_example = \<lparr>ec_Curve = ''P-256'', ec_D = SetBytes (replicate 32 7), ec_X = 0, ec_Y = 0\<rparr>"

definition keystore_example :: keystore_env where
  "keystore_example =
     \<lparr> os_MkdirAll = (\<lambda>d. None),
       os_WriteFile = (\<lambda>path data fs. (None, fs(path \<mapsto> data))),
       pem_Decode = (\<lambda>data. let n = length (takeWhile (\<lambda>b. b = 1) data); r = drop (Suc n) data
                            in if n < length data then Some (string_of_bytes (take n r), drop n r) else None),
       pem_EncodeToMemory = (\<lambda>ty der. replicate (length ty) 1 @ 0 # bytes_of_string ty @ der),
       x509_ParseECPrivateKey = (\<lambda>d. if d = [48] then Inr key_example else Inl ''asn1: syntax error''),
       x509_MarshalECPrivateKey = (\<lambda>k. if k = key_example then Inr [48] else Inl ''x509: unknown curve''),
       P256_ScalarBaseMult = (\<lambda>b. (0, 0)),
       ecdsa_ECDH = (\<lambda>k. Inr (FillBytes 32 (ec_D k))) \<rparr>"

lemma keystore_example_MkdirAll: "os_MkdirAll keystore_example d = None"
  by (simp add: keystore_example_def)

lemma pem_example:
  "pem_Decode keystore_example (pem_EncodeToMemory keystore_example ty der) = Some (ty, der)"
proof -
  have "takeWhile (\<lambda>b. b = 1) (replicate n 1 @ (0 :: byte) # xs) = replicate n 1" for n xs
    by (induction n) simp_all
  then show ?thesis by (simp add: keystore_example_def Let_def)
qed

lemma keystore_ok_example: "keystore_ok ext_example keystore_example"
proof -
  have "FillBytes 32 (SetBytes priv) = priv" if "length priv = 32" for priv
    using FillBytes_SetBytes [of priv] that by simp
  then show ?thesis
    unfolding keystore_ok_def
    by (intro conjI allI impI pem_example)
      (auto simp: keystore_example_def privToEC_def ext_example_def Let_def split: if_splits)
qed

lemma LoadOrGenerateKey_example:
  "LoadOrGenerateKey keystore_example (Inr (replicate 32 7)) ''d'' Map.empty =
     (Ok (replicate 32 7),
      [''d/node_key.pem'' \<mapsto> pem_EncodeToMemory keystore_example ''EC PRIVATE KEY'' [48]])"
proof -
  have "saveKeyToDisk keystore_example (replicate 32 7) p fs =
      (Ok (), fs(p \<mapsto> pem_EncodeToMemory keystore_example ''EC PRIVATE KEY'' [48]))" for p fs
    by (simp add: saveKeyToDisk_def privToEC_def Let_def) (simp add: keystore_example_def key_example_def)
  then show ?thesis
    by (simp add: LoadOrGenerateKey_def stored_key_def keyFileName_def keystore_example_MkdirAll)
qed

theorem node_key_persists_witness:
  "LoadOrGenerateKey keystore_example (Inl ''no entropy'') ''d''
     [''d/node_key.pem'' \<mapsto> pem_EncodeToMemory keystore_example ''EC PRIVATE KEY'' [48]] =
   (Ok (replicate 32 7), [''d/node_key.pem'' \<mapsto> pem_EncodeToMemory keystore_example ''EC PRIVATE KEY'' [48]])"
  by (rule node_key_persists [OF keystore_ok_example _ LoadOrGenerateKey_example])
    (simp add: ext_example_def)

definition node_example :: "int node_env" where
  "node_example = env_example \<lparr>env_Type = EnvelopeTypeTx, env_V1 = None\<rparr> []"

definition started_example :: "(alist_db, int) node_state" where
  "started_example =
     state_example\<lparr>globalKeyManager := Some \<lparr>km_currentVersion = 0, km_keys = [(0, replicate 32 7)],
                                            km_lastRotation = 0, km_dataDir = ''d''\<rparr>,
                   nodePrivateKey := replicate 32 7, nodePublicKey := replicate 32 7\<rparr>"

lemma initKeyManager_example:
  "initKeyManager keystore_example node_example ''d'' Map.empty state_example =
     (Ok (), [''d/node_key.pem'' \<mapsto> pem_EncodeToMemory keystore_example ''EC PRIVATE KEY'' [48]],
      started_example)"
  using LoadOrGenerateKey_example
  by (simp add: initKeyManager_def node_example_def env_example_def started_example_def ext_example_def)


theorem rotation_lost_on_restart_witness:
  "\<exists>s2. initKeyManager keystore_example node_example ''d''
      [''d/node_key.pem'' \<mapsto> pem_EncodeToMemory keystore_example ''EC PRIVATE KEY'' [48]] state_example =
      (Ok (), [''d/node_key.pem'' \<mapsto> pem_EncodeToMemory keystore_example ''EC PRIVATE KEY'' [48]], s2) \<and>
    nodePrivateKey s2 = replicate 32 7 \<and>
    nodePrivateKey s2 \<noteq> nodePrivateKey (fold (rotate_to node_example) [replicate 32 8] started_example)"
proof -
  have "keystore_ok (ne_ext node_example) keystore_example"
    using keystore_ok_example by (simp add: node_example_def env_example_def)
  moreover have "p256_Valid (ne_ext node_example) p" if "ne_GenerateKey node_example = Inr p" for p
    using that by (auto simp: node_example_def env_example_def ext_example_def)
  moreover have "nodePrivateKey started_example = replicate 32 7"
    by (simp add: started_example_def)
  moreover have "replicate 32 (8 :: byte) \<noteq> replicate 32 7" by simp
  ultimately show ?thesis
    using rotation_lost_on_restart [OF _ _ initKeyManager_example, of "[replicate 32 8]" node_example state_example]
    by auto
qed

end
