(* ===== verification/Node_Crypto.thy ===== *)
theory Node_Crypto
  imports Externals Go_Hex
begin

text \<open>
  \<open>node/crypto.go\<close> and \<open>node/hkdf.go\<close>: decrypting an ECIES-encrypted share with the node's
  P-256 key, checking a Stellar signature, and the helpers beside them. Where a function
  draws randomness, what the random source returned is an argument.
\<close>

definition GenerateNodeKey :: "string + bytes \<Rightarrow> bytes result" where
  "GenerateNodeKey gen =
     (case gen of Inl e \<Rightarrow> Err (''failed to generate P-256 key: '' @ e) | Inr priv \<Rightarrow> Ok priv)"

definition DecryptShare :: "ext \<Rightarrow> bytes \<Rightarrow> bytes \<Rightarrow> bytes \<Rightarrow> bytes \<Rightarrow> bytes result" where
  "DecryptShare X nodePriv ephemeralPubKeyBytes ciphertext nonce =
     (case p256_NewPublicKey X ephemeralPubKeyBytes of
        Inl e \<Rightarrow> Err (''invalid ephemeral public key: '' @ e)
      | Inr ephemeralPub \<Rightarrow>
          (case p256_ECDH X nodePriv ephemeralPub of
             Inl e \<Rightarrow> Err (''ECDH key agreement failed: '' @ e)
           | Inr sharedSecret \<Rightarrow>
               bind_result
                 (wrap_err ''failed to initialize AES block cipher: '' (aes_NewCipher (aes X) sharedSecret))
                 (\<lambda>blk. wrap_err ''decryption failed (invalid ciphertext/nonce/key): ''
                          (gcm_Open blk nonce ciphertext []))))"

definition EncryptShareForTesting ::
    "ext \<Rightarrow> string + bytes \<Rightarrow> bytes \<Rightarrow> bytes \<Rightarrow> bytes \<Rightarrow> (bytes \<times> bytes) result" where
  "EncryptShareForTesting X gen nodePub plaintext nonce =
     (case gen of
        Inl e \<Rightarrow> Err (''failed to generate ephemeral key: '' @ e)
      | Inr ephemeralPriv \<Rightarrow>
          (case p256_ECDH X ephemeralPriv nodePub of
             Inl e \<Rightarrow> Err (''ECDH failed: '' @ e)
           | Inr sharedSecret \<Rightarrow>
               bind_result (aes_NewCipher (aes X) sharedSecret)
                 (\<lambda>blk. bind_result (gcm_Seal blk nonce plaintext [])
                    (\<lambda>ciphertext. Ok (p256_PublicKey X ephemeralPriv, ciphertext)))))"

definition ed25519_PublicKeySize :: nat where
  "ed25519_PublicKeySize = 32"

definition VerifyStellarSignature :: "ext \<Rightarrow> string \<Rightarrow> bytes \<Rightarrow> bytes \<Rightarrow> bool result" where
  "VerifyStellarSignature X stellarAddress message signature =
     (case strkey_Decode X VersionByteAccountID stellarAddress of
        Inl e \<Rightarrow> Err (''invalid Stellar address: '' @ e)
      | Inr pubKeyBytes \<Rightarrow>
          if length pubKeyBytes \<noteq> ed25519_PublicKeySize then
            Err (''invalid public key size: expected '' @ show_nat ed25519_PublicKeySize @
                 '' bytes, got '' @ show_nat (length pubKeyBytes))
          else Ok (ed25519_Verify X pubKeyBytes message signature))"

definition BuildAAD :: "string \<Rightarrow> string \<Rightarrow> bytes" where
  "BuildAAD contractID objectID =
     bytes_of_string (''soroban-encrypt|'' @ contractID @ ''|'' @ objectID)"

definition hkdfInfo :: string where
  "hkdfInfo = ''soroban-encrypt-share''"

definition DeriveAESKey :: "ext \<Rightarrow> bytes \<Rightarrow> bytes result" where
  "DeriveAESKey X sharedSecret =
     (case hkdf_Read X sharedSecret (bytes_of_string hkdfInfo) 32 of
        Inl e \<Rightarrow> Err e
      | Inr key \<Rightarrow> Ok key)"

subsection \<open>Decrypting a share\<close>

lemma DecryptShare_secret:
  assumes "p256_NewPublicKey X eph = Inr pub" and "p256_ECDH X priv pub = Inr s"
    and "length s = 32"
  shows "DecryptShare X priv eph ct nonce =
    wrap_err ''decryption failed (invalid ciphertext/nonce/key): '' (gcm_Open (aes X s) nonce ct [])"
  using assms by (simp add: DecryptShare_def aes_NewCipher_def aes_key_ok_def)

lemma DecryptShare_no_panic:
  assumes "length nonce = gcm_NonceSize"
  shows "\<not> is_panic (DecryptShare X priv eph ct nonce)"
  using assms gcm_Open_no_panic
  by (auto simp: DecryptShare_def is_panic_bind_result aes_NewCipher_def split: sum.splits if_splits)

lemma DecryptShare_bad_nonce:
  assumes "p256_NewPublicKey X eph = Inr pub" and "p256_ECDH X priv pub = Inr s"
    and "length s = 32" and "length nonce \<noteq> gcm_NonceSize"
  shows "DecryptShare X priv eph ct nonce = Panic gcm_nonce_panic"
  using DecryptShare_secret [OF assms(1-3), of ct nonce] assms(4) by (simp add: gcm_Open_def)

lemma EncryptShareForTesting_roundtrip:
  assumes "p256_ok X" and "p256_Valid X priv" and "p256_Valid X e"
    and "length nonce = gcm_NonceSize"
    and "EncryptShareForTesting X (Inr e) (p256_PublicKey X priv) pt nonce = Ok (eph, ct)"
  shows "DecryptShare X priv eph ct nonce = Ok pt"
proof -
  obtain s where s: "p256_ECDH X e (p256_PublicKey X priv) = Inr s"
      "p256_ECDH X priv (p256_PublicKey X e) = Inr s" "length s = 32"
    using p256_okD(2) [OF assms(1,3,2)] by blast
  then have "eph = p256_PublicKey X e" and "gcm_Seal (aes X s) nonce pt [] = Ok ct"
    using assms(5) by (auto simp: EncryptShareForTesting_def aes_NewCipher_def aes_key_ok_def)
  moreover have "p256_NewPublicKey X (p256_PublicKey X e) = Inr (p256_PublicKey X e)"
    by (rule p256_okD(1) [OF assms(1,3)])
  ultimately show ?thesis
    using DecryptShare_secret [OF _ s(2,3)] gcm.open_seal [OF assms(4)] by simp
qed

subsection \<open>Additional data\<close>

lemma BuildAAD_inject_iff:
  "BuildAAD c ob = BuildAAD c' ob' \<longleftrightarrow> c @ CHR ''|'' # ob = c' @ CHR ''|'' # ob'"
  by (simp add: BuildAAD_def)

lemma BuildAAD_inject:
  assumes "CHR ''|'' \<notin> set c" and "CHR ''|'' \<notin> set c'"
  shows "BuildAAD c ob = BuildAAD c' ob' \<longleftrightarrow> c = c' \<and> ob = ob'"
  using split_at_unique [OF _ assms] by (auto simp: BuildAAD_inject_iff)

end
