(* ===== verification/Node_Config.thy ===== *)
theory Node_Config
  imports Node_State
begin

text \<open>
  \<open>node/config.go\<close>: the configuration a node reads from its environment, its validation, and
  the durations and switches derived from it. \<open>strconv.ParseFloat\<close> is a parameter; nothing in
  the program computes with its result.
\<close>

text \<open>A signed 64-bit result.\<close>

definition wrap64 :: "int \<Rightarrow> int" where
  "wrap64 i = (i + 2 ^ 63) mod 2 ^ 64 - 2 ^ 63"

lemma wrap64_id: "int64_range i \<Longrightarrow> wrap64 i = i"
  by (simp add: wrap64_def int64_range_def)

lemma wrap64_range: "int64_range (wrap64 i)"
  by (simp add: wrap64_def int64_range_def)

text \<open>\<open>strconv.Quote\<close>, the \<open>%q\<close> of package fmt, on ASCII text.\<close>

definition quote_char :: "char \<Rightarrow> string" where
  "quote_char c =
     (if c = CHR 0x22 then [CHR 0x5C, CHR 0x22]
      else if c = CHR 0x5C then [CHR 0x5C, CHR 0x5C]
      else if c = CHR 0x07 then [CHR 0x5C, CHR ''a'']
      else if c = CHR 0x08 then [CHR 0x5C, CHR ''b'']
      else if c = CHR 0x0C then [CHR 0x5C, CHR ''f'']
      else if c = CHR 0x0A then [CHR 0x5C, CHR ''n'']
      else if c = CHR 0x0D then [CHR 0x5C, CHR ''r'']
      else if c = CHR 0x09 then [CHR 0x5C, CHR ''t'']
      else if c = CHR 0x0B then [CHR 0x5C, CHR ''v'']
      else if (of_char c :: nat) < 32 \<or> (of_char c :: nat) \<ge> 127
        then [CHR 0x5C, CHR ''x''] @ hex_EncodeToString [byte_of_char c]
      else [c])"

definition go_quote :: "string \<Rightarrow> string" where
  "go_quote s = CHR 0x22 # concat (map quote_char s) @ [CHR 0x22]"

record Config =
  Port :: string
  DataDir :: string
  SorobanRPCURL :: string
  StoreAPIKey :: string
  LogLevel :: string
  TLSMode :: string
  TLSCert :: string
  TLSKey :: string
  Domain :: string
  ACMECacheDir :: string
  RateLimit :: float64
  RateBurst :: int
  MetricsAPIKey :: string
  TimeoutSecs :: int
  MaxBodySizeMB :: int
  HealthCheckPath :: string
  Peers :: "string list"

type_synonym environ = "string \<Rightarrow> string"          \<comment> \<open>os.Getenv: empty when unset\<close>

definition getEnv :: "environ \<Rightarrow> string \<Rightarrow> string \<Rightarrow> string" where
  "getEnv env key fallback = (if env key \<noteq> [] then env key else fallback)"

definition getEnvFloat ::
    "(string \<Rightarrow> float64 option) \<Rightarrow> environ \<Rightarrow> string \<Rightarrow> float64 \<Rightarrow> float64" where
  "getEnvFloat parse env key fallback =
     (if env key \<noteq> [] then (case parse (env key) of Some f \<Rightarrow> f | None \<Rightarrow> fallback) else fallback)"

definition getEnvInt :: "environ \<Rightarrow> string \<Rightarrow> int \<Rightarrow> int" where
  "getEnvInt env key fallback =
     (if env key \<noteq> [] then (case strconv_Atoi (env key) of Some i \<Rightarrow> i | None \<Rightarrow> fallback) else fallback)"

definition LoadConfig :: "(string \<Rightarrow> float64 option) \<Rightarrow> environ \<Rightarrow> Config" where
  "LoadConfig parse env =
     \<lparr> Port = getEnv env ''PORT'' ''8080'',
       DataDir = getEnv env ''DATA_DIR'' ''./data'',
       SorobanRPCURL = getEnv env ''SOROBAN_RPC_URL'' ''https://soroban-testnet.stellar.org:443'',
       StoreAPIKey = getEnv env ''STORE_API_KEY'' [],
       LogLevel = getEnv env ''LOG_LEVEL'' ''info'',
       TLSMode = getEnv env ''TLS_MODE'' ''off'',
       TLSCert = getEnv env ''TLS_CERT'' [],
       TLSKey = getEnv env ''TLS_KEY'' [],
       Domain = getEnv env ''DOMAIN'' [],
       ACMECacheDir = getEnv env ''ACME_CACHE_DIR'' ''./data/acme'',
       RateLimit = getEnvFloat parse env ''RATE_LIMIT'' (Float 10 0),
       RateBurst = getEnvInt env ''RATE_BURST'' 20,
       MetricsAPIKey = getEnv env ''METRICS_API_KEY'' [],
       TimeoutSecs = getEnvInt env ''TIMEOUT_SECONDS'' 30,
       MaxBodySizeMB = getEnvInt env ''MAX_BODY_SIZE_MB'' 10,
       HealthCheckPath = getEnv env ''HEALTH_CHECK_PATH'' ''/health'',
       Peers = [] \<rparr>"

definition Validate :: "Config \<Rightarrow> unit result" where
  "Validate c =
     (if DataDir c = [] then Err ''DATA_DIR cannot be empty''
      else if SorobanRPCURL c = [] then Err ''SOROBAN_RPC_URL cannot be empty''
      else if TLSMode c = ''off'' then Ok ()
      else if TLSMode c = ''auto'' then
        (if Domain c = [] then Err ''TLS_MODE=auto requires DOMAIN to be set'' else Ok ())
      else if TLSMode c = ''manual'' then
        (if TLSCert c = [] \<or> TLSKey c = []
         then Err ''TLS_MODE=manual requires both TLS_CERT and TLS_KEY to be set'' else Ok ())
      else Err (''TLS_MODE must be one of: off, auto, manual (got '' @ go_quote (TLSMode c) @ '')''))"

definition RateLimiterConfig :: "Config \<Rightarrow> float64 \<times> int" where
  "RateLimiterConfig c = (RateLimit c, RateBurst c)"

definition StoreAuthRequired :: "Config \<Rightarrow> bool" where
  "StoreAuthRequired c \<longleftrightarrow> StoreAPIKey c \<noteq> []"

definition ACMEEnabled :: "Config \<Rightarrow> bool" where
  "ACMEEnabled c \<longleftrightarrow> TLSMode c = ''auto''"

text \<open>A \<open>time.Duration\<close> is an int64 of nanoseconds; the product wraps.\<close>

definition time_Second :: int where
  "time_Second = 1000000000"

definition ReadTimeout :: "Config \<Rightarrow> int" where
  "ReadTimeout c = wrap64 (TimeoutSecs c * time_Second)"

definition WriteTimeout :: "Config \<Rightarrow> int" where
  "WriteTimeout c = wrap64 (TimeoutSecs c * time_Second)"

text \<open>\<open>node/tls.go\<close>: the parts that are not calls into crypto/tls.\<close>

definition tlsModeDescription :: "string \<Rightarrow> string" where
  "tlsModeDescription mode =
     (if mode = ''auto'' then ''Let's Encrypt automatic certificate''
      else if mode = ''manual'' then ''manual certificate from file''
      else ''plaintext HTTP (no TLS)'')"

definition minTLSVersionName :: string where
  "minTLSVersionName = ''TLS 1.3''"

definition hstsValue :: string where
  "hstsValue = ''max-age=63072000; includeSubDomains; preload''"

definition TLSConfigSummary :: "Config \<Rightarrow> string" where
  "TLSConfigSummary cfg = ''mode='' @ TLSMode cfg @ '' domain='' @ Domain cfg @ '' cert='' @ TLSCert cfg"

record tls_Config =
  tls_MinVersion :: nat
  tls_Certificates :: "bytes list"

definition buildTLSConfig ::
    "(string \<Rightarrow> string \<Rightarrow> string + bytes) \<Rightarrow> Config \<Rightarrow> tls_Config result" where
  "buildTLSConfig LoadX509KeyPair cfg =
     (case LoadX509KeyPair (TLSCert cfg) (TLSKey cfg) of
        Inl e \<Rightarrow> Err (''failed to load TLS keypair: '' @ e)
      | Inr cert \<Rightarrow> Ok \<lparr>tls_MinVersion = 0x0304, tls_Certificates = [cert]\<rparr>)"

subsection \<open>Properties\<close>

lemma getEnvInt_range: "int64_range fallback \<Longrightarrow> int64_range (getEnvInt env key fallback)"
  using strconv_Atoi_range by (auto simp: getEnvInt_def split: option.splits)

lemma Validate_iff:
  "(Validate c = Ok () \<longleftrightarrow>
      DataDir c \<noteq> [] \<and> SorobanRPCURL c \<noteq> [] \<and>
      (TLSMode c = ''off'' \<or> TLSMode c = ''auto'' \<and> Domain c \<noteq> [] \<or>
       TLSMode c = ''manual'' \<and> TLSCert c \<noteq> [] \<and> TLSKey c \<noteq> [])) \<and>
   \<not> is_panic (Validate c)"
  by (auto simp: Validate_def split: if_splits)

text \<open>C36: every environment gives a configuration whose integers fit an int64 and whose data directory, RPC
  URL, port, log level and health path are not empty, so a configuration read from the environment can
  fail validation only because of the TLS settings.\<close>

theorem LoadConfig_valid:
  "let c = LoadConfig parse env
   in int64_range (RateBurst c) \<and> int64_range (TimeoutSecs c) \<and> int64_range (MaxBodySizeMB c) \<and>
      DataDir c \<noteq> [] \<and> SorobanRPCURL c \<noteq> [] \<and> Port c \<noteq> [] \<and> LogLevel c \<noteq> [] \<and>
      HealthCheckPath c \<noteq> [] \<and>
      (Validate c = Ok () \<longleftrightarrow>
         env ''TLS_MODE'' \<in> {[], ''off''} \<or> env ''TLS_MODE'' = ''auto'' \<and> env ''DOMAIN'' \<noteq> [] \<or>
         env ''TLS_MODE'' = ''manual'' \<and> env ''TLS_CERT'' \<noteq> [] \<and> env ''TLS_KEY'' \<noteq> [])"
proof -
  have "int64_range 20" "int64_range 30" "int64_range 10" by (simp_all add: int64_range_def)
  note ranges = this [THEN getEnvInt_range]
  have ne: "getEnv env k d = [] \<longleftrightarrow> env k = [] \<and> d = []" for k d by (simp add: getEnv_def)
  have mode: "getEnv env ''TLS_MODE'' ''off'' = m \<longleftrightarrow> env ''TLS_MODE'' = m \<or> env ''TLS_MODE'' = [] \<and> m = ''off''"
    if "m \<noteq> []" for m using that by (auto simp: getEnv_def)
  show ?thesis
    unfolding Let_def LoadConfig_def by (simp add: ranges ne mode Validate_iff) blast
qed

end
