(* ===== verification/Node_Middleware.thy ===== *)
theory Node_Middleware
  imports Node_Config
begin

text \<open>
  \<open>node/middleware.go\<close>, \<open>node/ratelimit.go\<close>, the header middleware of \<open>node/tls.go\<close> and the
  guarded handlers of \<open>node/metrics.go\<close>. A middleware takes the next handler and is a handler;
  both work on the node state. The guards (API key, IP list, rate limit) share a contract,
  stated as a locale.
\<close>

type_synonym ('db, 'lim) node_handler = "('db, 'lim) node_state handler"

subsection \<open>Comparing keys\<close>

definition secureStringEqual :: "string \<Rightarrow> string \<Rightarrow> bool" where
  "secureStringEqual a b =
     (if length a \<noteq> length b then False
      else foldl (\<lambda>diff i. diff OR (byte_of_char (a ! i) XOR byte_of_char (b ! i))) 0 [0..<length a] = 0)"

definition unauthorizedResponse :: "string \<Rightarrow> http_writer \<Rightarrow> http_writer" where
  "unauthorizedResponse reason w =
     write_body (''{'' @ go_quote ''error'' @ '':'' @ go_quote ''unauthorized'' @ '','' @
                 go_quote ''error_reason'' @ '':'' @ go_quote reason @ ''}'' @ [CHR 0x0A])
       (write_header 401 (header_set ''Content-Type'' ''application/json'' w))"

subsection \<open>Middleware\<close>

definition generateRequestID :: "'lim node_env \<Rightarrow> string" where
  "generateRequestID E = hex_EncodeToString (ne_rand E 8)"

text \<open>
  The logging middleware reads the whole body, with no limit of its own, and hands the next
  handler a buffer of what it read. It logs when the next handler returns, not on a panic.
\<close>

definition loggingMiddleware :: "'lim node_env \<Rightarrow> ('db, 'lim) node_handler \<Rightarrow> ('db, 'lim) node_handler" where
  "loggingMiddleware E next w r s =
     (let reqID = (if header_get r ''X-Request-Id'' = [] then generateRequestID E
                   else header_get r ''X-Request-Id'');
          w1 = header_set ''X-Request-Id'' reqID w;
          body = body_seen r;
          r1 = r\<lparr>r_Body := body, r_MaxBytes := None\<rparr>
      in case next (w1\<lparr>w_status := 200\<rparr>) r1 s of
           Panicked p w' s' \<Rightarrow> Panicked p w' s'
         | Served w' s' \<Rightarrow>
             Served w' (log_to_logger E InfoLevel ''http_request''
               [(''method'', r_Method r), (''path'', r_Path r), (''remote_addr'', r_RemoteAddr r),
                (''status'', show_nat (w_status w')), (''body_size'', show_nat (length body)),
                (''req_id'', reqID), (''duration_us'', show_int (ne_Micros E))] s'))"

definition bodySizeLimitMiddleware :: "int \<Rightarrow> ('db, 'lim) node_handler \<Rightarrow> ('db, 'lim) node_handler" where
  "bodySizeLimitMiddleware maxBytes next w r s =
     next w (r\<lparr>r_MaxBytes := (case r_MaxBytes r of None \<Rightarrow> Some maxBytes
                                | Some m \<Rightarrow> Some (min m maxBytes))\<rparr>) s"

definition apiKeyMiddleware ::
    "'lim node_env \<Rightarrow> string \<Rightarrow> ('db, 'lim) node_handler \<Rightarrow> ('db, 'lim) node_handler" where
  "apiKeyMiddleware E expectedKey next w r s =
     (if expectedKey = [] then next w r s
      else if \<not> secureStringEqual (header_get r ''X-Api-Key'') expectedKey then
        Served (unauthorizedResponse ''Invalid API Key'' w)
          (log_to_logger E WarnLevel ''api_key_rejected''
             [(''path'', r_Path r), (''remote'', r_RemoteAddr r)] s)
      else next w r s)"

definition client_ip :: "http_request \<Rightarrow> string" where
  "client_ip r =
     (let ip = hd (split_on (CHR '':'') (r_RemoteAddr r)); fwd = header_get r ''X-Forwarded-For''
      in if fwd \<noteq> [] then trim_space (hd (split_on (CHR '','') fwd)) else ip)"

definition ipAllowlistMiddleware ::
    "'lim node_env \<Rightarrow> string list \<Rightarrow> ('db, 'lim) node_handler \<Rightarrow> ('db, 'lim) node_handler" where
  "ipAllowlistMiddleware E allowed next w r s =
     (if allowed = [] then next w r s
      else let ip = client_ip r
           in if ip \<in> set allowed then next w r s
              else Served (http_Error (''IP '' @ ip @ '' not allowed'') 403 w)
                     (log_to_logger E WarnLevel ''ip_allowlist_blocked'' [(''ip'', ip)] s))"

definition maskSensitiveField :: "string \<Rightarrow> string" where
  "maskSensitiveField v = (if length v < 8 then ''****'' else take 4 v @ ''****'')"

text \<open>The loop of \<open>wrapWithMiddlewareChain\<close>, from the last middleware to the first.\<close>

fun wrap_loop :: "('h \<Rightarrow> 'h) list \<Rightarrow> nat \<Rightarrow> 'h \<Rightarrow> 'h" where
  "wrap_loop middlewares 0 h = h"
| "wrap_loop middlewares (Suc i) h = wrap_loop middlewares i ((middlewares ! i) h)"

definition wrapWithMiddlewareChain :: "'h \<Rightarrow> ('h \<Rightarrow> 'h) list \<Rightarrow> 'h" where
  "wrapWithMiddlewareChain h middlewares = wrap_loop middlewares (length middlewares) h"

definition storeAuthMiddleware ::
    "'lim node_env \<Rightarrow> string \<Rightarrow> string list \<Rightarrow> ('db, 'lim) node_handler \<Rightarrow> ('db, 'lim) node_handler" where
  "storeAuthMiddleware E apiKey allowedIPs next =
     apiKeyMiddleware E apiKey (ipAllowlistMiddleware E allowedIPs next)"

definition hstsMiddleware :: "('db, 'lim) node_handler \<Rightarrow> ('db, 'lim) node_handler" where
  "hstsMiddleware next w r s =
     next (header_set ''Strict-Transport-Security'' ''max-age=63072000; includeSubDomains'' w) r s"

definition requireMetricsKey :: "string \<Rightarrow> ('db, 'lim) node_handler \<Rightarrow> ('db, 'lim) node_handler" where
  "requireMetricsKey key next w r s =
     (if key \<noteq> [] \<and> \<not> secureStringEqual (header_get r ''X-Api-Key'') key then
        Served (http_Error ''Unauthorized'' 401 w) s
      else next w r s)"

text \<open>The handler of the Prometheus client is the parameter \<open>h\<close>.\<close>

definition metricsHandler :: "string \<Rightarrow> ('db, 'lim) node_handler \<Rightarrow> ('db, 'lim) node_handler" where
  "metricsHandler apiKey h w r s =
     (if apiKey \<noteq> [] \<and> \<not> secureStringEqual (header_get r ''X-Api-Key'') apiKey then
        Served (http_Error ''Unauthorized'' 401 w) s
      else h w r s)"

definition updateSharesInStore :: "('db, 'lim) node_state \<Rightarrow> ('db, 'lim) node_state result" where
  "updateSharesInStore s =
     (case countShares (db s) of
        Ok n \<Rightarrow> Ok (s\<lparr>sharesInStore := int n\<rparr>)
      | Err e \<Rightarrow> Ok s
      | Panic p \<Rightarrow> Panic p)"

subsection \<open>Rate limiting\<close>

definition newIPLimiterStore :: "float64 \<Rightarrow> int \<Rightarrow> 'lim ipLimiterStore" where
  "newIPLimiterStore r b = \<lparr>limiters = [], ip_r = r, ip_b = b\<rparr>"

definition ip_get :: "'lim limiter_api \<Rightarrow> string \<Rightarrow> 'lim ipLimiterStore \<Rightarrow> 'lim \<times> 'lim ipLimiterStore" where
  "ip_get L ip l =
     (case map_of (limiters l) ip of
        Some lim \<Rightarrow> (lim, l)
      | None \<Rightarrow> let lim = lim_New L (ip_r l) (ip_b l)
                in (lim, l\<lparr>limiters := AList.update ip lim (limiters l)\<rparr>))"

text \<open>\<open>get(ip).Allow()\<close>: the limiter is shared by reference, so its new state is stored.\<close>

definition ip_allow :: "'lim limiter_api \<Rightarrow> go_time \<Rightarrow> string \<Rightarrow> 'lim ipLimiterStore \<Rightarrow> bool \<times> 'lim ipLimiterStore" where
  "ip_allow L t ip l =
     (case ip_get L ip l of (lim, l1) \<Rightarrow>
        (case lim_Allow L t lim of (ok, lim') \<Rightarrow>
           (ok, l1\<lparr>limiters := AList.update ip lim' (limiters l1)\<rparr>)))"

definition rateLimitMiddleware :: "'lim node_env \<Rightarrow> ('db, 'lim) node_handler \<Rightarrow> ('db, 'lim) node_handler" where
  "rateLimitMiddleware E next w r s =
     (case globalIPLimiter s of
        None \<Rightarrow> next w r s
      | Some l \<Rightarrow>
          let ip = hd (split_on (CHR '':'') (r_RemoteAddr r))
          in case ip_allow (ne_rate E) (ne_Now E) ip l of
               (ok, l') \<Rightarrow>
                 let s1 = s\<lparr>globalIPLimiter := Some l'\<rparr>
                 in if \<not> ok then
                      Served (http_Error ''Too Many Requests'' 429 (header_set ''Retry-After'' ''1'' w)) s1
                    else next w r s1)"

definition object_allow ::
    "'lim limiter_api \<Rightarrow> go_time \<Rightarrow> string \<Rightarrow> (string \<times> 'lim) list \<Rightarrow> bool \<times> (string \<times> 'lim) list" where
  "object_allow L t key ls =
     (let lim = (case map_of ls key of Some lim \<Rightarrow> lim | None \<Rightarrow> lim_New L (lim_Every L time_Second) 5)
      in case lim_Allow L t lim of (ok, lim') \<Rightarrow> (ok, AList.update key lim' ls))"

definition checkObjectRateLimit ::
    "'lim node_env \<Rightarrow> string \<Rightarrow> ('db, 'lim) node_state \<Rightarrow> bool \<times> ('db, 'lim) node_state" where
  "checkObjectRateLimit E objectID s =
     (case object_allow (ne_rate E) (ne_Now E) (''obj:'' @ objectID) (objectLimiters s) of
        (ok, ls) \<Rightarrow> (ok, s\<lparr>objectLimiters := ls\<rparr>))"

subsection \<open>Key comparison and chains\<close>

lemma or_eq_0: "(a OR b :: byte) = 0 \<longleftrightarrow> a = 0 \<and> b = 0"
  by (simp add: or_eq_0_iff)

lemma xor_eq_0: "(a XOR b :: byte) = 0 \<longleftrightarrow> a = b"
proof
  assume "a XOR b = 0"
  then have "(a XOR b) XOR b = b" by simp
  then show "a = b" by (simp add: xor.assoc)
qed simp

lemma foldl_or_eq_0: "foldl (\<lambda>d i. d OR f i) (d :: byte) is = 0 \<longleftrightarrow> d = 0 \<and> (\<forall>i \<in> set is. f i = 0)"
  by (induction "is" arbitrary: d) (auto simp: or_eq_0)

lemma secureStringEqual_eq: "secureStringEqual a b \<longleftrightarrow> a = b"
proof (cases "length a = length b")
  case True
  then have "secureStringEqual a b \<longleftrightarrow> (\<forall>i < length a. a ! i = b ! i)"
    by (auto simp: secureStringEqual_def foldl_or_eq_0 xor_eq_0)
  with True show ?thesis by (auto intro: nth_equalityI)
qed (auto simp: secureStringEqual_def)

lemma wrap_loop_foldr: "i \<le> length ms \<Longrightarrow> wrap_loop ms i h = foldr (\<lambda>m. m) (take i ms) h"
  by (induction i arbitrary: h) (simp_all add: take_Suc_conv_app_nth)

lemma wrapWithMiddlewareChain_foldr: "wrapWithMiddlewareChain h ms = foldr (\<lambda>m. m) ms h"
  by (simp add: wrapWithMiddlewareChain_def wrap_loop_foldr)

lemma wrapWithMiddlewareChain_simps [simp]:
  "wrapWithMiddlewareChain h [] = h"
  "wrapWithMiddlewareChain h (m # ms) = m (wrapWithMiddlewareChain h ms)"
  by (simp_all add: wrapWithMiddlewareChain_foldr)

subsection \<open>The contract of a guard\<close>

text \<open>
  A guard admits a request or answers it itself with a fixed code; an admitted request reaches
  the next handler with the same writer, and a rejected one never does.
\<close>

locale guard =
  fixes mw :: "'s handler \<Rightarrow> 's handler"
    and admits :: "http_request \<Rightarrow> 's \<Rightarrow> bool"
    and enter :: "http_request \<Rightarrow> 's \<Rightarrow> 's"
    and code :: nat
  assumes admit: "admits r s \<Longrightarrow> mw next w r s = next w r (enter r s)"
    and reject: "\<not> admits r s \<Longrightarrow> \<exists>w' s'. (\<forall>next. mw next w r s = Served w' s') \<and>
       (w_code w = None \<longrightarrow> w_code w' = Some code)"
begin

lemma rejected_status:
  assumes "\<not> admits r s" and "w_code w = None"
  shows "status_of (mw next w r s) = Some code"
proof -
  obtain w' s' where "mw next w r s = Served w' s'" and "w_code w' = Some code"
    using reject [OF assms(1)] assms(2) by metis
  then show ?thesis by (simp add: status_of_def)
qed

lemma rejected_indep: "\<not> admits r s \<Longrightarrow> mw next w r s = mw next' w r s"
  using reject [of r s w] by metis

lemma transparent:
  assumes "\<And>r s. admits r s \<and> enter r s = s"
  shows "mw next = next"
  using admit assms by (intro ext) simp

end

lemma unauthorizedResponse_code [simp]: "w_code w = None \<Longrightarrow> w_code (unauthorizedResponse m w) = Some 401"
  by (simp add: unauthorizedResponse_def write_body_def write_header_def)

interpretation api_key: guard "apiKeyMiddleware E key"
    "\<lambda>r s. key = [] \<or> header_get r ''X-Api-Key'' = key" "\<lambda>r s. s" 401 for E key
  by unfold_locales (auto simp: apiKeyMiddleware_def secureStringEqual_eq)

interpretation ip_list: guard "ipAllowlistMiddleware E allowed"
    "\<lambda>r s. allowed = [] \<or> client_ip r \<in> set allowed" "\<lambda>r s. s" 403 for E allowed
  by unfold_locales (auto simp: ipAllowlistMiddleware_def Let_def)

interpretation metrics_key: guard "requireMetricsKey key"
    "\<lambda>r s. key = [] \<or> header_get r ''X-Api-Key'' = key" "\<lambda>r s. s" 401 for key
  by unfold_locales (auto simp: requireMetricsKey_def secureStringEqual_eq)

lemma metricsHandler_requireMetricsKey: "metricsHandler key h = requireMetricsKey key h"
  by (intro ext) (simp add: metricsHandler_def requireMetricsKey_def)

abbreviation remote_ip :: "http_request \<Rightarrow> string" where
  "remote_ip r \<equiv> hd (split_on (CHR '':'') (r_RemoteAddr r))"

interpretation ip_rate: guard "rateLimitMiddleware E"
    "\<lambda>r s. case globalIPLimiter s of None \<Rightarrow> True
           | Some l \<Rightarrow> fst (ip_allow (ne_rate E) (ne_Now E) (remote_ip r) l)"
    "\<lambda>r s. case globalIPLimiter s of None \<Rightarrow> s
           | Some l \<Rightarrow> s\<lparr>globalIPLimiter := Some (snd (ip_allow (ne_rate E) (ne_Now E) (remote_ip r) l))\<rparr>"
    429 for E
  by unfold_locales
    (auto simp: rateLimitMiddleware_def Let_def case_prod_beta split: option.splits)

subsection \<open>Keyed limiters\<close>

text \<open>
  Both limiter tables give each key a limiter of its own: a call for one key moves the limiter
  of that key and no other. So the answers for a key depend only on the calls for that key,
  however they are interleaved with others.
\<close>

locale keyed_limiter =
  fixes allow :: "string \<Rightarrow> 's \<Rightarrow> bool \<times> 's"
    and lim_of :: "'s \<Rightarrow> string \<Rightarrow> 'lim"
    and L :: "'lim limiter_api"
    and t :: go_time
  assumes answer: "fst (allow k s) = fst (lim_Allow L t (lim_of s k))"
    and limiter: "lim_of (snd (allow k s)) k' = (if k' = k then snd (lim_Allow L t (lim_of s k)) else lim_of s k')"
begin

fun run :: "string list \<Rightarrow> 's \<Rightarrow> bool list" where
  "run [] s = []"
| "run (k # ks) s = fst (allow k s) # run ks (snd (allow k s))"

lemma length_run [simp]: "length (run ks s) = length ks"
  by (induction ks arbitrary: s) simp_all

lemma run_nth:
  assumes "i < length ks"
  shows "run ks s ! i =
    fst (allow_calls L t (Suc (count_list (take i ks) (ks ! i))) (lim_of s (ks ! i))) !
      count_list (take i ks) (ks ! i)"
  using assms
proof (induction ks arbitrary: s i)
  case (Cons k ks)
  show ?case
  proof (cases i)
    case 0
    then show ?thesis by (simp add: answer split: prod.splits)
  next
    case (Suc j)
    then have "run ks (snd (allow k s)) ! j =
        fst (allow_calls L t (Suc (count_list (take j ks) (ks ! j))) (lim_of (snd (allow k s)) (ks ! j))) !
          count_list (take j ks) (ks ! j)"
      using Cons.IH [of j "snd (allow k s)"] Cons.prems by simp
    then show ?thesis
      using Suc by (cases "ks ! j = k") (auto simp: limiter split: prod.splits)
  qed
qed simp

lemma run_burst:
  assumes "limiter_ok L" and "i < length ks" and "lim_of s (ks ! i) = lim_New L (Float m e) b"
  shows "run ks s ! i \<longleftrightarrow> int (count_list (take i ks) (ks ! i)) < b"
  using run_nth [OF assms(2), of s] limiter_okD [OF assms(1), of t _ m e b] assms(3)
  by (simp del: allow_calls.simps add: nth_append)

end

definition ip_lim_of :: "'lim limiter_api \<Rightarrow> 'lim ipLimiterStore \<Rightarrow> string \<Rightarrow> 'lim" where
  "ip_lim_of L l ip = (case map_of (limiters l) ip of Some lim \<Rightarrow> lim | None \<Rightarrow> lim_New L (ip_r l) (ip_b l))"

lemma ip_allow_fields:
  "ip_r (snd (ip_allow L t ip l)) = ip_r l" "ip_b (snd (ip_allow L t ip l)) = ip_b l"
  by (simp_all add: ip_allow_def ip_get_def Let_def case_prod_beta split: option.splits)

interpretation ip_limiter: keyed_limiter "ip_allow L t" "ip_lim_of L" L t for L t
  by unfold_locales
    (auto simp: ip_lim_of_def ip_allow_fields, auto simp: ip_allow_def ip_get_def ip_lim_of_def Let_def case_prod_beta update_conv'
      split: option.splits if_splits)

definition object_lim_of :: "'lim limiter_api \<Rightarrow> (string \<times> 'lim) list \<Rightarrow> string \<Rightarrow> 'lim" where
  "object_lim_of L ls key =
     (case map_of ls key of Some lim \<Rightarrow> lim | None \<Rightarrow> lim_New L (lim_Every L time_Second) 5)"

interpretation object_limiter: keyed_limiter "object_allow L t" "object_lim_of L" L t for L t
  by unfold_locales
    (auto simp: object_allow_def object_lim_of_def Let_def case_prod_beta update_conv' split: option.splits)

subsection \<open>Properties\<close>

text \<open>C28: the constant-time comparison of API keys is equality of strings.\<close>

theorem secureStringEqual_iff: "secureStringEqual a b \<longleftrightarrow> a = b"
  by (rule secureStringEqual_eq)

text \<open>C27: behind the store guard a request reaches the handler exactly when no API key is configured or the
  request carries it, and no IP list is configured or the client's address is on it; any other
  request is answered 401 (wrong key) or 403 (address not listed) whatever the handler is.\<close>

theorem storeAuth_guards:
  assumes "w_code w = None"
  shows "if key \<noteq> [] \<and> header_get r ''X-Api-Key'' \<noteq> key
     then status_of (storeAuthMiddleware E key allowed h w r s) = Some 401
     else if allowed \<noteq> [] \<and> client_ip r \<notin> set allowed
     then status_of (storeAuthMiddleware E key allowed h w r s) = Some 403
     else storeAuthMiddleware E key allowed h w r s = h w r s"
proof (cases "key = [] \<or> header_get r ''X-Api-Key'' = key")
  case False
  then show ?thesis
    using api_key.rejected_status [where s = s and E = E, OF False assms] by (simp add: storeAuthMiddleware_def)
next
  case True
  then have "storeAuthMiddleware E key allowed h w r s = ipAllowlistMiddleware E allowed h w r s"
    using api_key.admit [where s = s and E = E, OF True] by (simp add: storeAuthMiddleware_def)
  then show ?thesis
    using True ip_list.rejected_status [where s = s and E = E and r = r and allowed = allowed, OF _ assms]
      ip_list.admit [where s = s and E = E and r = r and allowed = allowed] by auto
qed

text \<open>A handler applied to one request after another, each on the state the one before left.\<close>

fun serve_seq :: "'s handler \<Rightarrow> http_request list \<Rightarrow> 's \<Rightarrow> 's outcome list" where
  "serve_seq h [] s = []"
| "serve_seq h (r # rs) s = (let out = h new_writer r s in out # serve_seq h rs (outcome_state out))"

lemma serve_seq_rate_limit:
  assumes "\<And>w r s. globalIPLimiter (outcome_state (h w r s)) = globalIPLimiter s"
    and "globalIPLimiter s = Some l" and "i < length rs"
  shows "if ip_limiter.run (ne_rate E) (ne_Now E) (map remote_ip rs) l ! i
    then \<exists>s'. serve_seq (rateLimitMiddleware E h) rs s ! i = h new_writer (rs ! i) s'
    else status_of (serve_seq (rateLimitMiddleware E h) rs s ! i) = Some 429"
  using assms(2,3)
proof (induction rs arbitrary: s l i)
  case (Cons r rs)
  let ?a = "ip_allow (ne_rate E) (ne_Now E) (remote_ip r) l"
  let ?out = "rateLimitMiddleware E h new_writer r s"
  have out: "?out = (if fst ?a then h new_writer r (s\<lparr>globalIPLimiter := Some (snd ?a)\<rparr>)
      else Served (http_Error ''Too Many Requests'' 429 (header_set ''Retry-After'' ''1'' new_writer))
             (s\<lparr>globalIPLimiter := Some (snd ?a)\<rparr>))"
    using Cons.prems by (simp add: rateLimitMiddleware_def Let_def case_prod_beta)
  have next_l: "globalIPLimiter (outcome_state ?out) = Some (snd ?a)"
    using out assms(1) by simp
  show ?case
  proof (cases i)
    case 0
    then show ?thesis using out by (auto simp: Let_def status_of_def)
  next
    case (Suc j)
    then show ?thesis using Cons.IH [OF next_l, of j] Cons.prems by (simp add: Let_def)
  qed
qed simp

text \<open>C29: with the IP limiter installed and fresh, of the requests that arrive at one instant the i-th reaches
  the next handler exactly when fewer than burst earlier ones came from its address, whatever
  requests from other addresses come between; otherwise it is answered 429.\<close>

theorem rate_limit_burst:
  assumes "limiter_ok (ne_rate E)"
    and "\<And>w r s. globalIPLimiter (outcome_state (h w r s)) = globalIPLimiter s"
    and "globalIPLimiter s = Some (newIPLimiterStore (Float m e) b)" and "i < length rs"
  shows "if int (count_list (take i (map remote_ip rs)) (remote_ip (rs ! i))) < b
    then \<exists>s'. serve_seq (rateLimitMiddleware E h) rs s ! i = h new_writer (rs ! i) s'
    else status_of (serve_seq (rateLimitMiddleware E h) rs s ! i) = Some 429"
proof -
  have fresh: "ip_lim_of (ne_rate E) (newIPLimiterStore (Float m e) b) ip = lim_New (ne_rate E) (Float m e) b" for ip
    by (simp add: ip_lim_of_def newIPLimiterStore_def)
  show ?thesis
    using serve_seq_rate_limit [where h = h and E = E, OF assms(2,3,4)]
      ip_limiter.run_burst [OF assms(1) _ fresh, of i "map remote_ip rs" "ne_Now E"] assms(4)
    by simp
qed

text \<open>The quota of an object for a sequence of retrieval requests, by object id.\<close>

fun object_quota :: "'lim node_env \<Rightarrow> string list \<Rightarrow> ('db, 'lim) node_state \<Rightarrow> bool list" where
  "object_quota E [] s = []"
| "object_quota E (ob # obs) s =
     (case checkObjectRateLimit E ob s of (ok, s') \<Rightarrow> ok # object_quota E obs s')"

lemma object_quota_run:
  "object_quota E obs s =
     object_limiter.run (ne_rate E) (ne_Now E) (map ((@) ''obj:'') obs) (objectLimiters s)"
  by (induction obs arbitrary: s) (simp_all add: checkObjectRateLimit_def case_prod_beta)

lemma count_list_map_inj: "inj f \<Longrightarrow> count_list (map f xs) (f x) = count_list xs x"
  by (induction xs) (auto dest: injD)

text \<open>At one instant the first five checks of an object pass and every later one fails, whatever other
  objects are asked for in between; the contract does not enter the key, so all contracts share the
  quota of an object id.\<close>

theorem object_quota_five:
  assumes "limiter_ok (ne_rate E)" and "objectLimiters s = []" and "i < length obs"
  shows "object_quota E obs s ! i \<longleftrightarrow> count_list (take i obs) (obs ! i) < 5"
proof -
  obtain m e where every: "lim_Every (ne_rate E) time_Second = Float m e"
  proof -
    have "0 < time_Second" by (simp add: time_Second_def)
    then show ?thesis using assms(1) that unfolding limiter_ok_def by blast
  qed
  have fresh: "object_lim_of (ne_rate E) [] k = lim_New (ne_rate E) (Float m e) 5" for k
    by (simp add: object_lim_of_def every)
  show ?thesis
    using object_limiter.run_burst [OF assms(1) _ fresh, of i "map ((@) ''obj:'') obs" "ne_Now E"] assms(2,3)
      count_list_map_inj [of "(@) ''obj:''" "take i obs" "obs ! i"]
    by (simp add: object_quota_run take_map inj_def)
qed

subsection \<open>Concrete instances\<close>

theorem storeAuth_guards_witness:
  "let r = \<lparr>r_Method = ''POST'', r_Path = ''/store'', r_Header = [(''X-Api-Key'', ''guess'')],
            r_RemoteAddr = ''10.0.0.9:4711'', r_Body = [], r_MaxBytes = None\<rparr>
   in status_of (storeAuthMiddleware (env_example \<lparr>env_Type = EnvelopeTypeTx, env_V1 = None\<rparr> [])
        ''secret'' [''10.0.0.1''] (\<lambda>w r s. Served w s) new_writer r state_example) = Some 401"
  using storeAuth_guards [of new_writer "''secret''" "\<lparr>r_Method = ''POST'', r_Path = ''/store'',
      r_Header = [(''X-Api-Key'', ''guess'')], r_RemoteAddr = ''10.0.0.9:4711'', r_Body = [], r_MaxBytes = None\<rparr>"]
  by (simp add: Let_def header_get_def)

definition req_from :: "string \<Rightarrow> http_request" where
  "req_from addr = \<lparr>r_Method = ''GET'', r_Path = ''/status'', r_Header = [], r_RemoteAddr = addr,
     r_Body = [], r_MaxBytes = None\<rparr>"

theorem rate_limit_burst_witness:
  "status_of (serve_seq (rateLimitMiddleware (env_example \<lparr>env_Type = EnvelopeTypeTx, env_V1 = None\<rparr> [])
      (\<lambda>w r s. Served w s)) (map req_from [''a:1'', ''b:1'', ''a:2''])
      (state_example\<lparr>globalIPLimiter := Some (newIPLimiterStore (Float 10 0) 1)\<rparr>) ! 2) = Some 429"
  using rate_limit_burst [of "env_example \<lparr>env_Type = EnvelopeTypeTx, env_V1 = None\<rparr> []"
      "\<lambda>w r s. Served w s" "state_example\<lparr>globalIPLimiter := Some (newIPLimiterStore (Float 10 0) 1)\<rparr>"
      10 0 1 2 "map req_from [''a:1'', ''b:1'', ''a:2'']"] limiter_ok_example
  by (simp add: env_example_def req_from_def numeral_2_eq_2)

theorem object_quota_five_witness:
  "\<not> object_quota (env_example \<lparr>env_Type = EnvelopeTypeTx, env_V1 = None\<rparr> [])
      [''o'', ''o'', ''o'', ''p'', ''o'', ''o'', ''o''] state_example ! 6"
  using object_quota_five [of "env_example \<lparr>env_Type = EnvelopeTypeTx, env_V1 = None\<rparr> []" state_example 6
      "[''o'', ''o'', ''o'', ''p'', ''o'', ''o'', ''o'']"] limiter_ok_example
  by (simp add: env_example_def state_example_def)

end
