(* ===== verification/Node_Soroban.thy ===== *)
theory Node_Soroban
  imports Node_State
begin

text \<open>
  The on-chain half of an access decision, from \<open>node/main.go\<close>: the check of the transaction a
  caller submits (\<open>verifySorobanTx\<close>, \<open>getTxSourceAndOps\<close>) and its simulation by the Soroban RPC
  service (\<open>simulateSorobanTx\<close>). The text of a JSON decoding error is not modelled.
\<close>

subsection \<open>Checking the transaction\<close>

definition getTxSourceAndOps :: "TransactionEnvelope \<Rightarrow> (MuxedAccount \<times> Operation list) result" where
  "getTxSourceAndOps env =
     (case env_Type env of
        EnvelopeTypeTx \<Rightarrow>
          (case env_V1 env of
             None \<Rightarrow> Err ''V1 envelope is nil''
           | Some v1 \<Rightarrow> Ok (tx_SourceAccount v1, tx_Operations v1))
      | EnvelopeTypeOther t \<Rightarrow>
          Err (''unsupported transaction envelope type (only V1 Tx is supported for Soroban): '' @ t))"

definition contract_address :: "ext \<Rightarrow> xdr_api \<Rightarrow> ScAddress \<Rightarrow> string result" where
  "contract_address X A addr =
     (case sca_Type addr of
        ScAddressTypeContract \<Rightarrow>
          (case sca_ContractId addr of
             None \<Rightarrow> Err ''contract ID is nil''
           | Some cId \<Rightarrow>
               (case strkey_Encode X VersionByteContract cId of
                  Inl e \<Rightarrow> Err (''failed to encode contract address: '' @ e)
                | Inr s \<Rightarrow> Ok s))
      | ScAddressTypeAccount \<Rightarrow>
          (case sca_AccountId addr of
             None \<Rightarrow> Err ''account ID is nil''
           | Some accId \<Rightarrow>
               (case acc_GetAddress A accId of
                  Inl e \<Rightarrow> Err (''failed to get account address: '' @ e)
                | Inr s \<Rightarrow> Ok s))
      | ScAddressTypeOther t \<Rightarrow> Err (''unknown ScAddress type: '' @ t))"

text \<open>The part of \<open>verifySorobanTx\<close> after the operations are known to be one.\<close>

definition verify_operation ::
    "ext \<Rightarrow> xdr_api \<Rightarrow> Operation \<Rightarrow> string \<Rightarrow> string \<Rightarrow> unit result" where
  "verify_operation X A op contractID expectedFunc =
     (case op_Body op of
        OtherOperation t \<Rightarrow> Err ''operation is not a Soroban InvokeHostFunction operation''
      | InvokeHostFunctionOp fn \<Rightarrow>
          if hf_Type fn \<noteq> HostFunctionTypeInvokeContract then
            Err ''host function is not an InvokeContract type''
          else (case hf_InvokeContract fn of
             None \<Rightarrow> Err ''invoke contract arguments are nil''
           | Some invokeArgs \<Rightarrow>
               bind_result (contract_address X A (ica_ContractAddress invokeArgs))
               (\<lambda>contractAddr.
                  if contractAddr \<noteq> contractID then
                    Err (''contract address '' @ contractAddr @
                         '' does not match expected contract '' @ contractID)
                  else if ica_FunctionName invokeArgs \<noteq> expectedFunc then
                    Err (''function '' @ ica_FunctionName invokeArgs @
                         '' does not match expected function '' @ expectedFunc)
                  else Ok ())))"

definition verifySorobanTx ::
    "ext \<Rightarrow> xdr_api \<Rightarrow> string \<Rightarrow> string \<Rightarrow> string \<Rightarrow> string \<Rightarrow> unit result" where
  "verifySorobanTx X A txXdr contractID expectedFunc sourceAccount =
     (case SafeUnmarshalBase64 A txXdr of
        Inl e \<Rightarrow> Err (''failed to unmarshal transaction XDR: '' @ e)
      | Inr env \<Rightarrow>
          bind_result (wrap_err ''failed to extract transaction details: '' (getTxSourceAndOps env))
          (\<lambda>(sourceMuxed, operations).
          (case muxed_GetAddress A sourceMuxed of
             Inl e \<Rightarrow> Err (''failed to get source address: '' @ e)
           | Inr sourceAddr \<Rightarrow>
               if sourceAddr \<noteq> sourceAccount then
                 Err (''transaction source account '' @ sourceAddr @
                      '' does not match expected caller '' @ sourceAccount)
               else if length operations \<noteq> 1 then
                 Err ''transaction must contain exactly one operation''
               else verify_operation X A (operations ! 0) contractID expectedFunc)))"

subsection \<open>Simulating it\<close>

record SimulateEntry =
  se_Error :: string
  se_XDR :: string

record SimulateResult =
  sr_Error :: string
  sr_Results :: "SimulateEntry list"

record RPCError =
  rpc_Code :: int
  rpc_Message :: string

record SimulateResponse =
  sim_Result :: SimulateResult
  sim_Error :: "RPCError option"

text \<open>
  Decoding into the nested structs: a repeated member of a struct field is merged into what is
  there, null leaves a struct as it is and clears a pointer or a slice.
\<close>

definition entry_of_json :: "json \<Rightarrow> SimulateEntry option" where
  "entry_of_json v =
     Option.bind (json_members v) (\<lambda>ms.
     Option.bind (string_field ''error'' ms) (\<lambda>e.
     Option.bind (string_field ''xdr'' ms) (\<lambda>x. Some \<lparr>se_Error = e, se_XDR = x\<rparr>)))"

fun entries_of_json :: "json list \<Rightarrow> SimulateEntry list option" where
  "entries_of_json [] = Some []"
| "entries_of_json (v # vs) =
     Option.bind (entry_of_json v) (\<lambda>e. Option.bind (entries_of_json vs) (\<lambda>es. Some (e # es)))"

fun set_entries :: "SimulateEntry list \<Rightarrow> json list \<Rightarrow> SimulateEntry list option" where
  "set_entries cur [] = Some cur"
| "set_entries cur (JNull # vs) = set_entries [] vs"
| "set_entries cur (JArr es # vs) = Option.bind (entries_of_json es) (\<lambda>l. set_entries l vs)"
| "set_entries cur (_ # vs) = None"

fun set_result :: "SimulateResult \<Rightarrow> json list \<Rightarrow> SimulateResult option" where
  "set_result cur [] = Some cur"
| "set_result cur (v # vs) =
     Option.bind (json_members v) (\<lambda>ms.
     Option.bind (set_string (sr_Error cur) (field_values ''error'' ms)) (\<lambda>e.
     Option.bind (set_entries (sr_Results cur) (field_values ''results'' ms)) (\<lambda>l.
       set_result \<lparr>sr_Error = e, sr_Results = l\<rparr> vs)))"

fun set_rpc_error :: "RPCError option \<Rightarrow> json list \<Rightarrow> RPCError option option" where
  "set_rpc_error cur [] = Some cur"
| "set_rpc_error cur (JNull # vs) = set_rpc_error None vs"
| "set_rpc_error cur (JObj ms # vs) =
     (let old = (case cur of None \<Rightarrow> \<lparr>rpc_Code = 0, rpc_Message = []\<rparr> | Some e \<Rightarrow> e)
      in Option.bind (set_int (rpc_Code old) (field_values ''code'' ms)) (\<lambda>c.
         Option.bind (set_string (rpc_Message old) (field_values ''message'' ms)) (\<lambda>m.
           set_rpc_error (Some \<lparr>rpc_Code = c, rpc_Message = m\<rparr>) vs)))"
| "set_rpc_error cur (_ # vs) = None"

definition response_of_json :: "json \<Rightarrow> SimulateResponse option" where
  "response_of_json v =
     Option.bind (json_members v) (\<lambda>ms.
     Option.bind (set_result \<lparr>sr_Error = [], sr_Results = []\<rparr> (field_values ''result'' ms)) (\<lambda>r.
     Option.bind (set_rpc_error None (field_values ''error'' ms)) (\<lambda>e.
       Some \<lparr>sim_Result = r, sim_Error = e\<rparr>)))"

definition simulate_body :: "string \<Rightarrow> json" where
  "simulate_body txXdr =
     JObj [(''jsonrpc'', JStr ''2.0''), (''id'', JNum (show_int 1)),
           (''method'', JStr ''simulateTransaction''),
           (''params'', json_strings [(''transaction'', txXdr)])]"

text \<open>What the node makes of a decoded response.\<close>

definition judge_response :: "SimulateResponse \<Rightarrow> bool result" where
  "judge_response resp =
     (case sim_Error resp of
        Some e \<Rightarrow> Err (''Soroban RPC returned error: '' @ rpc_Message e @
                       '' (code '' @ show_int (rpc_Code e) @ '')'')
      | None \<Rightarrow>
          if sr_Error (sim_Result resp) \<noteq> [] then Ok False
          else if sr_Results (sim_Result resp) = [] then Err ''simulation returned no results''
          else Ok (list_all (\<lambda>res. se_Error res = []) (sr_Results (sim_Result resp))))"

definition simulateSorobanTx :: "'lim node_env \<Rightarrow> string \<Rightarrow> string \<Rightarrow> bool result" where
  "simulateSorobanTx E url txXdr =
     (case ne_Post E url ''application/json'' (json_print (simulate_body txXdr)) of
        Inl e \<Rightarrow> Err (''Soroban RPC call failed: '' @ e)
      | Inr (Inl e) \<Rightarrow> Err e
      | Inr (Inr body) \<Rightarrow>
          (case Option.bind (json_whole body) response_of_json of
             None \<Rightarrow> Err ''failed to parse RPC response: ''
           | Some rpcResp \<Rightarrow> judge_response rpcResp))"

subsection \<open>What the checks establish\<close>

lemma getTxSourceAndOps_eq_Ok [simp]:
  "getTxSourceAndOps env = Ok (src, ops) \<longleftrightarrow>
     env_Type env = EnvelopeTypeTx \<and>
     (\<exists>v1. env_V1 env = Some v1 \<and> src = tx_SourceAccount v1 \<and> ops = tx_Operations v1)"
  by (auto simp: getTxSourceAndOps_def split: EnvelopeType.splits option.splits)

lemma getTxSourceAndOps_no_panic: "\<not> is_panic (getTxSourceAndOps env)"
  by (simp add: getTxSourceAndOps_def split: EnvelopeType.splits option.splits)

lemma contract_address_no_panic: "\<not> is_panic (contract_address X A a)"
  by (simp add: contract_address_def split: ScAddressType.splits option.splits sum.splits)

text \<open>The transaction is one call of a function of a contract, from the source account.\<close>

definition invokes ::
    "ext \<Rightarrow> xdr_api \<Rightarrow> TransactionEnvelope \<Rightarrow> string \<Rightarrow> string \<Rightarrow> string \<Rightarrow> ScVal list \<Rightarrow> bool" where
  "invokes X A env contractID fname source args \<longleftrightarrow>
     (\<exists>v1 op fn ica. env_Type env = EnvelopeTypeTx \<and> env_V1 env = Some v1 \<and>
        muxed_GetAddress A (tx_SourceAccount v1) = Inr source \<and> tx_Operations v1 = [op] \<and>
        op_Body op = InvokeHostFunctionOp fn \<and> hf_Type fn = HostFunctionTypeInvokeContract \<and>
        hf_InvokeContract fn = Some ica \<and>
        contract_address X A (ica_ContractAddress ica) = Ok contractID \<and>
        ica_FunctionName ica = fname \<and> ica_Args ica = args)"

lemma verify_operation_Ok:
  "verify_operation X A op cid f = Ok () \<longleftrightarrow>
     (\<exists>fn ica. op_Body op = InvokeHostFunctionOp fn \<and> hf_Type fn = HostFunctionTypeInvokeContract \<and>
        hf_InvokeContract fn = Some ica \<and>
        contract_address X A (ica_ContractAddress ica) = Ok cid \<and> ica_FunctionName ica = f)"
  by (auto simp: verify_operation_def split: OperationBody.splits option.splits if_splits)

lemma verify_operation_no_panic: "\<not> is_panic (verify_operation X A op cid f)"
  by (auto simp: verify_operation_def is_panic_bind_result contract_address_no_panic
      split: OperationBody.splits option.splits)

lemma verifySorobanTx_Ok:
  "verifySorobanTx X A tx cid f src = Ok () \<longleftrightarrow>
     (\<exists>env args. SafeUnmarshalBase64 A tx = Inr env \<and> invokes X A env cid f src args)"
proof (cases "SafeUnmarshalBase64 A tx")
  case (Inr env)
  have one: "length ops = Suc 0 \<longleftrightarrow> (\<exists>op. ops = [op])" for ops :: "Operation list"
    by (simp add: length_Suc_conv)
  have "verifySorobanTx X A tx cid f src = Ok () \<longleftrightarrow>
      (\<exists>v1 op. env_Type env = EnvelopeTypeTx \<and> env_V1 env = Some v1 \<and>
         muxed_GetAddress A (tx_SourceAccount v1) = Inr src \<and> tx_Operations v1 = [op] \<and>
         verify_operation X A op cid f = Ok ())"
  proof (cases "getTxSourceAndOps env")
    case (Ok p)
    then obtain v1 where v1: "env_Type env = EnvelopeTypeTx" "env_V1 env = Some v1"
        "p = (tx_SourceAccount v1, tx_Operations v1)"
      by (cases p) auto
    then show ?thesis
      using Inr Ok by (cases "muxed_GetAddress A (tx_SourceAccount v1)") (auto simp: verifySorobanTx_def one)
  qed (use Inr in \<open>auto simp: verifySorobanTx_def getTxSourceAndOps_def\<close>)
  then show ?thesis using Inr by (simp add: invokes_def verify_operation_Ok) blast
qed (simp add: verifySorobanTx_def)

lemma verifySorobanTx_no_panic: "\<not> is_panic (verifySorobanTx X A tx cid f src)"
  by (auto simp: verifySorobanTx_def is_panic_bind_result getTxSourceAndOps_no_panic verify_operation_no_panic
      split: sum.splits)

lemma simulateSorobanTx_no_panic: "\<not> is_panic (simulateSorobanTx E url tx)"
  by (auto simp: simulateSorobanTx_def judge_response_def split: sum.splits option.splits)

text \<open>C13: a transaction passes the node's check exactly when it decodes to a version 1 transaction from the
  claimed account with one operation, a call of the expected function of the expected contract, and
  the check never panics, whatever the submitted text is.\<close>

theorem verifySorobanTx_iff:
  "(verifySorobanTx X A tx cid f src = Ok () \<longleftrightarrow>
      (\<exists>env args. SafeUnmarshalBase64 A tx = Inr env \<and> invokes X A env cid f src args)) \<and>
   \<not> is_panic (verifySorobanTx X A tx cid f src)"
  using verifySorobanTx_Ok verifySorobanTx_no_panic by blast

text \<open>C14: the simulation grants access exactly when the RPC answer decodes, carries no RPC error and no
  simulation error, and has at least one result and none with an error; every other answer is a
  denial or an error, and no answer makes the node panic.\<close>

theorem simulateSorobanTx_grants:
  "(simulateSorobanTx E url tx = Ok True \<longleftrightarrow>
      (\<exists>body resp. ne_Post E url ''application/json'' (json_print (simulate_body tx)) = Inr (Inr body) \<and>
         Option.bind (json_whole body) response_of_json = Some resp \<and> sim_Error resp = None \<and>
         sr_Error (sim_Result resp) = [] \<and> sr_Results (sim_Result resp) \<noteq> [] \<and>
         list_all (\<lambda>e. se_Error e = []) (sr_Results (sim_Result resp)))) \<and>
   \<not> is_panic (simulateSorobanTx E url tx)"
  using simulateSorobanTx_no_panic [of E url tx]
  by (auto simp: simulateSorobanTx_def judge_response_def split: sum.splits option.splits if_splits)

subsection \<open>A concrete transaction\<close>

definition approve_env :: "string \<Rightarrow> bytes \<Rightarrow> ScVal list \<Rightarrow> TransactionEnvelope" where
  "approve_env source cid args =
     \<lparr>env_Type = EnvelopeTypeTx, env_V1 = Some
        \<lparr>tx_SourceAccount = MuxedEd25519 (bytes_of_string source),
         tx_Operations = [\<lparr>op_SourceAccount = None, op_Body = InvokeHostFunctionOp
           \<lparr>hf_Type = HostFunctionTypeInvokeContract, hf_InvokeContract = Some
              \<lparr>ica_ContractAddress = \<lparr>sca_Type = ScAddressTypeContract, sca_AccountId = None,
                                      sca_ContractId = Some cid\<rparr>,
               ica_FunctionName = ''approve'', ica_Args = args\<rparr>\<rparr>\<rparr>]\<rparr>\<rparr>"

lemma invokes_approve_env:
  "invokes ext_example (xdr_example e0) (approve_env src cid args) (string_of_bytes cid) ''approve'' src args"
  by (simp add: invokes_def approve_env_def xdr_example_def ext_example_def contract_address_def)

end
