(* ===== verification/Node_Handlers.thy ===== *)
theory Node_Handlers
  imports Node_Keys Node_Crypto Node_Middleware Node_Soroban
begin

text \<open>
  \<open>node/handlers.go\<close> and \<open>node/rotate_handler.go\<close>: every HTTP handler of the node, with its
  request type from \<open>node/main.go\<close>. A failed write to the client is not modelled, so the
  branches that log an encoding error do not occur.
\<close>

subsection \<open>Requests and responses\<close>

record StoreRequest =
  sq_ObjectID :: string
  sq_ContractID :: string
  sq_EphemeralPubKey :: string
  sq_Ciphertext :: string
  sq_Nonce :: string

definition StoreRequest_of_json :: "json \<Rightarrow> StoreRequest option" where
  "StoreRequest_of_json v =
     Option.bind (json_members v) (\<lambda>ms.
     Option.bind (string_field ''object_id'' ms) (\<lambda>ob.
     Option.bind (string_field ''contract_id'' ms) (\<lambda>c.
     Option.bind (string_field ''ephemeral_pubkey'' ms) (\<lambda>e.
     Option.bind (string_field ''ciphertext'' ms) (\<lambda>ct.
     Option.bind (string_field ''nonce'' ms) (\<lambda>n.
       Some \<lparr>sq_ObjectID = ob, sq_ContractID = c, sq_EphemeralPubKey = e,
             sq_Ciphertext = ct, sq_Nonce = n\<rparr>))))))"

record RetrieveRequest =
  rq_ObjectID :: string
  rq_ContractID :: string
  rq_CallerAddress :: string
  rq_Signature :: string
  rq_Message :: string
  rq_TxXDR :: string

definition RetrieveRequest_of_json :: "json \<Rightarrow> RetrieveRequest option" where
  "RetrieveRequest_of_json v =
     Option.bind (json_members v) (\<lambda>ms.
     Option.bind (string_field ''object_id'' ms) (\<lambda>ob.
     Option.bind (string_field ''contract_id'' ms) (\<lambda>c.
     Option.bind (string_field ''caller_address'' ms) (\<lambda>a.
     Option.bind (string_field ''signature'' ms) (\<lambda>sg.
     Option.bind (string_field ''message'' ms) (\<lambda>m.
     Option.bind (string_field ''tx_xdr'' ms) (\<lambda>t.
       Some \<lparr>rq_ObjectID = ob, rq_ContractID = c, rq_CallerAddress = a,
             rq_Signature = sg, rq_Message = m, rq_TxXDR = t\<rparr>)))))))"

definition RetrieveResponse_json :: "string \<Rightarrow> json" where
  "RetrieveResponse_json share = json_strings [(''decrypted_share'', share)]"

text \<open>\<open>fmt.Sprintf("%s_%s", contract, object)\<close>.\<close>

definition share_key :: "string \<Rightarrow> string \<Rightarrow> string" where
  "share_key contractID objectID = contractID @ ''_'' @ objectID"

definition slice_bytes :: "slice \<Rightarrow> bytes" where
  "slice_bytes sl = (case sl of None \<Rightarrow> [] | Some b \<Rightarrow> b)"

definition logStoreOutcome ::
    "'lim node_env \<Rightarrow> string \<Rightarrow> string \<Rightarrow> string \<Rightarrow> string \<Rightarrow> ('db, 'lim) node_state \<Rightarrow> ('db, 'lim) node_state" where
  "logStoreOutcome E objectID contractID remoteAddr result =
     log_to_audit E InfoLevel ''store_audit''
       [(''object_id'', objectID), (''contract_id'', contractID), (''remote'', remoteAddr), (''outcome'', result)]"

definition logRetrieveOutcome ::
    "'lim node_env \<Rightarrow> string \<Rightarrow> string \<Rightarrow> string \<Rightarrow> string \<Rightarrow> ('db, 'lim) node_state \<Rightarrow> ('db, 'lim) node_state" where
  "logRetrieveOutcome E caller objectID contractID result =
     log_to_audit E InfoLevel ''retrieve_audit''
       [(''caller_address'', caller), (''object_id'', objectID), (''contract_id'', contractID), (''outcome'', result)]"

subsection \<open>Probes and status\<close>

definition handleHealth :: "'lim node_env \<Rightarrow> ('db, 'lim) node_handler" where
  "handleHealth E w r s =
     (let dnsStatus = (case ne_LookupHost E ''soroban-testnet.stellar.org'' of
                         Some err \<Rightarrow> ''failed: '' @ err | None \<Rightarrow> ''ok'')
      in Served (json_Encode (json_strings
           [(''dns'', dnsStatus), (''started'', ne_RFC3339 E (nodeStartTime s)),
            (''status'', ''ok''), (''uptime'', ne_Since E (nodeStartTime s))])
           (header_set ''Content-Type'' ''application/json'' w)) s)"

definition handleReady :: "('db, 'lim) node_handler" where
  "handleReady w r s =
     (if db s = None then Served (http_Error ''not ready: database not initialised'' 503 w) s
      else Served (json_Encode (json_strings [(''status'', ''ready'')])
             (header_set ''Content-Type'' ''application/json'' w)) s)"

definition handleStatus :: "'lim node_env \<Rightarrow> ('db, 'lim) node_handler" where
  "handleStatus E w r s =
     (case countShares (db s) of
        Panic p \<Rightarrow> Panicked p w s
      | Err e \<Rightarrow> Served (http_Error (''failed to count shares: '' @ e) 500 w) s
      | Ok count \<Rightarrow>
          Served (json_Encode (JObj
            [(''public_key'', JStr (hex_EncodeToString (nodePublicKey s))),
             (''share_count'', JNum (show_nat count)),
             (''uptime'', JStr (ne_Since E (nodeStartTime s))),
             (''version'', JStr (nodeVersion s))])
            (header_set ''Content-Type'' ''application/json'' w)) s)"

definition handleGetPublicKey :: "('db, 'lim) node_handler" where
  "handleGetPublicKey w r s =
     (if r_Method r \<noteq> ''GET'' then Served (http_Error ''Method not allowed'' 405 w) s
      else Served (json_Encode (json_strings [(''public_key'', hex_EncodeToString (nodePublicKey s))])
             (header_set ''Content-Type'' ''application/json'' w)) s)"

subsection \<open>Storing a share\<close>

text \<open>
  The part of \<open>handleStoreShare\<close> after the request has been decoded, in its two accesses to the
  store: the look-up of the key (an error of \<open>Load\<close> counts as absence) and the save.
\<close>

definition share_exists :: "http_request \<Rightarrow> string \<Rightarrow> 'db db_ptr \<Rightarrow> bool result" where
  "share_exists r key d =
     (if header_get r ''X-Overwrite'' \<noteq> ''true'' then
        (case BoltStore_Load d key of Ok (_, exists) \<Rightarrow> Ok exists | Err _ \<Rightarrow> Ok False | Panic p \<Rightarrow> Panic p)
      else Ok False)"

definition save_share :: "'lim node_env \<Rightarrow> http_request \<Rightarrow> StoreRequest \<Rightarrow> StoredShareDB \<Rightarrow> http_writer \<Rightarrow>
    ('db, 'lim) node_state \<Rightarrow> ('db, 'lim) node_state outcome" where
  "save_share E r req share w s =
     (let key = share_key (sq_ContractID req) (sq_ObjectID req)
      in case BoltStore_Save (db s) key share of
           Panic p \<Rightarrow> Panicked p w s
         | Err e \<Rightarrow>
             Served (http_Error ''Internal server error'' 500 w)
               (log_to_logger E ErrorLevel ''store_failed'' [(''error'', e), (''key'', key)] s)
         | Ok db' \<Rightarrow>
             Served (json_Encode (json_strings [(''status'', ''stored'')]) (write_header 200 w))
               (logStoreOutcome E (sq_ObjectID req) (sq_ContractID req) (r_RemoteAddr r) ''stored''
                  (s\<lparr>db := db'\<rparr>)))"

definition put_share :: "'lim node_env \<Rightarrow> http_request \<Rightarrow> StoreRequest \<Rightarrow> StoredShareDB \<Rightarrow> http_writer \<Rightarrow>
    ('db, 'lim) node_state \<Rightarrow> ('db, 'lim) node_state outcome" where
  "put_share E r req share w s =
     (case share_exists r (share_key (sq_ContractID req) (sq_ObjectID req)) (db s) of
        Panic p \<Rightarrow> Panicked p w s
      | Err e \<Rightarrow> Served w s
      | Ok True \<Rightarrow>
          Served (http_Error ''conflict: share already exists for this object (use X-Overwrite: true to replace)'' 409 w) s
      | Ok False \<Rightarrow> save_share E r req share w s)"

definition handleStoreShare :: "'lim node_env \<Rightarrow> ('db, 'lim) node_handler" where
  "handleStoreShare E w r s =
     (if r_Method r \<noteq> ''POST'' then Served (http_Error ''Method not allowed'' 405 w) s
      else case Option.bind (json_Decode r) StoreRequest_of_json of
        None \<Rightarrow> Served (http_Error ''Invalid JSON payload'' 400 w) s
      | Some req \<Rightarrow>
          if sq_ObjectID req = [] \<or> sq_ContractID req = [] \<or> sq_EphemeralPubKey req = [] \<or>
             sq_Ciphertext req = [] \<or> sq_Nonce req = [] then
            Served (http_Error ''Missing required fields'' 400 w) s
          else case hex_DecodeString (sq_EphemeralPubKey req) of
            Inl _ \<Rightarrow> Served (http_Error ''Invalid ephemeral public key hex'' 400 w) s
          | Inr ephemBytes \<Rightarrow> (case hex_DecodeString (sq_Ciphertext req) of
            Inl _ \<Rightarrow> Served (http_Error ''Invalid ciphertext hex'' 400 w) s
          | Inr cipherBytes \<Rightarrow> (case hex_DecodeString (sq_Nonce req) of
            Inl _ \<Rightarrow> Served (http_Error ''Invalid nonce hex'' 400 w) s
          | Inr nonceBytes \<Rightarrow>
              put_share E r req \<lparr>sh_EphemeralPubKey = Some ephemBytes, sh_Ciphertext = Some cipherBytes,
                                 sh_Nonce = Some nonceBytes\<rparr> w s)))"

subsection \<open>Retrieving a share\<close>

text \<open>
  \<open>handleRetrieveShare\<close> in three parts: deciding on the request, up to the verdict of the RPC service;
  loading the share; decrypting it with the private key of the node and answering. A part that answers
  itself gives its outcome on the left.
\<close>

definition retrieve_guard :: "'lim node_env \<Rightarrow> http_writer \<Rightarrow> http_request \<Rightarrow> ('db, 'lim) node_state \<Rightarrow>
    ('db, 'lim) node_state outcome + RetrieveRequest \<times> ('db, 'lim) node_state" where
  "retrieve_guard E w r s =
     (if r_Method r \<noteq> ''POST'' then Inl (Served (http_Error ''Method not allowed'' 405 w) s)
      else case Option.bind (json_Decode r) RetrieveRequest_of_json of
        None \<Rightarrow> Inl (Served (http_Error ''Invalid JSON payload'' 400 w) s)
      | Some req \<Rightarrow>
          if rq_ObjectID req = [] \<or> rq_ContractID req = [] \<or> rq_CallerAddress req = [] then
            Inl (Served (http_Error ''Missing required fields'' 400 w) s)
          else case checkObjectRateLimit E (rq_ObjectID req) s of (allowed, s1) \<Rightarrow>
          if \<not> allowed then
            Inl (Served (http_Error ''Too Many Requests'' 429 (header_set ''Retry-After'' ''1'' w)) s1)
          else case hex_DecodeString (rq_Message req) of
            Inl _ \<Rightarrow> Inl (Served (http_Error ''Invalid message hex'' 400 w) s1)
          | Inr msgBytes \<Rightarrow> (case hex_DecodeString (rq_Signature req) of
            Inl _ \<Rightarrow> Inl (Served (http_Error ''Invalid signature hex'' 400 w) s1)
          | Inr sigBytes \<Rightarrow>
              if VerifyStellarSignature (ne_ext E) (rq_CallerAddress req) msgBytes sigBytes \<noteq> Ok True then
                Inl (Served (http_Error ''Invalid Stellar signature'' 401 w) s1)
              else case verifySorobanTx (ne_ext E) (ne_xdr E) (rq_TxXDR req) (rq_ContractID req) ''approve''
                          (rq_CallerAddress req) of
                Panic p \<Rightarrow> Inl (Panicked p w s1)
              | Err e \<Rightarrow> Inl (Served (http_Error (''Transaction verification failed: '' @ e) 400 w) s1)
              | Ok _ \<Rightarrow> (case simulateSorobanTx E (sorobanRPCURL s1) (rq_TxXDR req) of
                Panic p \<Rightarrow> Inl (Panicked p w s1)
              | Err e \<Rightarrow> Inl (Served (http_Error (''Soroban simulation error: '' @ e) 500 w) s1)
              | Ok False \<Rightarrow>
                  Inl (Served (http_Error ''Access Denied: on-chain approve() rejected'' 403 w)
                    (log_to_audit E WarnLevel ''access_denied''
                       [(''caller'', rq_CallerAddress req), (''object_id'', rq_ObjectID req), (''outcome'', ''denied'')] s1))
              | Ok True \<Rightarrow> Inr (req, s1))))"

definition retrieve_load :: "RetrieveRequest \<Rightarrow> http_writer \<Rightarrow> ('db, 'lim) node_state \<Rightarrow>
    ('db, 'lim) node_state outcome + StoredShareDB" where
  "retrieve_load req w s =
     (case BoltStore_Load (db s) (share_key (rq_ContractID req) (rq_ObjectID req)) of
        Panic p \<Rightarrow> Inl (Panicked p w s)
      | Err e \<Rightarrow> Inl (Served (http_Error ''Share not found'' 404 w) s)
      | Ok (stored, False) \<Rightarrow> Inl (Served (http_Error ''Share not found'' 404 w) s)
      | Ok (stored, True) \<Rightarrow> Inr stored)"

definition release_stored :: "'lim node_env \<Rightarrow> RetrieveRequest \<Rightarrow> StoredShareDB \<Rightarrow> http_writer \<Rightarrow>
    ('db, 'lim) node_state \<Rightarrow> ('db, 'lim) node_state outcome" where
  "release_stored E req stored w s =
     (case DecryptShare (ne_ext E) (nodePrivateKey s) (slice_bytes (sh_EphemeralPubKey stored))
             (slice_bytes (sh_Ciphertext stored)) (slice_bytes (sh_Nonce stored)) of
        Panic p \<Rightarrow> Panicked p w s
      | Err e \<Rightarrow> Served (http_Error ''Decryption failed'' 500 w) s
      | Ok decrypted \<Rightarrow>
          Served (json_Encode (RetrieveResponse_json (hex_EncodeToString decrypted))
                   (header_set ''Content-Type'' ''application/json'' w))
            (logRetrieveOutcome E (rq_CallerAddress req) (rq_ObjectID req) (rq_ContractID req) ''granted'' s))"

definition release_share :: "'lim node_env \<Rightarrow> RetrieveRequest \<Rightarrow> http_writer \<Rightarrow> ('db, 'lim) node_state \<Rightarrow>
    ('db, 'lim) node_state outcome" where
  "release_share E req w s =
     (case retrieve_load req w s of Inl out \<Rightarrow> out | Inr stored \<Rightarrow> release_stored E req stored w s)"

definition handleRetrieveShare :: "'lim node_env \<Rightarrow> ('db, 'lim) node_handler" where
  "handleRetrieveShare E w r s =
     (case retrieve_guard E w r s of Inl out \<Rightarrow> out | Inr (req, s1) \<Rightarrow> release_share E req w s1)"

lemmas release_defs = release_share_def retrieve_load_def release_stored_def

lemmas retrieve_defs = handleRetrieveShare_def retrieve_guard_def

text \<open>\<open>fixedShareCount\<close>: -1 when counting fails.\<close>

definition fixedShareCount :: "'lim node_env \<Rightarrow> ('db, 'lim) node_state \<Rightarrow> (int \<times> ('db, 'lim) node_state) result" where
  "fixedShareCount E s =
     (case countShares (db s) of
        Ok n \<Rightarrow> Ok (int n, s)
      | Err e \<Rightarrow> Ok (-1, log_to_logger E ErrorLevel ''share_count_failed'' [(''error'', e)] s)
      | Panic p \<Rightarrow> Panic p)"

subsection \<open>Administration\<close>

definition handleRotateKey :: "'lim node_env \<Rightarrow> ('db, 'lim) node_handler" where
  "handleRotateKey E w r s =
     (if r_Method r \<noteq> ''POST'' then Served (http_Error ''Method not allowed'' 405 w) s
      else if globalKeyManager s = None then Served (http_Error ''Key manager not initialised'' 500 w) s
      else case Rotate E s of
        (Panic p, s1) \<Rightarrow> Panicked p w s1
      | (Err e, s1) \<Rightarrow>
          Served (http_Error (''Key rotation failed: '' @ e) 500 w)
            (log_to_logger E ErrorLevel ''key_rotation_failed'' [(''error'', e)] s1)
      | (Ok _, s1) \<Rightarrow>
          (case globalKeyManager s1 of
             None \<Rightarrow> Panicked nil_deref (header_set ''Content-Type'' ''application/json'' w) s1
           | Some km \<Rightarrow>
               Served (json_Encode (JObj
                 [(''new_version'', JNum (show_nat (unat (CurrentVersion km)))), (''status'', JStr ''rotated'')])
                 (header_set ''Content-Type'' ''application/json'' w)) s1))"

definition PurgeRequest_of_json :: "json \<Rightarrow> (string \<times> string) option" where
  "PurgeRequest_of_json v =
     Option.bind (json_members v) (\<lambda>ms.
     Option.bind (string_field ''object_id'' ms) (\<lambda>ob.
     Option.bind (string_field ''contract_id'' ms) (\<lambda>c. Some (ob, c))))"

definition handlePurgeShares :: "'lim node_env \<Rightarrow> ('db, 'lim) node_handler" where
  "handlePurgeShares E w r s =
     (if r_Method r \<noteq> ''DELETE'' then Served (http_Error ''Method not allowed'' 405 w) s
      else case Option.bind (json_Decode r) PurgeRequest_of_json of
        None \<Rightarrow> Served (http_Error ''Invalid JSON'' 400 w) s
      | Some (objectID, contractID) \<Rightarrow>
          let key = contractID @ ''_'' @ objectID
          in case BoltStore_Delete (db s) key of
               Panic p \<Rightarrow> Panicked p w s
             | Err e \<Rightarrow> Served (http_Error (''Failed to delete share: '' @ e) 500 w) s
             | Ok db' \<Rightarrow>
                 Served (json_Encode (json_strings [(''status'', ''purged'')]) (write_header 200 w))
                   (log_to_logger E InfoLevel ''share_purged'' [(''key'', key)]
                      (s\<lparr>db := db', sharesInStore := sharesInStore s - 1\<rparr>)))"

definition handleSync :: "('db, 'lim) node_handler" where
  "handleSync w r s =
     (if header_get r ''X-Forwarded-By'' \<noteq> [] then Served (http_Error ''Sync loop detected'' 508 w) s
      else Served (json_Encode (json_strings [(''status'', ''sync_ok'')]) (write_header 200 w)) s)"

subsection \<open>What reaches the store\<close>

text \<open>A store request that passes the checks of the handler, with the share it carries.\<close>

definition store_accepts :: "http_request \<Rightarrow> StoreRequest \<Rightarrow> StoredShareDB \<Rightarrow> bool" where
  "store_accepts r req share \<longleftrightarrow>
     r_Method r = ''POST'' \<and> Option.bind (json_Decode r) StoreRequest_of_json = Some req \<and>
     sq_ObjectID req \<noteq> [] \<and> sq_ContractID req \<noteq> [] \<and> sq_EphemeralPubKey req \<noteq> [] \<and>
     sq_Ciphertext req \<noteq> [] \<and> sq_Nonce req \<noteq> [] \<and>
     (\<exists>e c n. hex_DecodeString (sq_EphemeralPubKey req) = Inr e \<and> hex_DecodeString (sq_Ciphertext req) = Inr c \<and>
        hex_DecodeString (sq_Nonce req) = Inr n \<and>
        share = \<lparr>sh_EphemeralPubKey = Some e, sh_Ciphertext = Some c, sh_Nonce = Some n\<rparr>)"

abbreviation store_key :: "StoreRequest \<Rightarrow> string" where
  "store_key req \<equiv> share_key (sq_ContractID req) (sq_ObjectID req)"

lemma handleStoreShare_accepts:
  "store_accepts r req share \<Longrightarrow> handleStoreShare E w r s = put_share E r req share w s"
  by (auto simp: store_accepts_def handleStoreShare_def)

lemma handleStoreShare_rejects:
  assumes "\<nexists>req share. store_accepts r req share"
  shows "\<exists>w'. handleStoreShare E w r s = Served w' s \<and>
    (w_code w = None \<longrightarrow> w_code w' \<in> {Some 400, Some 405})"
proof -
  have acc: False if "r_Method r = ''POST''"
      "Option.bind (json_Decode r) StoreRequest_of_json = Some req"
      "sq_ObjectID req \<noteq> []" "sq_ContractID req \<noteq> []" "sq_EphemeralPubKey req \<noteq> []"
      "sq_Ciphertext req \<noteq> []" "sq_Nonce req \<noteq> []"
      "hex_DecodeString (sq_EphemeralPubKey req) = Inr e" "hex_DecodeString (sq_Ciphertext req) = Inr c"
      "hex_DecodeString (sq_Nonce req) = Inr n" for req e c n
    using that assms by (auto simp: store_accepts_def)
  show ?thesis
  proof (cases "r_Method r = ''POST''")
    case post: True
    show ?thesis
    proof (cases "Option.bind (json_Decode r) StoreRequest_of_json")
      case (Some req)
      then show ?thesis
        using acc [OF post Some] post
        by (auto simp: handleStoreShare_def split: sum.splits)
    qed (use post in \<open>auto simp: handleStoreShare_def\<close>)
  qed (auto simp: handleStoreShare_def)
qed

lemma saveShare_no_panic: "db_good d \<Longrightarrow> \<not> is_panic (saveShare d k sh)"
  by (auto simp: db_good_def saveShare_def db_Update_def of_sum_def is_panic_bind_result Let_def
      split: option.splits sum.splits)

lemma store_accepts_ciphertext: "store_accepts r req share \<Longrightarrow> sh_Ciphertext share \<noteq> None"
  by (auto simp: store_accepts_def)

text \<open>How a store request on an open store ends.\<close>

lemma put_share_cases:
  assumes "db_good (db s)" and "store_accepts r req share"
  obtains (conflict) "header_get r ''X-Overwrite'' \<noteq> ''true''" and "BoltStore.content (db s) (store_key req) \<noteq> None"
      and "put_share E r req share w s =
        Served (http_Error ''conflict: share already exists for this object (use X-Overwrite: true to replace)'' 409 w) s"
  | (stored) db' where "header_get r ''X-Overwrite'' = ''true'' \<or> BoltStore.content (db s) (store_key req) = None"
      and "saveShare (db s) (store_key req) share = Ok db'"
      and "put_share E r req share w s =
        Served (json_Encode (json_strings [(''status'', ''stored'')]) (write_header 200 w))
          (logStoreOutcome E (sq_ObjectID req) (sq_ContractID req) (r_RemoteAddr r) ''stored'' (s\<lparr>db := db'\<rparr>))"
  | (failed) e where "header_get r ''X-Overwrite'' = ''true'' \<or> BoltStore.content (db s) (store_key req) = None"
      and "saveShare (db s) (store_key req) share = Err e"
      and "put_share E r req share w s =
        Served (http_Error ''Internal server error'' 500 w)
          (log_to_logger E ErrorLevel ''store_failed'' [(''error'', e), (''key'', store_key req)] s)"
proof -
  have load: "\<not> is_panic (loadShare (db s) (store_key req))"
    and save: "\<not> is_panic (saveShare (db s) (store_key req) share)"
    using assms(1) by (rule loadShare_no_panic, rule saveShare_no_panic)
  show thesis
  proof (cases "header_get r ''X-Overwrite'' \<noteq> ''true'' \<and> BoltStore.content (db s) (store_key req) \<noteq> None")
    case True
    then show thesis
      by (intro conflict) (auto simp: BoltStore.content_eq_Some put_share_def share_exists_def save_share_def Let_def)
  next
    case False
    have absent: "(case loadShare (db s) (store_key req) of
        Ok (_, exists) \<Rightarrow> Ok exists | Err _ \<Rightarrow> Ok False | Panic p \<Rightarrow> Panic p) = Ok False"
      if "BoltStore.content (db s) (store_key req) = None"
      using that load by (auto simp: BoltStore.content_def split: result.splits bool.splits)
    show thesis
      using save
    proof (cases rule: not_panic_cases)
      case (Ok d)
      then show thesis using False absent by (intro stored [of d]) (auto simp: put_share_def share_exists_def save_share_def Let_def)
    next
      case (Err e)
      then show thesis using False absent by (intro failed [of e]) (auto simp: put_share_def share_exists_def save_share_def Let_def)
    qed
  qed
qed

subsection \<open>When a share is released\<close>

text \<open>The checks a retrieval request has to pass before the node touches the share.\<close>

definition retrieve_authorized :: "'lim node_env \<Rightarrow> http_request \<Rightarrow> ('db, 'lim) node_state \<Rightarrow> RetrieveRequest \<Rightarrow> bool" where
  "retrieve_authorized E r s req \<longleftrightarrow>
     r_Method r = ''POST'' \<and> Option.bind (json_Decode r) RetrieveRequest_of_json = Some req \<and>
     rq_ObjectID req \<noteq> [] \<and> rq_ContractID req \<noteq> [] \<and> rq_CallerAddress req \<noteq> [] \<and>
     fst (checkObjectRateLimit E (rq_ObjectID req) s) \<and>
     (\<exists>m sg. hex_DecodeString (rq_Message req) = Inr m \<and> hex_DecodeString (rq_Signature req) = Inr sg \<and>
        VerifyStellarSignature (ne_ext E) (rq_CallerAddress req) m sg = Ok True) \<and>
     verifySorobanTx (ne_ext E) (ne_xdr E) (rq_TxXDR req) (rq_ContractID req) ''approve'' (rq_CallerAddress req) = Ok () \<and>
     simulateSorobanTx E (sorobanRPCURL s) (rq_TxXDR req) = Ok True"

abbreviation retrieve_key :: "RetrieveRequest \<Rightarrow> string" where
  "retrieve_key req \<equiv> share_key (rq_ContractID req) (rq_ObjectID req)"

lemma checkObjectRateLimit_fields [simp]:
  "db (snd (checkObjectRateLimit E ob s)) = db s"
  "nodePrivateKey (snd (checkObjectRateLimit E ob s)) = nodePrivateKey s"
  "nodePublicKey (snd (checkObjectRateLimit E ob s)) = nodePublicKey s"
  "globalKeyManager (snd (checkObjectRateLimit E ob s)) = globalKeyManager s"
  "globalIPLimiter (snd (checkObjectRateLimit E ob s)) = globalIPLimiter s"
  "sorobanRPCURL (snd (checkObjectRateLimit E ob s)) = sorobanRPCURL s"
  "audit (snd (checkObjectRateLimit E ob s)) = audit s"
  "log_on (snd (checkObjectRateLimit E ob s)) = log_on s"
  "log_global (snd (checkObjectRateLimit E ob s)) = log_global s"
  by (simp_all add: checkObjectRateLimit_def case_prod_beta)

lemma handleRetrieveShare_authorized:
  "retrieve_authorized E r s req \<Longrightarrow>
   handleRetrieveShare E w r s = release_share E req w (snd (checkObjectRateLimit E (rq_ObjectID req) s))"
  by (auto simp: retrieve_authorized_def retrieve_defs case_prod_beta)

text \<open>An outcome that answers with an error and changes neither the store nor the keys.\<close>

primrec refused :: "http_writer \<Rightarrow> ('db, 'lim) node_state \<Rightarrow> ('db, 'lim) node_state outcome \<Rightarrow> bool" where
  "refused w s (Served w' s') \<longleftrightarrow>
     (w_code w = None \<longrightarrow> w_code w' \<in> {Some 400, Some 401, Some 403, Some 405, Some 429, Some 500}) \<and>
     db s' = db s \<and> nodePrivateKey s' = nodePrivateKey s \<and> nodePublicKey s' = nodePublicKey s \<and>
     globalKeyManager s' = globalKeyManager s \<and> globalIPLimiter s' = globalIPLimiter s"
| "refused w s (Panicked p w' s') \<longleftrightarrow> False"

lemma handleRetrieveShare_unauthorized:
  assumes "\<nexists>req. retrieve_authorized E r s req"
  shows "refused w s (handleRetrieveShare E w r s)"
proof (cases "r_Method r = ''POST''")
  case post: True
  show ?thesis
  proof (cases "Option.bind (json_Decode r) RetrieveRequest_of_json")
    case (Some req)
    have auth: "\<not> retrieve_authorized E r s req" using assms by blast
    have ver: "verifySorobanTx (ne_ext E) (ne_xdr E) (rq_TxXDR req) (rq_ContractID req) ''approve''
        (rq_CallerAddress req) \<noteq> Panic p" for p
      using verifySorobanTx_no_panic is_panic_iff by blast
    have sim: "simulateSorobanTx E (sorobanRPCURL s) (rq_TxXDR req) \<noteq> Panic p" for p
      using simulateSorobanTx_no_panic is_panic_iff by blast
    show ?thesis
      using auth post Some ver sim
      by (auto simp: retrieve_defs retrieve_authorized_def case_prod_beta
          split: sum.splits result.splits bool.splits)
  next
    case None
    then show ?thesis using post by (auto simp: retrieve_defs)
  qed
next
  case False
  then show ?thesis by (auto simp: retrieve_defs)
qed

lemma refused_not_200: "refused new_writer s out \<Longrightarrow> status_of out \<noteq> Some 200"
  by (cases out) (auto simp: status_of_def)

lemma release_share_200:
  "status_of (release_share E req new_writer s) = Some 200 \<longleftrightarrow>
     (\<exists>stored pt. loadShare (db s) (retrieve_key req) = Ok (stored, True) \<and>
        DecryptShare (ne_ext E) (nodePrivateKey s) (slice_bytes (sh_EphemeralPubKey stored))
          (slice_bytes (sh_Ciphertext stored)) (slice_bytes (sh_Nonce stored)) = Ok pt)"
  by (auto simp: release_defs status_of_def json_Encode_code split: result.splits bool.splits prod.splits)

text \<open>C3: the node answers a retrieval with 200 exactly when the request is a well-formed POST within the
  object's quota, carries a valid signature of the caller, submits a transaction that calls approve
  of the named contract from the caller's account and that the RPC service simulates without error,
  and the share is present and decrypts under the node's key.\<close>

theorem retrieve_releases_iff:
  "status_of (handleRetrieveShare E new_writer r s) = Some 200 \<longleftrightarrow>
     (\<exists>req stored pt. retrieve_authorized E r s req \<and>
        loadShare (db s) (share_key (rq_ContractID req) (rq_ObjectID req)) = Ok (stored, True) \<and>
        DecryptShare (ne_ext E) (nodePrivateKey s) (slice_bytes (sh_EphemeralPubKey stored))
          (slice_bytes (sh_Ciphertext stored)) (slice_bytes (sh_Nonce stored)) = Ok pt)"
proof (cases "\<exists>req. retrieve_authorized E r s req")
  case True
  then obtain req where req: "retrieve_authorized E r s req" by blast
  then have uniq: "retrieve_authorized E r s req' \<longleftrightarrow> req' = req" for req'
    by (auto simp: retrieve_authorized_def)
  show ?thesis
    by (simp add: uniq handleRetrieveShare_authorized [OF req] release_share_200)
next
  case False
  then show ?thesis
    using refused_not_200 [OF handleRetrieveShare_unauthorized [of E r s new_writer]] by blast
qed

text \<open>A retrieval changes neither the stored shares nor the keys.\<close>

lemma handleRetrieveShare_keeps:
  "let s' = outcome_state (handleRetrieveShare E w r s)
   in db s' = db s \<and> nodePrivateKey s' = nodePrivateKey s \<and> nodePublicKey s' = nodePublicKey s \<and>
      globalKeyManager s' = globalKeyManager s \<and> globalIPLimiter s' = globalIPLimiter s"
proof (cases "\<exists>req. retrieve_authorized E r s req")
  case True
  then obtain req where req: "retrieve_authorized E r s req" by blast
  show ?thesis
    by (auto simp: handleRetrieveShare_authorized [OF req] release_defs Let_def logRetrieveOutcome_def
        split: result.splits bool.splits prod.splits)
next
  case False
  then show ?thesis
    using handleRetrieveShare_unauthorized [of E r s w]
    by (cases "handleRetrieveShare E w r s") (auto simp: Let_def)
qed

subsection \<open>The other outcomes of a store request\<close>

lemma handleStoreShare_outcome:
  assumes "db_good (db s)" and "store_accepts r req share"
    and out_def: "out = handleStoreShare E new_writer r s"
  shows "if header_get r ''X-Overwrite'' \<noteq> ''true'' \<and> BoltStore.content (db s) (store_key req) \<noteq> None
    then status_of out = Some 409 \<and> outcome_state out = s
    else status_of out = Some 200 \<and> db_good (db (outcome_state out)) \<and>
           BoltStore.content (db (outcome_state out)) = (BoltStore.content (db s))(store_key req \<mapsto> share) \<or>
         status_of out = Some 500 \<and> db (outcome_state out) = db s"
proof (rule put_share_cases [OF assms(1,2), of E new_writer], goal_cases conflict stored failed)
  case conflict
  then show ?thesis by (simp add: out_def handleStoreShare_accepts [OF assms(2)] status_of_def)
next
  case (stored db')
  then show ?thesis
    using BoltStore.content_Save [OF assms(1) stored(2) store_accepts_ciphertext [OF assms(2)]]
      BoltStore.Save_good [OF assms(1) stored(2)]
    by (auto simp: out_def handleStoreShare_accepts [OF assms(2)] status_of_def json_Encode_code logStoreOutcome_def)
next
  case (failed e)
  then show ?thesis by (auto simp: out_def handleStoreShare_accepts [OF assms(2)] status_of_def)
qed

lemma put_share_frame:
  "nodePrivateKey (outcome_state (put_share E r req share w s)) = nodePrivateKey s"
  "nodePublicKey (outcome_state (put_share E r req share w s)) = nodePublicKey s"
  "globalKeyManager (outcome_state (put_share E r req share w s)) = globalKeyManager s"
  "globalIPLimiter (outcome_state (put_share E r req share w s)) = globalIPLimiter s"
  by (auto simp: put_share_def share_exists_def save_share_def Let_def logStoreOutcome_def split: result.splits bool.splits prod.splits)

lemma handleStoreShare_frame:
  "nodePrivateKey (outcome_state (handleStoreShare E w r s)) = nodePrivateKey s \<and>
   nodePublicKey (outcome_state (handleStoreShare E w r s)) = nodePublicKey s \<and>
   globalKeyManager (outcome_state (handleStoreShare E w r s)) = globalKeyManager s \<and>
   globalIPLimiter (outcome_state (handleStoreShare E w r s)) = globalIPLimiter s"
proof (cases "\<exists>req share. store_accepts r req share")
  case True
  then show ?thesis using handleStoreShare_accepts put_share_frame by metis
next
  case False
  then obtain w' where "handleStoreShare E w r s = Served w' s" using handleStoreShare_rejects by blast
  then show ?thesis by simp
qed

text \<open>Without an open database every request that reaches the store panics.\<close>

lemma no_database:
  assumes "db s = None"
  shows "store_accepts r req share \<Longrightarrow> handleStoreShare E w r s = Panicked nil_deref w s"
    and "handleStatus E w r s = Panicked nil_deref w s"
    and "retrieve_authorized E r s req' \<Longrightarrow> handleRetrieveShare E w r s =
      Panicked nil_deref w (snd (checkObjectRateLimit E (rq_ObjectID req') s))"
  using assms
  by (auto simp: handleStoreShare_accepts put_share_def share_exists_def save_share_def loadShare_def saveShare_def handleStatus_def
      countShares_def db_View_def db_Update_def Let_def handleRetrieveShare_authorized release_defs)

end
