(* ===== verification/Node_Server.thy ===== *)
theory Node_Server
  imports Node_Handlers
begin

text \<open>
  \<open>node/server.go\<close>, the start-up code of \<open>node/main.go\<close> and the level handling of
  \<open>node/logger.go\<close>: the routes and their middleware, the choice of server by TLS mode, the state
  a process starts in, and the life of a server as a step relation. Sockets, certificates and
  the HTTP to HTTPS redirect server are not modelled.
\<close>

subsection \<open>Routes\<close>

definition storeMux :: "'lim node_env \<Rightarrow> ('db, 'lim) node_state mux" where
  "storeMux E =
     [(''/store'', handleStoreShare E), (''/retrieve'', handleRetrieveShare E),
      (''/rotate-key'', handleRotateKey E), (''/sync'', handleSync)]"

text \<open>The registrations of \<open>buildMux\<close> in their order.\<close>

definition routes :: "'lim node_env \<Rightarrow> Config \<Rightarrow> ('db, 'lim) node_state mux" where
  "routes E cfg =
     [(HealthCheckPath cfg, handleHealth E), (''/ready'', handleReady), (''/status'', handleStatus E),
      (''/public-key'', handleGetPublicKey),
      (''/store'', apiKeyMiddleware E (StoreAPIKey cfg) (mux_serve (storeMux E))),
      (''/retrieve'', rateLimitMiddleware E (mux_serve (storeMux E))),
      (''/rotate-key'', apiKeyMiddleware E (StoreAPIKey cfg) (mux_serve (storeMux E))),
      (''/sync'', apiKeyMiddleware E (StoreAPIKey cfg) (mux_serve (storeMux E)))]"

fun register :: "'s mux \<Rightarrow> 's mux \<Rightarrow> 's mux result" where
  "register [] m = Ok m"
| "register ((pat, h) # rs) m = bind_result (mux_handle pat h m) (register rs)"

definition buildMux :: "'lim node_env \<Rightarrow> Config \<Rightarrow> ('db, 'lim) node_handler result" where
  "buildMux E cfg =
     bind_result (register (routes E cfg) [])
       (\<lambda>mux. Ok (loggingMiddleware E
          (bodySizeLimitMiddleware (wrap64 (wrap64 (MaxBodySizeMB cfg * 1024) * 1024))
            (rateLimitMiddleware E (mux_serve mux)))))"

subsection \<open>Servers\<close>

record http_Server =
  srv_Addr :: string
  srv_ReadTimeout :: int
  srv_WriteTimeout :: int
  srv_IdleTimeout :: int
  srv_ReadHeaderTimeout :: int
  srv_TLS :: "tls_Config option"
  srv_redirect :: bool                \<comment> \<open>the redirect server on port 80 is started\<close>

text \<open>
  \<open>runServer\<close> up to the point where it listens: the server it listens with and the handler. The
  TLS configuration of autocert is a parameter.
\<close>

definition runServer ::
    "'lim node_env \<Rightarrow> (string \<Rightarrow> string option) \<Rightarrow> (string \<Rightarrow> string \<Rightarrow> string + bytes) \<Rightarrow>
     (string \<Rightarrow> string \<Rightarrow> tls_Config) \<Rightarrow> Config \<Rightarrow> (http_Server \<times> ('db, 'lim) node_handler) result" where
  "runServer E mkdirAll loadKeyPair autocert cfg =
     bind_result (buildMux E cfg) (\<lambda>handler.
       let srv = \<lparr>srv_Addr = '':'' @ Port cfg, srv_ReadTimeout = wrap64 (TimeoutSecs cfg * time_Second),
                  srv_WriteTimeout = wrap64 (TimeoutSecs cfg * time_Second),
                  srv_IdleTimeout = 120 * time_Second, srv_ReadHeaderTimeout = 0, srv_TLS = None,
                  srv_redirect = False\<rparr>
       in if TLSMode cfg = ''auto'' then
            (case mkdirAll (ACMECacheDir cfg) of
               Some e \<Rightarrow> Err (''failed to create ACME cache dir: '' @ e)
             | None \<Rightarrow> Ok (\<lparr>srv_Addr = '':443'', srv_ReadTimeout = 0, srv_WriteTimeout = 0, srv_IdleTimeout = 0,
                           srv_ReadHeaderTimeout = 3 * time_Second,
                           srv_TLS = Some (autocert (ACMECacheDir cfg) (Domain cfg)), srv_redirect = True\<rparr>, handler))
          else if TLSMode cfg = ''manual'' then
            bind_result (buildTLSConfig loadKeyPair cfg)
              (\<lambda>tlsCfg. Ok (srv\<lparr>srv_TLS := Some tlsCfg, srv_redirect := True\<rparr>, handler))
          else Ok (srv, handler))"

subsection \<open>Start-up\<close>

text \<open>\<open>init\<close> of \<open>main.go\<close> on the zero values of the package variables.\<close>

definition node_init ::
    "keystore_env \<Rightarrow> 'lim node_env \<Rightarrow> environ \<Rightarrow> files \<Rightarrow> ('db, 'lim) node_state result \<times> files" where
  "node_init K E env fs =
     (let dir = (if env ''DATA_DIR'' = [] then dataDir else env ''DATA_DIR'')
      in case LoadOrGenerateKey K (ne_GenerateKey E) dir fs of
           (Err e, fs') \<Rightarrow> (Panic (''Failed to initialize Node P-256 key pair: '' @ e), fs')
         | (Panic p, fs') \<Rightarrow> (Panic p, fs')
         | (Ok priv, fs') \<Rightarrow>
             (Ok \<lparr>db = None, nodePrivateKey = priv, nodePublicKey = p256_PublicKey (ne_ext E) priv,
                  globalKeyManager = None, globalIPLimiter = None, objectLimiters = [],
                  sorobanRPCURL = (if env ''SOROBAN_RPC_URL'' \<noteq> [] then env ''SOROBAN_RPC_URL''
                                   else ''https://soroban-testnet.stellar.org:443''),
                  nodeStartTime = ne_Now E, nodeVersion = ''dev'', sharesInStore = 0,
                  log_on = False, log_global = TraceLevel, logs = [], audit = []\<rparr>, fs'))"

definition parseLogLevel :: "(string \<Rightarrow> string + log_level) \<Rightarrow> string \<Rightarrow> log_level" where
  "parseLogLevel parse level = (case parse level of Inl _ \<Rightarrow> InfoLevel | Inr l \<Rightarrow> l)"

definition InitLogger ::
    "(string \<Rightarrow> string + log_level) \<Rightarrow> string \<Rightarrow> ('db, 'lim) node_state \<Rightarrow> ('db, 'lim) node_state" where
  "InitLogger parse level s = s\<lparr>log_global := parseLogLevel parse level, log_on := True\<rparr>"

text \<open>\<open>init\<close> and \<open>main\<close>: the server and the state in which it starts to serve.\<close>

definition node_main ::
    "keystore_env \<Rightarrow> 'lim node_env \<Rightarrow> (string \<Rightarrow> float64 option) \<Rightarrow> (string \<Rightarrow> string + log_level) \<Rightarrow>
     (string \<Rightarrow> string option) \<Rightarrow> (string \<Rightarrow> string \<Rightarrow> string + bytes) \<Rightarrow> (string \<Rightarrow> string \<Rightarrow> tls_Config) \<Rightarrow>
     environ \<Rightarrow> files \<Rightarrow> (http_Server \<times> ('db, 'lim) node_handler \<times> ('db, 'lim) node_state) result" where
  "node_main K E parseFloat parseLevel mkdirAll loadKeyPair autocert env fs =
     bind_result (fst (node_init K E env fs)) (\<lambda>s.
       let cfg = LoadConfig parseFloat env;
           s1 = InitLogger parseLevel (LogLevel cfg) s
       in bind_result (runServer E mkdirAll loadKeyPair autocert cfg) (\<lambda>(srv, handler). Ok (srv, handler, s1)))"

definition maskBytes :: "bytes \<Rightarrow> string" where
  "maskBytes b = (if length b \<le> 4 then ''****'' else ''****[truncated]'')"

subsection \<open>Routing\<close>

lemma register_Ok:
  "distinct (map fst m) \<Longrightarrow>
   (\<exists>m'. register rs m = Ok m') \<longleftrightarrow> distinct (map fst (m @ rs)) \<and> list_all (\<lambda>e. plain_path (fst e)) rs"
proof (induction rs arbitrary: m)
  case (Cons e rs)
  then show ?case by (cases e) (auto simp: mux_handle_def plain_path_slash)
qed simp

lemma register_append: "register rs m = Ok m' \<Longrightarrow> m' = m @ rs"
proof (induction rs arbitrary: m)
  case (Cons e rs)
  then show ?case using Cons.IH [of "m @ [e]"] by (cases e) (auto simp: mux_handle_def split: if_splits)
qed simp

lemma register_not_Err:
  "list_all (\<lambda>e. plain_path (fst e) \<or> CHR ''/'' \<notin> set (fst e)) rs \<Longrightarrow> register rs m \<noteq> Err e"
proof (induction rs arbitrary: m)
  case (Cons x rs)
  then show ?case by (cases x) (auto simp: mux_handle_def)
qed simp

definition fixed_routes :: "string set" where
  "fixed_routes = {''/ready'', ''/status'', ''/public-key'', ''/store'', ''/retrieve'', ''/rotate-key'', ''/sync''}"

lemma routes_distinct: "distinct (map fst (routes E cfg)) \<longleftrightarrow> HealthCheckPath cfg \<notin> fixed_routes"
  by (auto simp: routes_def fixed_routes_def)

lemma fixed_routes_plain: "p \<in> fixed_routes \<Longrightarrow> plain_path p"
proof -
  have "list_all plain_path [''/ready'', ''/status'', ''/public-key'', ''/store'', ''/retrieve'', ''/rotate-key'', ''/sync'']"
    by code_simp
  then show "p \<in> fixed_routes \<Longrightarrow> plain_path p" by (auto simp: fixed_routes_def)
qed

lemma routes_plain: "list_all (\<lambda>e. P (fst e)) (routes E cfg) \<longleftrightarrow> P (HealthCheckPath cfg) \<and> (\<forall>p \<in> fixed_routes. P p)"
  by (auto simp: routes_def fixed_routes_def)

lemma buildMux_Ok:
  "buildMux E cfg = Ok h \<longleftrightarrow>
     HealthCheckPath cfg \<notin> fixed_routes \<and> plain_path (HealthCheckPath cfg) \<and>
     h = loggingMiddleware E (bodySizeLimitMiddleware (wrap64 (wrap64 (MaxBodySizeMB cfg * 1024) * 1024))
           (rateLimitMiddleware E (mux_serve (routes E cfg))))"
  using register_Ok [of "[]" "routes E cfg"] register_append [of "routes E cfg" "[]"] routes_distinct [of E cfg]
    routes_plain [of plain_path E cfg] fixed_routes_plain
  by (auto simp: buildMux_def)

lemma mux_serve_exact:
  assumes "distinct (map fst m)" and "(r_Path r, h) \<in> set m"
  shows "mux_serve m w r s = h w r s"
proof -
  obtain h' where "best_match (r_Path r) m = Some (r_Path r, h')" "(r_Path r, h') \<in> set m"
    using best_match_exact [OF assms] by blast
  moreover from this(2) have "h' = h" using assms eq_key_imp_eq_value by metis
  ultimately show ?thesis by (simp add: mux_serve_def)
qed

lemma storeMux_serve:
  "r_Path r = ''/store'' \<Longrightarrow> mux_serve (storeMux E) w r s = handleStoreShare E w r s"
  "r_Path r = ''/retrieve'' \<Longrightarrow> mux_serve (storeMux E) w r s = handleRetrieveShare E w r s"
  "r_Path r = ''/rotate-key'' \<Longrightarrow> mux_serve (storeMux E) w r s = handleRotateKey E w r s"
  "r_Path r = ''/sync'' \<Longrightarrow> mux_serve (storeMux E) w r s = handleSync w r s"
  by (rule mux_serve_exact; simp add: storeMux_def)+

lemma routes_serve:
  assumes "HealthCheckPath cfg \<notin> fixed_routes" and "(r_Path r, h) \<in> set (routes E cfg)"
  shows "mux_serve (routes E cfg) w r s = h w r s"
  using mux_serve_exact assms routes_distinct by metis

text \<open>The request as the handlers see it behind the outer middleware: the body buffered and limited.\<close>

definition inner_request :: "Config \<Rightarrow> http_request \<Rightarrow> http_request" where
  "inner_request cfg r =
     r\<lparr>r_Body := body_seen r, r_MaxBytes := Some (wrap64 (wrap64 (MaxBodySizeMB cfg * 1024) * 1024))\<rparr>"

lemma inner_request_fields [simp]:
  "r_Method (inner_request cfg r) = r_Method r" "r_Path (inner_request cfg r) = r_Path r"
  "r_Header (inner_request cfg r) = r_Header r" "r_RemoteAddr (inner_request cfg r) = r_RemoteAddr r"
  "header_get (inner_request cfg r) k = header_get r k"
  by (simp_all add: inner_request_def header_get_def)

subsection \<open>Invariants of the served state\<close>

text \<open>
  What it takes for a property of the node state to survive every request of a class \<open>Q\<close>: that
  the logging and rate-limiting middleware keep it (they change only the log and the IP
  limiter) and that every handler does. The middleware changes only the body of a request.
\<close>

locale state_invariant =
  fixes Inv :: "('db, 'lim) node_state \<Rightarrow> bool"
    and Q :: "http_request \<Rightarrow> bool"
    and E :: "'lim node_env"
  assumes Q_body: "Q (r\<lparr>r_Body := b, r_MaxBytes := m\<rparr>) = Q r"
    and Inv_logger: "Inv s \<Longrightarrow> Inv (log_to_logger E l msg fs s)"
    and Inv_limiter: "Inv s \<Longrightarrow> globalIPLimiter s = Some lim0 \<Longrightarrow> Inv (s\<lparr>globalIPLimiter := Some lim\<rparr>)"
    and Inv_store: "Inv s \<Longrightarrow> Q r \<Longrightarrow> Inv (outcome_state (handleStoreShare E w r s))"
    and Inv_retrieve: "Inv s \<Longrightarrow> Q r \<Longrightarrow> Inv (outcome_state (handleRetrieveShare E w r s))"
    and Inv_rotate: "Inv s \<Longrightarrow> Q r \<Longrightarrow> Inv (outcome_state (handleRotateKey E w r s))"
begin

definition keeps :: "('db, 'lim) node_handler \<Rightarrow> bool" where
  "keeps h \<longleftrightarrow> (\<forall>w r s. Inv s \<longrightarrow> Q r \<longrightarrow> Inv (outcome_state (h w r s)))"

lemma keepsI: "(\<And>w r s. Inv s \<Longrightarrow> Q r \<Longrightarrow> Inv (outcome_state (h w r s))) \<Longrightarrow> keeps h"
  by (simp add: keeps_def)

lemma keeps_logging: "keeps h \<Longrightarrow> keeps (loggingMiddleware E h)"
proof (rule keepsI)
  fix w r s assume h: "keeps h" and pre: "Inv s" "Q r"
  let ?r = "r\<lparr>r_Body := body_seen r, r_MaxBytes := None\<rparr>"
  have "Q ?r" using pre(2) Q_body by simp
  then have "Inv (outcome_state (h w' ?r s))" for w' using h pre(1) by (simp add: keeps_def)
  then show "Inv (outcome_state (loggingMiddleware E h w r s))"
    by (auto simp: loggingMiddleware_def Let_def Inv_logger split: outcome.splits)
       (metis Inv_logger outcome_state.simps)+
qed

lemma keeps_body_limit: "keeps h \<Longrightarrow> keeps (bodySizeLimitMiddleware n h)"
proof (rule keepsI)
  fix w r s assume h: "keeps h" and pre: "Inv s" "Q r"
  have "Q (r\<lparr>r_MaxBytes := m\<rparr>)" for m using pre(2) Q_body [where r = r and b = "r_Body r" and m = m] by simp
  then show "Inv (outcome_state (bodySizeLimitMiddleware n h w r s))"
    using h pre(1) by (simp add: keeps_def bodySizeLimitMiddleware_def)
qed

lemma keeps_rate_limit: "keeps h \<Longrightarrow> keeps (rateLimitMiddleware E h)"
  by (rule keepsI)
    (auto simp: keeps_def rateLimitMiddleware_def Let_def case_prod_beta Inv_limiter split: option.splits)

lemma keeps_api_key: "keeps h \<Longrightarrow> keeps (apiKeyMiddleware E key h)"
  by (rule keepsI) (auto simp: keeps_def apiKeyMiddleware_def Inv_logger)

lemma best_match_in: "best_match p m = Some ph \<Longrightarrow> ph \<in> set m"
  by (induction p m arbitrary: ph rule: best_match.induct)
    (auto simp: Let_def split: if_splits option.splits prod.splits)

lemma keeps_mux: "(\<And>p h. (p, h) \<in> set m \<Longrightarrow> keeps h) \<Longrightarrow> keeps (mux_serve m)"
  by (rule keepsI) (auto simp: keeps_def mux_serve_def split: option.splits dest: best_match_in)

lemma keeps_probes:
  "keeps (handleHealth E)" "keeps handleReady" "keeps (handleStatus E)" "keeps handleGetPublicKey" "keeps handleSync"
  by (rule keepsI, auto simp: handleHealth_def handleReady_def handleStatus_def handleGetPublicKey_def
      handleSync_def Let_def split: result.splits)+

lemma keeps_store_handlers:
  "keeps (handleStoreShare E)" "keeps (handleRetrieveShare E)" "keeps (handleRotateKey E)"
  using Inv_store Inv_retrieve Inv_rotate by (auto intro: keepsI)

lemma keeps_storeMux: "keeps (mux_serve (storeMux E))"
  using keeps_store_handlers keeps_probes by (intro keeps_mux) (auto simp: storeMux_def)

lemma keeps_buildMux:
  assumes "buildMux E cfg = Ok h"
  shows "keeps h"
proof -
  have "keeps (mux_serve (routes E cfg))"
    using keeps_probes keeps_storeMux keeps_api_key keeps_rate_limit
    by (intro keeps_mux) (auto simp: routes_def)
  then show ?thesis
    using assms keeps_logging keeps_body_limit keeps_rate_limit by (simp add: buildMux_Ok)
qed

end

subsection \<open>The invariants\<close>

text \<open>The active key pair belongs together and is the key manager's current version.\<close>

definition key_inv :: "ext \<Rightarrow> ('db, 'lim) node_state \<Rightarrow> bool" where
  "key_inv X s \<longleftrightarrow>
     nodePublicKey s = p256_PublicKey X (nodePrivateKey s) \<and>
     (\<forall>km. globalKeyManager s = Some km \<longrightarrow> GetKey km (CurrentVersion km) = Some (nodePrivateKey s))"

lemma handleRotateKey_frame:
  "db (outcome_state (handleRotateKey E w r s)) = db s"
  "globalIPLimiter (outcome_state (handleRotateKey E w r s)) = globalIPLimiter s"
  "globalKeyManager s = None \<Longrightarrow> globalKeyManager (outcome_state (handleRotateKey E w r s)) = None"
  by (auto simp: handleRotateKey_def Rotate_def Let_def split: sum.splits option.splits)

lemma handleRotateKey_key_inv:
  "key_inv (ne_ext E) s \<Longrightarrow> key_inv (ne_ext E) (outcome_state (handleRotateKey E w r s))"
  by (auto simp: handleRotateKey_def Rotate_def Let_def key_inv_def GetKey_def CurrentVersion_def update_conv'
      split: sum.splits option.splits)

lemma handleStoreShare_content:
  assumes "db_good (db s)"
  shows "db_good (db (outcome_state (handleStoreShare E w r s)))"
    and "header_get r ''X-Overwrite'' \<noteq> ''true'' \<Longrightarrow>
      BoltStore.content (db s) \<subseteq>\<^sub>m BoltStore.content (db (outcome_state (handleStoreShare E w r s)))"
proof -
  have "db_good (db (outcome_state (handleStoreShare E w r s))) \<and>
    (header_get r ''X-Overwrite'' \<noteq> ''true'' \<longrightarrow>
      BoltStore.content (db s) \<subseteq>\<^sub>m BoltStore.content (db (outcome_state (handleStoreShare E w r s))))"
  proof (cases "\<exists>req share. store_accepts r req share")
    case True
    then obtain req share where acc: "store_accepts r req share" by blast
    show ?thesis
    proof (rule put_share_cases [OF assms acc, of E w], goal_cases conflict stored failed)
      case (stored db')
      then show ?case
        using BoltStore.content_Save [OF assms stored(2) store_accepts_ciphertext [OF acc]]
          BoltStore.Save_good [OF assms stored(2)]
        by (auto simp: handleStoreShare_accepts [OF acc] logStoreOutcome_def map_le_def)
    qed (use assms in \<open>auto simp: handleStoreShare_accepts [OF acc]\<close>)
  next
    case False
    then obtain w' where "handleStoreShare E w r s = Served w' s" using handleStoreShare_rejects by blast
    then show ?thesis using assms by simp
  qed
  then show "db_good (db (outcome_state (handleStoreShare E w r s)))"
    and "header_get r ''X-Overwrite'' \<noteq> ''true'' \<Longrightarrow>
      BoltStore.content (db s) \<subseteq>\<^sub>m BoltStore.content (db (outcome_state (handleStoreShare E w r s)))"
    by blast+
qed

lemma handleRetrieveShare_frame:
  "db (outcome_state (handleRetrieveShare E w r s)) = db s"
  "globalKeyManager (outcome_state (handleRetrieveShare E w r s)) = globalKeyManager s"
  "globalIPLimiter (outcome_state (handleRetrieveShare E w r s)) = globalIPLimiter s"
  "nodePrivateKey (outcome_state (handleRetrieveShare E w r s)) = nodePrivateKey s"
  "nodePublicKey (outcome_state (handleRetrieveShare E w r s)) = nodePublicKey s"
  using handleRetrieveShare_keeps [where E = E and w = w and r = r and s = s] by (simp_all add: Let_def)

lemma no_database_store:
  assumes "db s = None"
  shows "outcome_state (handleStoreShare E w r s) = s"
proof (cases "\<exists>req share. store_accepts r req share")
  case True
  then show ?thesis using no_database(1) [OF assms] by (metis outcome_state.simps(2))
next
  case False
  then obtain w' where "handleStoreShare E w r s = Served w' s" using handleStoreShare_rejects by blast
  then show ?thesis by simp
qed

lemmas handler_frames = handleRetrieveShare_frame handleRotateKey_frame handleStoreShare_frame

interpretation open_inv: state_invariant "\<lambda>s. db_good (db s)" "\<lambda>r. True" E for E
  by unfold_locales (auto simp: handler_frames handleStoreShare_content)

interpretation keys_inv: state_invariant "key_inv (ne_ext E)" "\<lambda>r. True" E for E
  by unfold_locales (auto simp: key_inv_def handler_frames, (use handleRotateKey_key_inv [unfolded key_inv_def] in blast)+)

interpretation once_inv: state_invariant "\<lambda>s. db_good (db s) \<and> m \<subseteq>\<^sub>m BoltStore.content (db s)"
    "\<lambda>r. header_get r ''X-Overwrite'' \<noteq> ''true''" E for m E
proof (unfold_locales, goal_cases)
  case (4 s r w)
  then show ?case using handleStoreShare_content map_le_trans by blast
qed (auto simp: handler_frames header_get_def)

interpretation unopened_inv: state_invariant
    "\<lambda>s. db s = None \<and> globalKeyManager s = None \<and> globalIPLimiter s = None" "\<lambda>r. True" E for E
  by unfold_locales (auto simp: handler_frames no_database_store)

subsection \<open>The life of a server\<close>

text \<open>
  \<open>listenWithGracefulShutdown\<close> as a step relation: requests are served while the server runs and
  while it drains after a signal; then the database is closed. When draining takes longer than 30
  seconds, \<open>Shutdown\<close> gives up and the database is closed under the requests that are still being
  served (\<open>Overdue\<close>), until \<open>main\<close> returns. A listen error ends the process without closing the
  database. \<open>X\<close> fixes the cryptography; everything else of the environment may differ from request to
  request. Requests are served one at a time here; their interleaving is treated below.
\<close>

datatype phase = Serving | ShuttingDown | Overdue | Stopped | Failed string

inductive node_step ::
    "ext \<Rightarrow> Config \<Rightarrow> (http_request \<Rightarrow> bool) \<Rightarrow>
     phase \<times> ('db, 'lim) node_state \<Rightarrow> phase \<times> ('db, 'lim) node_state \<Rightarrow> bool" for X cfg Q where
  request: "ne_ext E = X \<Longrightarrow> buildMux E cfg = Ok h \<Longrightarrow> Q r \<Longrightarrow> p \<in> {Serving, ShuttingDown, Overdue} \<Longrightarrow>
    node_step X cfg Q (p, s) (p, outcome_state (h new_writer r s))"
| signal: "node_step X cfg Q (Serving, s)
    (ShuttingDown, log_to_logger E InfoLevel ''shutdown_signal_received'' [] s)"
| stop: "node_step X cfg Q (ShuttingDown, s)
    (Stopped, log_to_logger E InfoLevel ''node_stopped'' [] (s\<lparr>db := closeDB (db s)\<rparr>))"
| overdue: "node_step X cfg Q (ShuttingDown, s)
    (Overdue, (log_to_logger E ErrorLevel ''shutdown_error'' [(''error'', ''context deadline exceeded'')] s)\<lparr>db := closeDB (db s)\<rparr>)"
| stop_overdue: "node_step X cfg Q (Overdue, s) (Stopped, log_to_logger E InfoLevel ''node_stopped'' [] s)"
| listen_error: "node_step X cfg Q (Serving, s) (Failed e, s)"

inductive_cases node_stepE: "node_step X cfg Q c c'"

text \<open>An invariant of the requests that only looks past the log is an invariant of the server while it serves.\<close>

lemma node_step_invariant:
  assumes "(node_step X cfg Q)\<^sup>*\<^sup>* c c'" and "fst c \<in> {Serving, ShuttingDown}" and "Inv (snd c)"
    and req: "\<And>E h w r s. ne_ext E = X \<Longrightarrow> buildMux E cfg = Ok h \<Longrightarrow> Q r \<Longrightarrow> Inv s \<Longrightarrow> Inv (outcome_state (h w r s))"
    and log: "\<And>E l m f s. Inv s \<Longrightarrow> Inv (log_to_logger E l m f s)"
  shows "fst c' \<in> {Serving, ShuttingDown} \<Longrightarrow> Inv (snd c')"
  using assms(1-3)
proof (induction rule: rtranclp_induct)
  case (step c1 c2)
  from step.hyps(2) step.prems have "fst c1 \<in> {Serving, ShuttingDown}"
    by (cases rule: node_step.cases) auto
  with step have inv: "Inv (snd c1)" by blast
  from step.hyps(2) show ?case
    using inv step.prems req log by (cases rule: node_step.cases) auto
qed

text \<open>
  What a request becomes behind the outer middleware when no IP limiter is installed: the
  routes serve the inner request, and only a log line is added.
\<close>

primrec map_state :: "('s \<Rightarrow> 's) \<Rightarrow> 's outcome \<Rightarrow> 's outcome" where
  "map_state g (Served w s) = Served w (g s)"
| "map_state g (Panicked p w s) = Panicked p w s"

lemma map_state_simps [simp]:
  "status_of (map_state g out) = status_of out" "served (map_state g out) = served out"
  "outcome_writer (map_state g out) = outcome_writer out"
  by (cases out; simp add: status_of_def)+

lemma buildMux_outcome:
  assumes "buildMux E cfg = Ok h" and "globalIPLimiter s = None"
  obtains w1 g where "w_code w1 = None" and "w_body w1 = []"
    and "\<And>t. db (g t) = db t \<and> nodePrivateKey (g t) = nodePrivateKey t \<and> globalIPLimiter (g t) = globalIPLimiter t \<and>
           objectLimiters (g t) = objectLimiters t \<and> sorobanRPCURL (g t) = sorobanRPCURL t \<and>
           nodePublicKey (g t) = nodePublicKey t \<and> globalKeyManager (g t) = globalKeyManager t"
    and "h new_writer r s = map_state g (mux_serve (routes E cfg) w1 (inner_request cfg r) s)"
proof -
  let ?id = "if header_get r ''X-Request-Id'' = [] then generateRequestID E else header_get r ''X-Request-Id''"
  let ?w = "(header_set ''X-Request-Id'' ?id new_writer)\<lparr>w_status := 200\<rparr>"
  let ?out = "mux_serve (routes E cfg) ?w (inner_request cfg r) s"
  let ?g = "log_to_logger E InfoLevel ''http_request''
        [(''method'', r_Method r), (''path'', r_Path r), (''remote_addr'', r_RemoteAddr r),
         (''status'', show_nat (w_status (outcome_writer ?out))), (''body_size'', show_nat (length (body_seen r))),
         (''req_id'', ?id), (''duration_us'', show_int (ne_Micros E))]"
  have "h new_writer r s = map_state ?g ?out"
    using assms
    by (cases ?out) (simp_all add: buildMux_Ok loggingMiddleware_def bodySizeLimitMiddleware_def
        rateLimitMiddleware_def inner_request_def Let_def)
  then show thesis by (intro that [of ?w ?g]) simp_all
qed

lemma buildMux_status:
  assumes "buildMux E cfg = Ok h" and "globalIPLimiter s = None"
  obtains w1 where "w_code w1 = None" and "status_of (h new_writer r s) =
      status_of (mux_serve (routes E cfg) w1 (inner_request cfg r) s)"
    and "served (h new_writer r s) = served (mux_serve (routes E cfg) w1 (inner_request cfg r) s)"
proof -
  obtain w1 g where "w_code w1 = None"
      "h new_writer r s = map_state g (mux_serve (routes E cfg) w1 (inner_request cfg r) s)"
    by (rule buildMux_outcome [OF assms, of r]) blast
  then show thesis by (intro that [of w1]) simp_all
qed

text \<open>The shares a node holds are kept by every request that does not set X-Overwrite.\<close>

lemma reach_content:
  fixes s s' :: "('db, 'lim) node_state"
  assumes "(node_step X cfg (\<lambda>r. header_get r ''X-Overwrite'' \<noteq> ''true''))\<^sup>*\<^sup>* (Serving, s) (p, s')"
    and "p \<in> {Serving, ShuttingDown}" and "db_good (db s)"
    and "BoltStore.content (db s) k = Some share"
  shows "db_good (db s')" and "BoltStore.content (db s') k = Some share"
proof -
  let ?Inv = "\<lambda>t. db_good (db t) \<and> BoltStore.content (db s) \<subseteq>\<^sub>m BoltStore.content (db t)"
  have keep: "?Inv (outcome_state (h w r t))"
    if "buildMux E cfg = Ok h" "header_get r ''X-Overwrite'' \<noteq> ''true''" "?Inv t"
    for E :: "'lim node_env" and h and w r and t :: "('db, 'lim) node_state"
    using once_inv.keeps_buildMux [OF that(1), where m = "BoltStore.content (db s)"] that(2,3)
    by (auto simp: once_inv.keeps_def)
  have "?Inv s'"
    using node_step_invariant [OF assms(1), where Inv = ?Inv] assms(2,3) keep by simp
  then show "db_good (db s')" and "BoltStore.content (db s') k = Some share"
    using assms(4) by (simp, metis domI map_le_def)
qed

subsection \<open>Properties\<close>

text \<open>C8: while a node with an open store serves, through any sequence of requests the store stays open and the
  active key pair stays a pair that is the key manager's current version.\<close>

theorem node_invariants:
  assumes "(node_step X cfg (\<lambda>r. True))\<^sup>*\<^sup>* (Serving, s) (p, s')" and "p \<in> {Serving, ShuttingDown}"
    and "db_good (db s)" and "key_inv X s"
  shows "db_good (db s') \<and> key_inv X s'"
proof -
  have keep: "db_good (db (outcome_state (h w r s))) \<and> key_inv X (outcome_state (h w r s))"
    if "ne_ext E = X" "buildMux E cfg = Ok h" "db_good (db s) \<and> key_inv X s"
    for E :: "'b node_env" and h and w r and s :: "('a, 'b) node_state"
    using that open_inv.keeps_buildMux [OF that(2)] keys_inv.keeps_buildMux [OF that(2)]
    by (auto simp: open_inv.keeps_def keys_inv.keeps_def)
  show ?thesis
    by (rule node_step_invariant [OF assms(1), where Inv = "\<lambda>s. db_good (db s) \<and> key_inv X s", simplified])
      (use assms(2-4) keep in \<open>auto simp: key_inv_def\<close>)
qed



lemma status_of_http_Error: "w_code w = None \<Longrightarrow> status_of (Served (http_Error m c w) s) = Some c"
  by (simp add: status_of_def)

text \<open>C23: a node started by main never opens its database and never sets up its key manager: through any
  requests, every well-formed store request with the right API key panics, the readiness probe
  answers 503, and a rotation request with the right API key answers 500.\<close>

theorem started_node_unusable:
  assumes "node_main K E0 pf pl mk lk ac env fs = Ok (srv, h0, s0)" and "cfg = LoadConfig pf env"
    and "(node_step X cfg (\<lambda>r. True))\<^sup>*\<^sup>* (Serving, s0) (Serving, s)"
    and "buildMux E cfg = Ok h"
  shows "(r_Path r = ''/ready'' \<longrightarrow> status_of (h new_writer r s) = Some 503) \<and>
    (StoreAPIKey cfg = [] \<or> header_get r ''X-Api-Key'' = StoreAPIKey cfg \<longrightarrow>
      (r_Path r = ''/store'' \<and> store_accepts (inner_request cfg r) req share \<longrightarrow> \<not> served (h new_writer r s)) \<and>
      (r_Path r = ''/rotate-key'' \<and> r_Method r = ''POST'' \<longrightarrow> status_of (h new_writer r s) = Some 500))"
proof -
  let ?Inv = "\<lambda>s :: ('a, 'b) node_state. db s = None \<and> globalKeyManager s = None \<and> globalIPLimiter s = None"
  have init: "?Inv s0"
    using assms(1)
    by (auto simp: node_main_def node_init_def InitLogger_def Let_def split: result.splits prod.splits)
  have keep: "?Inv (outcome_state (h w r t))"
    if "buildMux E cfg = Ok h" "?Inv t" for E :: "'b node_env" and h w r and t :: "('a, 'b) node_state"
    using unopened_inv.keeps_buildMux [OF that(1)] that(2) by (auto simp: unopened_inv.keeps_def)
  have inv: "?Inv s"
    by (rule node_step_invariant [OF assms(3), where Inv = ?Inv, simplified]) (use init keep in auto)
  have health: "HealthCheckPath cfg \<notin> fixed_routes" using assms(4) by (simp add: buildMux_Ok)
  obtain w1 where w1: "w_code w1 = None"
    and status: "status_of (h new_writer r s) = status_of (mux_serve (routes E cfg) w1 (inner_request cfg r) s)"
    and serv: "served (h new_writer r s) = served (mux_serve (routes E cfg) w1 (inner_request cfg r) s)"
    using buildMux_status [OF assms(4)] inv by metis
  have route: "mux_serve (routes E cfg) w1 (inner_request cfg r) s = g w1 (inner_request cfg r) s"
    if "(r_Path r, g) \<in> set (routes E cfg)" for g
    using routes_serve [OF health, of "inner_request cfg r" g E w1 s] that by simp
  let ?key = "StoreAPIKey cfg = [] \<or> header_get (inner_request cfg r) ''X-Api-Key'' = StoreAPIKey cfg"
  have guarded: "mux_serve (routes E cfg) w1 (inner_request cfg r) s = mux_serve (storeMux E) w1 (inner_request cfg r) s"
    if "(r_Path r, apiKeyMiddleware E (StoreAPIKey cfg) (mux_serve (storeMux E)))
        \<in> set (routes E cfg :: ('a, 'b) node_state mux)" and ?key
    using route [OF that(1)] api_key.admit [OF that(2), where E = E and s = s] by simp
  have ready: "status_of (h new_writer r s) = Some 503" if "r_Path r = ''/ready''"
    using status route [of handleReady] that inv w1 by (simp add: routes_def handleReady_def status_of_http_Error)
  have store: "\<not> served (h new_writer r s)"
    if "r_Path r = ''/store''" "store_accepts (inner_request cfg r) req share" ?key
  proof -
    have "mux_serve (routes E cfg) w1 (inner_request cfg r) s = handleStoreShare E w1 (inner_request cfg r) s"
      using guarded that storeMux_serve(1) [of "inner_request cfg r" E w1 s] by (simp add: routes_def)
    moreover have "handleStoreShare E w1 (inner_request cfg r) s = Panicked nil_deref w1 s"
      using no_database(1) [of s, OF _ that(2)] inv by blast
    ultimately show ?thesis using serv by simp
  qed
  have rotate: "status_of (h new_writer r s) = Some 500"
    if "r_Path r = ''/rotate-key''" "r_Method r = ''POST''" ?key
    using status guarded that storeMux_serve(3) [of "inner_request cfg r" E w1 s] inv w1
    by (simp add: routes_def handleRotateKey_def status_of_http_Error)
  show ?thesis using ready store rotate by auto
qed

text \<open>A retrieval passes the IP rate limiter twice, so with a burst of one every retrieval is answered 429,
  the first of an address included.\<close>

theorem retrieve_burst_one:
  assumes "limiter_ok (ne_rate E)" and "buildMux E cfg = Ok h"
    and "globalIPLimiter s = Some (newIPLimiterStore (Float m e) 1)" and "r_Path r = ''/retrieve''"
  shows "status_of (h new_writer r s) = Some 429"
proof -
  let ?l = "newIPLimiterStore (Float m e) 1 :: 'a ipLimiterStore"
  let ?a = "\<lambda>l. ip_allow (ne_rate E) (ne_Now E) (remote_ip r) l"
  have fresh: "ip_lim_of (ne_rate E) ?l ip = lim_New (ne_rate E) (Float m e) 1" for ip
    by (simp add: ip_lim_of_def newIPLimiterStore_def)
  note burst = ip_limiter.run_burst [OF assms(1) _ fresh, of _ "[remote_ip r, remote_ip r]" "ne_Now E"]
  have first: "fst (?a ?l)" using burst [of 0] by simp
  have second: "\<not> fst (?a (snd (?a ?l)))" using burst [of 1] by simp
  have health: "HealthCheckPath cfg \<notin> fixed_routes" using assms(2) by (simp add: buildMux_Ok)
  have route: "mux_serve (routes E cfg) w (inner_request cfg r) t =
      rateLimitMiddleware E (mux_serve (storeMux E)) w (inner_request cfg r) t" for w and t :: "('b, 'a) node_state"
    by (rule routes_serve [OF health]) (simp add: assms(4) routes_def)
  show ?thesis
    using assms(2,3) first second route [unfolded inner_request_def]
    by (auto simp: buildMux_Ok loggingMiddleware_def bodySizeLimitMiddleware_def rateLimitMiddleware_def
        Let_def case_prod_beta status_of_def)
qed

subsection \<open>Concrete instances\<close>

definition environ_example :: environ where
  "environ_example k = (if k = ''DATA_DIR'' then ''d'' else [])"

definition config_example :: Config where
  "config_example = LoadConfig (\<lambda>_. None) environ_example"

lemma config_example_fields:
  "HealthCheckPath config_example = ''/health''" "TLSMode config_example = ''off''"
  "StoreAPIKey config_example = []" "MaxBodySizeMB config_example = 10"
  by (simp_all add: config_example_def LoadConfig_def getEnv_def getEnvInt_def environ_example_def)

lemma buildMux_example: "\<exists>h. buildMux E config_example = Ok h"
proof -
  have "plain_path ''/health''" by code_simp
  then show ?thesis by (simp add: buildMux_Ok config_example_fields fixed_routes_def)
qed

lemma node_main_example:
  "\<exists>srv h s. node_main keystore_example node_example (\<lambda>_. None) (\<lambda>_. Inr InfoLevel) (\<lambda>_. None)
     (\<lambda>_ _. Inl ''no certificate'') (\<lambda>_ _. \<lparr>tls_MinVersion = 0, tls_Certificates = []\<rparr>)
     environ_example Map.empty = Ok (srv, h, s)"
proof -
  have gen: "ne_GenerateKey node_example = Inr (replicate 32 7)" by (simp add: node_example_def env_example_def)
  have "\<exists>s. fst (node_init keystore_example node_example environ_example Map.empty) = Ok s"
    using LoadOrGenerateKey_example by (simp add: node_init_def gen environ_example_def)
  moreover have "\<exists>h. buildMux node_example (LoadConfig (\<lambda>_. None) environ_example) = Ok h"
    using buildMux_example [of node_example] by (simp add: config_example_def)
  ultimately show ?thesis
    using config_example_fields(2)
    by (auto simp: node_main_def runServer_def Let_def config_example_def)
qed


theorem started_node_unusable_witness:
  "\<exists>srv h0 s0 h. node_main keystore_example node_example (\<lambda>_. None) (\<lambda>_. Inr InfoLevel) (\<lambda>_. None)
     (\<lambda>_ _. Inl ''no certificate'') (\<lambda>_ _. \<lparr>tls_MinVersion = 0, tls_Certificates = []\<rparr>)
     environ_example Map.empty = Ok (srv, h0, s0 :: (alist_db, int) node_state) \<and>
   buildMux node_example config_example = Ok h \<and>
   status_of (h new_writer ((req_from ''10.0.0.1:9'')\<lparr>r_Path := ''/ready''\<rparr>) s0) = Some 503"
proof -
  obtain srv h0 and s0 :: "(alist_db, int) node_state" where
    main: "node_main keystore_example node_example (\<lambda>_. None) (\<lambda>_. Inr InfoLevel) (\<lambda>_. None)
      (\<lambda>_ _. Inl ''no certificate'') (\<lambda>_ _. \<lparr>tls_MinVersion = 0, tls_Certificates = []\<rparr>)
      environ_example Map.empty = Ok (srv, h0, s0)"
    using node_main_example by blast
  obtain h :: "(alist_db, int) node_handler" where h: "buildMux node_example config_example = Ok h"
    using buildMux_example by blast
  have "status_of (h new_writer ((req_from ''10.0.0.1:9'')\<lparr>r_Path := ''/ready''\<rparr>) s0) = Some 503"
    using started_node_unusable [OF main config_example_def rtranclp.rtrancl_refl h,
        of "(req_from ''10.0.0.1:9'')\<lparr>r_Path := ''/ready''\<rparr>"] by simp
  with main h show ?thesis by blast
qed

theorem retrieve_burst_one_witness:
  "\<exists>h. buildMux node_example config_example = Ok h \<and>
    status_of (h new_writer ((req_from ''10.0.0.1:9'')\<lparr>r_Path := ''/retrieve''\<rparr>)
      (state_example\<lparr>globalIPLimiter := Some (newIPLimiterStore (Float 10 0) 1)\<rparr>)) = Some 429"
proof -
  obtain h :: "(alist_db, int) node_handler" where h: "buildMux node_example config_example = Ok h"
    using buildMux_example by blast
  have "limiter_ok (ne_rate node_example)"
    using limiter_ok_example by (simp add: node_example_def env_example_def)
  with h show ?thesis
    using retrieve_burst_one [of node_example config_example h
        "state_example\<lparr>globalIPLimiter := Some (newIPLimiterStore (Float 10 0) 1)\<rparr>" 10 0
        "(req_from ''10.0.0.1:9'')\<lparr>r_Path := ''/retrieve''\<rparr>"] by auto
qed

lemma request_example:
  assumes "buildMux E cfg = Ok h" and "Q r"
  shows "(node_step (ne_ext E) cfg Q)\<^sup>*\<^sup>* (Serving, s) (Serving, outcome_state (h new_writer r s))"
  using assms by (intro r_into_rtranclp node_step.request) simp_all

theorem node_invariants_witness:
  "\<exists>h. buildMux node_example config_example = Ok h \<and>
    (let s' = outcome_state (h new_writer ((req_from ''10.0.0.1:9'')\<lparr>r_Path := ''/rotate-key'', r_Method := ''POST''\<rparr>)
                started_example)
     in db_good (db s') \<and> key_inv (ne_ext node_example) s')"
proof -
  obtain h :: "(alist_db, int) node_handler" where h: "buildMux node_example config_example = Ok h"
    using buildMux_example by blast
  have "db_good (db started_example)" and "key_inv (ne_ext node_example) started_example"
    by (simp_all add: started_example_def state_example_def key_inv_def GetKey_def CurrentVersion_def
        node_example_def env_example_def ext_example_def)
  with h show ?thesis
    using node_invariants [OF request_example [OF h]] by (auto simp: Let_def)
qed

definition share_example :: StoredShareDB where
  "share_example = \<lparr>sh_EphemeralPubKey = Some [4], sh_Ciphertext = Some [1, 2], sh_Nonce = Some [9]\<rparr>"

definition full_example :: "(alist_db, int) node_state" where
  "full_example =
     state_example\<lparr>db := Some (alist_DB (AList.update ''C_o'' (json_print (share_to_json share_example)) []))\<rparr>"

lemma content_full_example: "BoltStore.content (db full_example) ''C_o'' = Some share_example"
proof -
  have "sh_Ciphertext share_example \<noteq> None" by (simp add: share_example_def)
  then show ?thesis
    using BoltStore.content_Save [OF db_good_alist saveShare_alist [of "''C_o''" "[]" share_example]]
    by (simp add: full_example_def)
qed


end
