(* ===== verification/Node_Race.thy ===== *)
theory Node_Race
  imports Node_Server
begin

text \<open>
  The HTTP server runs each request in a goroutine of its own, and \<open>handleStoreShare\<close> looks a key
  up and saves it in two separate transactions of the store. Here store requests are threads
  whose steps are these two accesses, and a schedule says which thread moves next.
\<close>

datatype store_pc = Checking | Saving | Finished "nat option"

record store_thread =
  th_r :: http_request
  th_req :: StoreRequest
  th_share :: StoredShareDB
  th_pc :: store_pc

text \<open>One access of one thread: a finished thread does not move.\<close>

definition thread_step ::
    "'lim node_env \<Rightarrow> store_thread \<Rightarrow> ('db, 'lim) node_state \<Rightarrow> store_thread \<times> ('db, 'lim) node_state" where
  "thread_step E th s =
     (case th_pc th of
        Checking \<Rightarrow>
          (case share_exists (th_r th) (store_key (th_req th)) (db s) of
             Ok False \<Rightarrow> (th\<lparr>th_pc := Saving\<rparr>, s)
           | Ok True \<Rightarrow> (th\<lparr>th_pc := Finished (Some 409)\<rparr>, s)
           | Err e \<Rightarrow> (th\<lparr>th_pc := Finished (Some 200)\<rparr>, s)
           | Panic p \<Rightarrow> (th\<lparr>th_pc := Finished None\<rparr>, s))
      | Saving \<Rightarrow>
          (let out = save_share E (th_r th) (th_req th) (th_share th) new_writer s
           in (th\<lparr>th_pc := Finished (status_of out)\<rparr>, outcome_state out))
      | Finished c \<Rightarrow> (th, s))"

fun run_threads ::
    "'lim node_env \<Rightarrow> nat list \<Rightarrow> store_thread list \<times> ('db, 'lim) node_state \<Rightarrow>
     store_thread list \<times> ('db, 'lim) node_state" where
  "run_threads E [] c = c"
| "run_threads E (i # is) (ths, s) =
     (if i < length ths then
        (case thread_step E (ths ! i) s of (th', s') \<Rightarrow> run_threads E is (ths[i := th'], s'))
      else run_threads E is (ths, s))"

definition new_thread :: "http_request \<Rightarrow> StoreRequest \<Rightarrow> StoredShareDB \<Rightarrow> store_thread" where
  "new_thread r req share = \<lparr>th_r = r, th_req = req, th_share = share, th_pc = Checking\<rparr>"

abbreviation statuses :: "store_thread list \<times> 's \<Rightarrow> store_pc list" where
  "statuses c \<equiv> map th_pc (fst c)"

text \<open>Run without interruption, a thread does what the handler does.\<close>

lemma thread_is_handler:
  fixes s :: "('db, 'lim) node_state"
  assumes "store_accepts r req share" and "out = handleStoreShare E new_writer r s"
  shows "snd (run_threads E [0, 0] ([new_thread r req share], s)) = outcome_state out \<and>
    (served out \<longrightarrow> statuses (run_threads E [0, 0] ([new_thread r req share], s)) = [Finished (status_of out)])"
  using assms(2)
  by (auto simp: handleStoreShare_accepts [OF assms(1)] put_share_def new_thread_def thread_step_def Let_def
      status_of_def split: result.splits bool.splits)

lemma share_exists_absent:
  assumes "db_good d" and "BoltStore.content d k = None"
  shows "share_exists r k d = Ok False"
  using loadShare_no_panic [OF assms(1), of k] assms(2)
  by (auto simp: share_exists_def BoltStore.content_def split: result.splits bool.splits)

lemma share_exists_present:
  assumes "BoltStore.content d k = Some sh" and "header_get r ''X-Overwrite'' \<noteq> ''true''"
  shows "share_exists r k d = Ok True"
  using assms by (simp add: share_exists_def BoltStore.content_eq_Some)

lemma save_share_Ok:
  assumes "saveShare (db s) (store_key req) share = Ok d"
  shows "status_of (save_share E r req share new_writer s) = Some 200"
    and "db (outcome_state (save_share E r req share new_writer s)) = d"
  using assms by (simp_all add: save_share_def status_of_def json_Encode_code logStoreOutcome_def)

text \<open>C24: the write-once check is not atomic: two store requests for one free key, neither asking to overwrite,
  one after the other end with 200 and 409 and the first share; with the two look-ups before the
  two saves both end with 200 and the second share replaces the first.\<close>

theorem store_race:
  assumes "db_good (db s)" and "store_accepts r1 req1 share1" and "store_accepts r2 req2 share2"
    and "header_get r1 ''X-Overwrite'' \<noteq> ''true''" and "header_get r2 ''X-Overwrite'' \<noteq> ''true''"
    and "share_key (sq_ContractID req1) (sq_ObjectID req1) = k"
    and "share_key (sq_ContractID req2) (sq_ObjectID req2) = k" and "BoltStore.content (db s) k = None"
    and "saveShare (db s) k share1 = Ok d1" and "saveShare d1 k share2 = Ok d2"
  shows "(let c = run_threads E [0, 0, 1, 1] ([new_thread r1 req1 share1, new_thread r2 req2 share2], s)
     in statuses c = [Finished (Some 200), Finished (Some 409)] \<and> BoltStore.content (db (snd c)) k = Some share1) \<and>
    (let c = run_threads E [0, 1, 0, 1] ([new_thread r1 req1 share1, new_thread r2 req2 share2], s)
     in statuses c = [Finished (Some 200), Finished (Some 200)] \<and> BoltStore.content (db (snd c)) k = Some share2)"
proof -
  have absent: "share_exists r k (db s) = Ok False" for r
    by (rule share_exists_absent [OF assms(1,8)])
  have good1: "db_good d1" by (rule BoltStore.Save_good [OF assms(1,9)])
  have c1: "BoltStore.content d1 k = Some share1"
    using BoltStore.content_Save [OF assms(1,9) store_accepts_ciphertext [OF assms(2)]] by simp
  have c2: "BoltStore.content d2 k = Some share2"
    using BoltStore.content_Save [OF good1 assms(10) store_accepts_ciphertext [OF assms(3)]] by simp
  have present: "share_exists r2 k d1 = Ok True" by (rule share_exists_present [OF c1 assms(5)])
  have save1: "status_of (save_share E r1 req1 share1 new_writer s) = Some 200"
      "db (outcome_state (save_share E r1 req1 share1 new_writer s)) = d1"
    using save_share_Ok [of s req1 share1 d1] assms(6,9) by simp_all
  have save2: "status_of (save_share E r2 req2 share2 new_writer t) = Some 200 \<and>
      db (outcome_state (save_share E r2 req2 share2 new_writer t)) = d2" if "db t = d1" for t
    using save_share_Ok [of t req2 share2 d2] assms(7,10) that by simp
  show ?thesis
    using absent present save1 save2 [OF save1(2)] c1 c2 assms(6,7)
    by (simp add: new_thread_def thread_step_def Let_def)
qed

subsection \<open>A concrete race\<close>

definition post_example :: "json \<Rightarrow> http_request" where
  "post_example v =
     \<lparr>r_Method = ''POST'', r_Path = ''/store'', r_Header = [], r_RemoteAddr = ''10.0.0.1:9'',
      r_Body = json_print v, r_MaxBytes = None\<rparr>"

lemma json_Decode_post_example: "json_ok v \<Longrightarrow> json_Decode (post_example v) = Some v"
  using json_first_print [of v "[]"] by (simp add: json_Decode_def post_example_def)

definition store_json_example :: "string \<Rightarrow> json" where
  "store_json_example ct =
     json_strings [(''object_id'', ''o''), (''contract_id'', ''C''), (''ephemeral_pubkey'', ''04''),
                   (''ciphertext'', ct), (''nonce'', ''09'')]"

definition store_req_example :: "string \<Rightarrow> StoreRequest" where
  "store_req_example ct = \<lparr>sq_ObjectID = ''o'', sq_ContractID = ''C'', sq_EphemeralPubKey = ''04'',
     sq_Ciphertext = ct, sq_Nonce = ''09''\<rparr>"

lemma store_fold_names:
  "fold_name ''object_id'' = ''object_id''" "fold_name ''contract_id'' = ''contract_id''"
  by code_simp+

lemma StoreRequest_of_json_example:
  "StoreRequest_of_json (store_json_example ct) = Some (store_req_example ct)"
  by (simp add: StoreRequest_of_json_def store_json_example_def store_req_example_def json_members_def
      string_field_def field_values_Cons fold_share_names store_fold_names)

lemma store_accepts_example:
  assumes "hex_DecodeString ct = Inr c" and "ct \<noteq> []"
  shows "store_accepts (post_example (store_json_example ct)) (store_req_example ct)
    \<lparr>sh_EphemeralPubKey = Some [4], sh_Ciphertext = Some c, sh_Nonce = Some [9]\<rparr>"
proof -
  have "json_ok (store_json_example ct)" by (simp add: store_json_example_def)
  note decode = json_Decode_post_example [OF this]
  have "hex_DecodeString ''04'' = Inr [4]" "hex_DecodeString ''09'' = Inr [9]" by code_simp+
  then show ?thesis
    using assms by (simp add: store_accepts_def decode StoreRequest_of_json_example)
      (simp add: post_example_def store_req_example_def)
qed

theorem store_race_witness:
  "\<exists>th1 th2. BoltStore.content (db (snd (run_threads node_example [0, 1, 0, 1]
      ([th1, th2], state_example)))) ''C_o'' =
    Some \<lparr>sh_EphemeralPubKey = Some [4], sh_Ciphertext = Some [2], sh_Nonce = Some [9]\<rparr> \<and>
    statuses (run_threads node_example [0, 1, 0, 1] ([th1, th2], state_example)) =
      [Finished (Some 200), Finished (Some 200)]"
proof -
  have hex: "hex_DecodeString ''01'' = Inr [1]" "hex_DecodeString ''02'' = Inr [2]" by code_simp+
  have acc1: "store_accepts (post_example (store_json_example ''01'')) (store_req_example ''01'')
    \<lparr>sh_EphemeralPubKey = Some [4], sh_Ciphertext = Some [1], sh_Nonce = Some [9]\<rparr>"
    by (rule store_accepts_example [OF hex(1)]) simp
  have acc2: "store_accepts (post_example (store_json_example ''02'')) (store_req_example ''02'')
    \<lparr>sh_EphemeralPubKey = Some [4], sh_Ciphertext = Some [2], sh_Nonce = Some [9]\<rparr>"
    by (rule store_accepts_example [OF hex(2)]) simp
  have good: "db_good (db state_example)" by (simp add: state_example_def)
  have over: "header_get (post_example v) ''X-Overwrite'' \<noteq> ''true''" for v
    by (simp add: header_get_def post_example_def)
  have key: "share_key (sq_ContractID (store_req_example ct)) (sq_ObjectID (store_req_example ct)) = ''C_o''" for ct
    by (simp add: share_key_def store_req_example_def)
  have empty: "BoltStore.content (db state_example) ''C_o'' = None"
    by (simp add: BoltStore.content_def state_example_def loadShare_good)
      (simp add: alist_DB_def alist_bolt_def bucket_bolt_def)
  have save: "saveShare (db state_example) ''C_o'' sh =
      Ok (Some (alist_DB (AList.update ''C_o'' (json_print (share_to_json sh)) [])))" for sh
    by (simp add: state_example_def saveShare_alist)
  have save': "saveShare (Some (alist_DB x)) ''C_o'' sh =
      Ok (Some (alist_DB (AList.update ''C_o'' (json_print (share_to_json sh)) x)))" for x sh
    by (simp add: saveShare_alist)
  show ?thesis
    using store_race [OF good acc1 acc2 over over key key empty save save', of node_example, unfolded Let_def]
    by (elim conjE) (intro exI conjI, assumption+)
qed

end
