(* ===== verification/Client_Crypto.thy ===== *)
theory Client_Crypto
  imports Externals
begin

text \<open>
  \<open>client/crypto.go\<close> and \<open>client/hkdf.go\<close>: key generation, AES-GCM on a file, ECIES towards a
  node, signing and addresses. What \<open>rand.Reader\<close> delivered (an error, or the bytes read)
  and the outcome of \<open>ecdh.P256().GenerateKey\<close> are arguments.
\<close>

definition GenerateAESKey :: "string + bytes \<Rightarrow> bytes result" where
  "GenerateAESKey rnd =
     (case rnd of Inl e \<Rightarrow> Err (''failed to generate symmetric key: '' @ e) | Inr key \<Rightarrow> Ok key)"

definition SymmetricEncrypt ::
    "ext \<Rightarrow> string + bytes \<Rightarrow> bytes \<Rightarrow> bytes \<Rightarrow> (bytes \<times> bytes) result" where
  "SymmetricEncrypt X rnd key plaintext =
     bind_result (aes_NewCipher (aes X) key)
       (\<lambda>blk. case rnd of
          Inl e \<Rightarrow> Err e
        | Inr nonce \<Rightarrow>
            bind_result (gcm_Seal blk nonce plaintext []) (\<lambda>ciphertext. Ok (ciphertext, nonce)))"

definition SymmetricDecrypt :: "ext \<Rightarrow> bytes \<Rightarrow> bytes \<Rightarrow> bytes \<Rightarrow> bytes result" where
  "SymmetricDecrypt X key ciphertext nonce =
     bind_result (aes_NewCipher (aes X) key) (\<lambda>blk. gcm_Open blk nonce ciphertext [])"

definition ECIESEncrypt ::
    "ext \<Rightarrow> string + bytes \<Rightarrow> string + bytes \<Rightarrow> bytes \<Rightarrow> bytes \<Rightarrow> (bytes \<times> bytes \<times> bytes) result" where
  "ECIESEncrypt X gen rnd nodePubKeyBytes plaintext =
     (case p256_NewPublicKey X nodePubKeyBytes of
        Inl e \<Rightarrow> Err (''invalid node public key: '' @ e)
      | Inr nodePub \<Rightarrow>
          (case gen of
             Inl e \<Rightarrow> Err (''failed to generate ephemeral key: '' @ e)
           | Inr ephemeralPriv \<Rightarrow>
               (case p256_ECDH X ephemeralPriv nodePub of
                  Inl e \<Rightarrow> Err (''ECDH failed: '' @ e)
                | Inr sharedSecret \<Rightarrow>
                    bind_result (aes_NewCipher (aes X) sharedSecret)
                      (\<lambda>blk. case rnd of
                         Inl e \<Rightarrow> Err e
                       | Inr nonce \<Rightarrow>
                           bind_result (gcm_Seal blk nonce plaintext [])
                             (\<lambda>ciphertext. Ok (p256_PublicKey X ephemeralPriv, ciphertext, nonce))))))"

definition SignPayload :: "ext \<Rightarrow> string \<Rightarrow> bytes \<Rightarrow> bytes result" where
  "SignPayload X stellarSeed payload =
     (case keypair_ParseFull X stellarSeed of
        Inl e \<Rightarrow> Err (''invalid Stellar seed: '' @ e)
      | Inr kp \<Rightarrow> (case keypair_Sign X kp payload of
            Inl e \<Rightarrow> Err (''failed to sign payload: '' @ e)
          | Inr sigBytes \<Rightarrow> Ok sigBytes))"

definition GetAddressFromSeed :: "ext \<Rightarrow> string \<Rightarrow> string result" where
  "GetAddressFromSeed X stellarSeed =
     (case keypair_ParseFull X stellarSeed of
        Inl e \<Rightarrow> Err e
      | Inr kp \<Rightarrow> Ok (keypair_Address X kp))"

definition client_hkdfInfo :: string where
  "client_hkdfInfo = ''soroban-encrypt-share''"

definition client_DeriveAESKey :: "ext \<Rightarrow> bytes \<Rightarrow> bytes result" where
  "client_DeriveAESKey X sharedSecret =
     (case hkdf_Read X sharedSecret (bytes_of_string client_hkdfInfo) 32 of
        Inl e \<Rightarrow> Err e
      | Inr key \<Rightarrow> Ok key)"

subsection \<open>Round trips\<close>

lemma SymmetricEncrypt_total:
  assumes "aes_key_ok key" and "length nonce = gcm_NonceSize" and "int (length pt) \<le> gcm_max_plain"
  obtains ct where "SymmetricEncrypt X (Inr nonce) key pt = Ok (ct, nonce)"
    and "length ct = length pt + gcm_Overhead"
  using gcm_Seal_total [OF assms(2,3), of "aes X key" "[]"] assms(1) that
  by (auto simp: SymmetricEncrypt_def aes_NewCipher_def)

lemma SymmetricDecrypt_Encrypt:
  assumes "length nonce = gcm_NonceSize"
    and "SymmetricEncrypt X (Inr nonce) key pt = Ok (ct, nonce')"
  shows "nonce' = nonce \<and> SymmetricDecrypt X key ct nonce = Ok pt"
  using assms gcm.open_seal [OF assms(1)]
  by (auto simp: SymmetricEncrypt_def SymmetricDecrypt_def)

lemma SymmetricDecrypt_no_panic:
  "length nonce = gcm_NonceSize \<Longrightarrow> \<not> is_panic (SymmetricDecrypt X key ct nonce)"
  using gcm_Open_no_panic
  by (auto simp: SymmetricDecrypt_def is_panic_bind_result aes_NewCipher_def)

lemma ECIESEncrypt_ok:
  assumes "p256_ok X" and "p256_Valid X priv" and "p256_Valid X e"
    and "length nonce = gcm_NonceSize" and "int (length pt) \<le> gcm_max_plain"
  obtains s ct where "p256_ECDH X priv (p256_PublicKey X e) = Inr s" and "length s = 32"
    and "gcm_Seal (aes X s) nonce pt [] = Ok ct"
    and "ECIESEncrypt X (Inr e) (Inr nonce) (p256_PublicKey X priv) pt =
           Ok (p256_PublicKey X e, ct, nonce)"
    and "length ct = length pt + gcm_Overhead"
proof -
  obtain s where s: "p256_ECDH X e (p256_PublicKey X priv) = Inr s"
      "p256_ECDH X priv (p256_PublicKey X e) = Inr s" "length s = 32"
    using p256_okD(2) [OF assms(1,3,2)] by blast
  obtain ct where ct: "gcm_Seal (aes X s) nonce pt [] = Ok ct" "length ct = length pt + gcm_Overhead"
    using gcm_Seal_total [OF assms(4,5)] by blast
  have "ECIESEncrypt X (Inr e) (Inr nonce) (p256_PublicKey X priv) pt =
          Ok (p256_PublicKey X e, ct, nonce)"
    using s ct p256_okD(1) [OF assms(1,2)]
    by (simp add: ECIESEncrypt_def aes_NewCipher_def aes_key_ok_def)
  then show ?thesis using that s ct by blast
qed

end
