(* ===== verification/Client_Transaction.thy ===== *)
theory Client_Transaction
  imports Stellar_Xdr Go_Hex
begin

text \<open>
  \<open>client/transaction.go\<close>: the unsigned transaction whose simulation decides on access. The SDK
  calls that build and serialise it are parameters. The text of a hex error is left out.
\<close>

text \<open>\<open>copy\<close> into a zeroed 32-byte array.\<close>

definition copy32 :: "bytes \<Rightarrow> bytes" where
  "copy32 b = take 32 b @ replicate (32 - length b) 0"

lemma copy32_id [simp]: "length b = 32 \<Longrightarrow> copy32 b = b"
  by (simp add: copy32_def)

definition BuildApproveTransaction :: "ext \<Rightarrow> xdr_api \<Rightarrow> string \<Rightarrow> string \<Rightarrow> string \<Rightarrow> string result" where
  "BuildApproveTransaction X A contractID objectIDHex callerAddress =
     (case strkey_Decode X VersionByteContract contractID of
        Inl e \<Rightarrow> Err (''invalid contract ID: '' @ e)
      | Inr contractBytes \<Rightarrow>
     (case hex_DecodeString objectIDHex of
        Inl e \<Rightarrow> Err ''invalid object ID hex: ''
      | Inr objectIdBytes \<Rightarrow>
     (case strkey_Decode X VersionByteAccountID callerAddress of
        Inl e \<Rightarrow> Err (''invalid caller address: '' @ e)
      | Inr callerPubKeyBytes \<Rightarrow>
          let contractAddressXDR = \<lparr>sca_Type = ScAddressTypeContract, sca_AccountId = None,
                                    sca_ContractId = Some (copy32 contractBytes)\<rparr>;
              callerScAddr = \<lparr>sca_Type = ScAddressTypeAccount,
                              sca_AccountId = Some \<lparr>acc_Ed25519 = Some (copy32 callerPubKeyBytes)\<rparr>,
                              sca_ContractId = None\<rparr>;
              invokeOp = \<lparr>op_SourceAccount = None, op_Body = InvokeHostFunctionOp
                \<lparr>hf_Type = HostFunctionTypeInvokeContract, hf_InvokeContract = Some
                   \<lparr>ica_ContractAddress = contractAddressXDR, ica_FunctionName = ''approve'',
                    ica_Args = [ScvBytes objectIdBytes, ScvAddress callerScAddr]\<rparr>\<rparr>\<rparr>
          in (case NewTransaction A \<lparr>tp_AccountID = callerAddress, tp_Sequence = 0,
                      tp_IncrementSequenceNum = False, tp_Operations = [invokeOp]\<rparr> of
                Inl e \<Rightarrow> Err (''failed to build Soroban transaction: '' @ e)
              | Inr tx \<Rightarrow>
                  (case tx_Base64 A tx of
                     Inl e \<Rightarrow> Err (''failed to serialize transaction to XDR: '' @ e)
                   | Inr xdrBase64 \<Rightarrow> Ok xdrBase64)))))"

lemma BuildApproveTransaction_no_panic: "\<not> is_panic (BuildApproveTransaction X A cid ob caller)"
  by (simp add: BuildApproveTransaction_def Let_def split: sum.splits)

text \<open>What a built transaction contains, given the documented behaviour of the SDK.\<close>

lemma BuildApproveTransaction_Ok:
  assumes "xdr_ok X A" and "BuildApproveTransaction X A cid obj caller = Ok tx"
  obtains env v1 objBytes cidBytes callerBytes where "SafeUnmarshalBase64 A tx = Inr env"
    and "env_Type env = EnvelopeTypeTx" and "env_V1 env = Some v1"
    and "muxed_GetAddress A (tx_SourceAccount v1) = Inr caller"
    and "hex_DecodeString obj = Inr objBytes"
    and "strkey_Encode X VersionByteContract cidBytes = Inr cid"
    and "strkey_Encode X VersionByteAccountID callerBytes = Inr caller"
    and "tx_Operations v1 = [\<lparr>op_SourceAccount = None, op_Body = InvokeHostFunctionOp
           \<lparr>hf_Type = HostFunctionTypeInvokeContract, hf_InvokeContract = Some
              \<lparr>ica_ContractAddress = \<lparr>sca_Type = ScAddressTypeContract, sca_AccountId = None,
                                      sca_ContractId = Some cidBytes\<rparr>,
               ica_FunctionName = ''approve'',
               ica_Args = [ScvBytes objBytes, ScvAddress \<lparr>sca_Type = ScAddressTypeAccount,
                 sca_AccountId = Some \<lparr>acc_Ed25519 = Some callerBytes\<rparr>, sca_ContractId = None\<rparr>]\<rparr>\<rparr>\<rparr>]"
proof -
  obtain cb ob kb where dec: "strkey_Decode X VersionByteContract cid = Inr cb" "hex_DecodeString obj = Inr ob"
      "strkey_Decode X VersionByteAccountID caller = Inr kb"
    using assms(2) by (auto simp: BuildApproveTransaction_def Let_def split: sum.splits)
  note cb = xdr_okD(3) [OF assms(1) dec(1)] and kb = xdr_okD(3) [OF assms(1) dec(3)]
  obtain env where env: "NewTransaction A \<lparr>tp_AccountID = caller, tp_Sequence = 0, tp_IncrementSequenceNum = False,
      tp_Operations = [\<lparr>op_SourceAccount = None, op_Body = InvokeHostFunctionOp
           \<lparr>hf_Type = HostFunctionTypeInvokeContract, hf_InvokeContract = Some
              \<lparr>ica_ContractAddress = \<lparr>sca_Type = ScAddressTypeContract, sca_AccountId = None,
                                      sca_ContractId = Some cb\<rparr>,
               ica_FunctionName = ''approve'',
               ica_Args = [ScvBytes ob, ScvAddress \<lparr>sca_Type = ScAddressTypeAccount,
                 sca_AccountId = Some \<lparr>acc_Ed25519 = Some kb\<rparr>, sca_ContractId = None\<rparr>]\<rparr>\<rparr>\<rparr>]\<rparr> = Inr env"
      and tx: "tx_Base64 A env = Inr tx"
    using assms(2) dec cb kb by (auto simp: BuildApproveTransaction_def Let_def split: sum.splits)
  show thesis
    using that xdr_okD(1) [OF assms(1) env] xdr_okD(2) [OF assms(1) tx] dec cb kb by auto
qed

end
