(* ===== verification/Go_Json_Indent.thy ===== *)
theory Go_Json_Indent
  imports Go_Json
begin

text \<open>
  \<open>json.MarshalIndent(v, "", "  ")\<close>: every element and member on a line of its own, two spaces per
  level, empty arrays and objects without a break. The decoder reads the text back.
\<close>

definition json_nl :: "nat \<Rightarrow> string" where
  "json_nl d = CHR 0x0A # replicate (2 * d) (CHR 0x20)"

fun json_indent :: "nat \<Rightarrow> json \<Rightarrow> string"
  and indent_elems :: "nat \<Rightarrow> json list \<Rightarrow> string"
  and indent_members :: "nat \<Rightarrow> (string \<times> json) list \<Rightarrow> string" where
  "json_indent d (JArr xs) =
     (if xs = [] then ''[]'' else CHR ''['' # json_nl (Suc d) @ indent_elems (Suc d) xs)"
| "json_indent d (JObj kvs) =
     (if kvs = [] then ''{}'' else CHR ''{'' # json_nl (Suc d) @ indent_members (Suc d) kvs)"
| "json_indent d JNull = json_print JNull"
| "json_indent d (JBool b) = json_print (JBool b)"
| "json_indent d (JNum s) = json_print (JNum s)"
| "json_indent d (JStr s) = json_print (JStr s)"
| "indent_elems d [] = []"
| "indent_elems d [x] = json_indent d x @ json_nl (d - 1) @ '']''"
| "indent_elems d (x # y # ys) = json_indent d x @ CHR '','' # json_nl d @ indent_elems d (y # ys)"
| "indent_members d [] = []"
| "indent_members d [(k, v)] =
     json_text k @ CHR '':'' # CHR 0x20 # json_indent d v @ json_nl (d - 1) @ ''}''"
| "indent_members d ((k, v) # m # ms) =
     json_text k @ CHR '':'' # CHR 0x20 # json_indent d v @ CHR '','' # json_nl d @ indent_members d (m # ms)"

definition json_MarshalIndent :: "json \<Rightarrow> string" where
  "json_MarshalIndent v = json_indent 0 v"

lemma skip_ws_nl [simp]: "skip_ws (json_nl d @ s) = skip_ws s"
proof -
  have "skip_ws (replicate n (CHR 0x20) @ s) = skip_ws s" for n
    by (induction n) (simp_all add: json_ws_def)
  then show ?thesis by (simp add: json_nl_def json_ws_def)
qed

lemma p_value_ws [simp]: "p_value n (json_nl d @ s) = p_value n s" "p_value n (CHR 0x20 # s) = p_value n s"
  by (cases n; simp add: json_ws_def)+

lemma p_members_ws [simp]: "p_members n (json_nl d @ s) = p_members n s"
  by (cases n) simp_all

lemma p_elems_ws [simp]: "p_elems n (json_nl d @ s) = p_elems n s"
  by (cases n) (simp_all del: p_value.simps)

lemma stops_number_nl [simp]: "stops_number (json_nl d @ s)"
  by (simp add: json_nl_def)

lemma indent_members_head:
  assumes "kvs \<noteq> []"
  obtains cs where "indent_members d kvs = CHR 0x22 # cs"
  using assms that by (cases "(d, kvs)" rule: indent_members.cases) (auto simp: json_text_def)

lemma json_indent_head:
  assumes "json_ok v"
  obtains c cs where "json_indent d v = c # cs" and "\<not> json_ws c" and "c \<notin> set '']}''"
proof (cases v)
  case (JArr xs)
  then show ?thesis using that by (cases "xs = []") (simp_all add: json_ws_def)
next
  case (JObj kvs)
  then show ?thesis using that by (cases "kvs = []") (simp_all add: json_ws_def)
qed (use json_print_head [OF assms] that in \<open>metis json_indent.simps\<close>)+

lemma indent_elems_head:
  assumes "xs \<noteq> []" and "\<forall>x \<in> set xs. json_ok x"
  obtains c cs where "indent_elems d xs = c # cs" and "\<not> json_ws c" and "c \<notin> set '']}''"
proof -
  obtain x ys where xs: "xs = x # ys" using assms(1) by (cases xs) auto
  then have "json_ok x" using assms(2) by simp
  then obtain c cs where "json_indent d x = c # cs" "\<not> json_ws c" "c \<notin> set '']}''"
    by (rule json_indent_head)
  then show ?thesis using that xs by (cases ys) simp_all
qed

lemma p_value_array_indent:
  assumes "xs \<noteq> []" and "\<forall>x \<in> set xs. json_ok x"
    and "p_elems n (indent_elems d xs @ r) = Some (xs, r)"
  shows "p_value (Suc n) (CHR ''['' # json_nl e @ indent_elems d xs @ r) = Some (JArr xs, r)"
proof -
  obtain c cs where "indent_elems d xs = c # cs" "\<not> json_ws c" "c \<notin> set '']}''"
    using assms(1,2) by (rule indent_elems_head)
  then show ?thesis using assms(3) by (simp add: json_ws_def)
qed

lemma p_value_object_indent:
  assumes "kvs \<noteq> []" and "p_members n (indent_members d kvs @ r) = Some (kvs, r)"
  shows "p_value (Suc n) (CHR ''{'' # json_nl e @ indent_members d kvs @ r) = Some (JObj kvs, r)"
proof -
  obtain cs where "indent_members d kvs = CHR 0x22 # cs"
    using assms(1) by (rule indent_members_head)
  then show ?thesis using assms(2) by (simp add: json_ws_def)
qed

lemma p_members_step_ws:
  assumes "p_value n (t @ r2) = Some (v, r2)" and "skip_ws r2 = e # es"
  shows "p_members (Suc n) (json_text k @ CHR '':'' # CHR 0x20 # t @ r2) =
    (if e = CHR '','' then map_option (apfst (Cons (k, v))) (p_members n es)
     else if e = CHR ''}'' then Some ([(k, v)], es) else None)"
  using assms by (simp add: json_text_Cons p_string_escaped json_ws_def del: p_value.simps)

lemma p_value_indent:
  "json_ok v \<Longrightarrow> length (json_indent d v) \<le> n \<Longrightarrow> stops_number r \<Longrightarrow>
     p_value n (json_indent d v @ r) = Some (v, r)"
  and p_elems_indent:
  "\<forall>x \<in> set xs. json_ok x \<Longrightarrow> xs \<noteq> [] \<Longrightarrow> length (indent_elems d xs) \<le> n \<Longrightarrow>
     p_elems n (indent_elems d xs @ r) = Some (xs, r)"
  and p_members_indent:
  "\<forall>kv \<in> set kvs. json_ok (snd kv) \<Longrightarrow> kvs \<noteq> [] \<Longrightarrow> length (indent_members d kvs) \<le> n \<Longrightarrow>
     p_members n (indent_members d kvs @ r) = Some (kvs, r)"
proof (induction d v and d xs and d kvs arbitrary: n r and n r and n r
    rule: json_indent_indent_elems_indent_members.induct)
  case (1 d xs)
  show ?case
  proof (cases "xs = []")
    case True
    with 1 show ?thesis by (cases n) (simp_all add: json_ws_def)
  next
    case False
    with 1 obtain m where n: "n = Suc m" by (cases n) auto
    with 1 False have "p_elems m (indent_elems (Suc d) xs @ r) = Some (xs, r)" by simp
    then show ?thesis using n 1 False by (simp add: p_value_array_indent del: p_value.simps)
  qed
next
  case (2 d kvs)
  show ?case
  proof (cases "kvs = []")
    case True
    with 2 show ?thesis by (cases n) (simp_all add: json_ws_def)
  next
    case False
    with 2 obtain m where n: "n = Suc m" by (cases n) auto
    with 2 False have "p_members m (indent_members (Suc d) kvs @ r) = Some (kvs, r)" by simp
    then show ?thesis using n 2 False by (simp add: p_value_object_indent del: p_value.simps)
  qed
next
  case (8 d x)
  then obtain m where n: "n = Suc m" by (cases n) auto
  have "p_value m (json_indent d x @ json_nl (d - 1) @ CHR '']'' # r) = Some (x, json_nl (d - 1) @ CHR '']'' # r)"
    using 8 n by simp
  then show ?case using n by (simp add: json_ws_def del: p_value.simps)
next
  case (9 d x y ys)
  then obtain m where n: "n = Suc m" by (cases n) auto
  let ?t = "json_nl d @ indent_elems d (y # ys) @ r"
  have "p_value m (json_indent d x @ CHR '','' # ?t) = Some (x, CHR '','' # ?t)" using 9 n by simp
  moreover have "p_elems m (indent_elems d (y # ys) @ r) = Some (y # ys, r)" using 9 n by simp
  ultimately show ?case using n by (simp add: json_ws_def del: p_value.simps)
next
  case (11 d k v)
  then obtain m where n: "n = Suc m" by (cases n) auto
  let ?r = "json_nl (d - 1) @ CHR ''}'' # r"
  have "p_value m (json_indent d v @ ?r) = Some (v, ?r)" using 11 n by simp
  then show ?case
    using n p_members_step_ws [of m "json_indent d v" ?r v "CHR ''}''" r k]
    by (simp add: json_ws_def del: p_members.simps)
next
  case (12 d k v kv kvs)
  let ?t = "json_nl d @ indent_members d (kv # kvs) @ r"
  obtain m where n: "n = Suc m" using 12 by (cases n) auto
  have "p_value m (json_indent d v @ CHR '','' # ?t) = Some (v, CHR '','' # ?t)"
    using 12 n by simp
  moreover have "p_members m ?t = Some (kv # kvs, r)" using 12 n by (simp del: p_members.simps)
  ultimately show ?case
    using n p_members_step_ws [of m "json_indent d v" "CHR '','' # ?t" v "CHR '',''" ?t k]
    by (simp add: json_ws_def del: p_members.simps)
qed (use p_value_print in \<open>simp_all del: json_print.simps p_value.simps\<close>)

lemma json_whole_MarshalIndent [codec]: "json_ok v \<Longrightarrow> json_whole (json_MarshalIndent v) = Some v"
  using p_value_indent [of v 0 "Suc (length (json_indent 0 v))" "[]"]
  by (simp add: json_whole_def json_MarshalIndent_def)

end
