(* ===== verification/Client_Main.thy ===== *)
theory Client_Main
  imports Client_Crypto Client_Transaction Go_Json_Indent
begin

text \<open>
  \<open>client/main.go\<close>: the encrypt and decrypt commands and their HTTP helpers. The network is a
  value of its own type that every request may change; the network, the files, the random
  source and Shamir's scheme (hashicorp/vault) are reached through a record of parameters. The
  flags are given parsed. A command ends with success, with exit code 1 and the message it
  prints, or with a panic; progress output is left out, and so is the text of decoding errors.
\<close>

record http_response =
  resp_StatusCode :: nat
  resp_Status :: string
  resp_Body :: string

type_synonym client_files = "string \<Rightarrow> bytes option"

record 'n client_env =
  ce_ext :: ext
  ce_xdr :: xdr_api
  ce_WriteFile :: "string \<Rightarrow> bytes \<Rightarrow> client_files \<Rightarrow> string option \<times> client_files"
  ce_key :: "string + bytes"                        \<comment> \<open>32 random bytes\<close>
  ce_nonce :: "string + bytes"                      \<comment> \<open>12 random bytes for the file\<close>
  ce_eph :: "nat \<Rightarrow> string + bytes"                  \<comment> \<open>ephemeral key for the i-th share\<close>
  ce_share_nonce :: "nat \<Rightarrow> string + bytes"
  ce_Split :: "bytes \<Rightarrow> int \<Rightarrow> int \<Rightarrow> string + bytes list"   \<comment> \<open>shamir.Split\<close>
  ce_Combine :: "bytes list \<Rightarrow> string + bytes"        \<comment> \<open>shamir.Combine\<close>
  ce_Get :: "string \<Rightarrow> 'n \<Rightarrow> (string + http_response) \<times> 'n"
  ce_Post :: "string \<Rightarrow> string \<Rightarrow> string \<Rightarrow> 'n \<Rightarrow> (string + http_response) \<times> 'n"

subsection \<open>Messages\<close>

record Metadata =
  md_ObjectID :: string
  md_ContractID :: string
  md_Threshold :: int
  md_Nodes :: "string list"

definition Metadata_to_json :: "Metadata \<Rightarrow> json" where
  "Metadata_to_json m =
     JObj [(''object_id'', JStr (md_ObjectID m)), (''contract_id'', JStr (md_ContractID m)),
           (''threshold'', JNum (show_int (md_Threshold m))), (''nodes'', JArr (map JStr (md_Nodes m)))]"

text \<open>An array of strings; null counts as the empty one, which the program does not tell apart.\<close>

fun node_elems :: "json list \<Rightarrow> string list option" where
  "node_elems [] = Some []"
| "node_elems (JStr s # vs) = map_option (Cons s) (node_elems vs)"
| "node_elems (JNull # vs) = map_option (Cons []) (node_elems vs)"
| "node_elems (_ # vs) = None"

fun set_nodes :: "string list \<Rightarrow> json list \<Rightarrow> string list option" where
  "set_nodes cur [] = Some cur"
| "set_nodes cur (JNull # vs) = set_nodes [] vs"
| "set_nodes cur (JArr es # vs) = (case node_elems es of None \<Rightarrow> None | Some l \<Rightarrow> set_nodes l vs)"
| "set_nodes cur (_ # vs) = None"

definition Metadata_of_json :: "json \<Rightarrow> Metadata option" where
  "Metadata_of_json v =
     Option.bind (json_members v) (\<lambda>ms.
     Option.bind (string_field ''object_id'' ms) (\<lambda>ob.
     Option.bind (string_field ''contract_id'' ms) (\<lambda>c.
     Option.bind (int_field ''threshold'' ms) (\<lambda>t.
     Option.bind (set_nodes [] (field_values ''nodes'' ms)) (\<lambda>ns.
       Some \<lparr>md_ObjectID = ob, md_ContractID = c, md_Threshold = t, md_Nodes = ns\<rparr>)))))"

record NodeStoreRequest =
  ns_ObjectID :: string
  ns_ContractID :: string
  ns_EphemeralPubKey :: string
  ns_Ciphertext :: string
  ns_Nonce :: string

definition NodeStoreRequest_json :: "NodeStoreRequest \<Rightarrow> json" where
  "NodeStoreRequest_json q =
     json_strings [(''object_id'', ns_ObjectID q), (''contract_id'', ns_ContractID q),
       (''ephemeral_pubkey'', ns_EphemeralPubKey q), (''ciphertext'', ns_Ciphertext q), (''nonce'', ns_Nonce q)]"

record NodeRetrieveRequest =
  nr_ObjectID :: string
  nr_ContractID :: string
  nr_CallerAddress :: string
  nr_Signature :: string
  nr_Message :: string
  nr_TxXDR :: string

definition NodeRetrieveRequest_json :: "NodeRetrieveRequest \<Rightarrow> json" where
  "NodeRetrieveRequest_json q =
     json_strings [(''object_id'', nr_ObjectID q), (''contract_id'', nr_ContractID q),
       (''caller_address'', nr_CallerAddress q), (''signature'', nr_Signature q), (''message'', nr_Message q),
       (''tx_xdr'', nr_TxXDR q)]"

text \<open>The two responses have one string member each.\<close>

definition single_field :: "string \<Rightarrow> json \<Rightarrow> string option" where
  "single_field name v = Option.bind (json_members v) (string_field name)"

subsection \<open>HTTP helpers\<close>

definition fetchNodePublicKey :: "'n client_env \<Rightarrow> string \<Rightarrow> 'n \<Rightarrow> string result \<times> 'n" where
  "fetchNodePublicKey C nodeURL n =
     (case ce_Get C (nodeURL @ ''/public-key'') n of
        (Inl e, n') \<Rightarrow> (Err e, n')
      | (Inr resp, n') \<Rightarrow>
          if resp_StatusCode resp \<noteq> 200 then (Err (''node returned status '' @ resp_Status resp), n')
          else (case Option.bind (json_first (resp_Body resp)) (single_field ''public_key'') of
                  None \<Rightarrow> (Err ''json: cannot decode response'', n')
                | Some k \<Rightarrow> (Ok k, n')))"

definition storeShareOnNode ::
    "'n client_env \<Rightarrow> string \<Rightarrow> string \<Rightarrow> string \<Rightarrow> bytes \<Rightarrow> bytes \<Rightarrow> bytes \<Rightarrow> 'n \<Rightarrow> unit result \<times> 'n" where
  "storeShareOnNode C nodeURL contractID objectID ephemPub ciphertext nonce n =
     (let reqBody = \<lparr>ns_ObjectID = objectID, ns_ContractID = contractID,
            ns_EphemeralPubKey = hex_EncodeToString ephemPub, ns_Ciphertext = hex_EncodeToString ciphertext,
            ns_Nonce = hex_EncodeToString nonce\<rparr>
      in case ce_Post C (nodeURL @ ''/store'') ''application/json'' (json_print (NodeStoreRequest_json reqBody)) n of
           (Inl e, n') \<Rightarrow> (Err e, n')
         | (Inr resp, n') \<Rightarrow>
             if resp_StatusCode resp \<noteq> 200
             then (Err (''node returned error status '' @ resp_Status resp @ '': '' @ resp_Body resp), n')
             else (Ok (), n'))"

definition retrieveShareFromNode ::
    "'n client_env \<Rightarrow> string \<Rightarrow> string \<Rightarrow> string \<Rightarrow> string \<Rightarrow> bytes \<Rightarrow> bytes \<Rightarrow> string \<Rightarrow> 'n \<Rightarrow> string result \<times> 'n" where
  "retrieveShareFromNode C nodeURL objectID contractID callerAddr signature message txXDR n =
     (let reqBody = \<lparr>nr_ObjectID = objectID, nr_ContractID = contractID, nr_CallerAddress = callerAddr,
            nr_Signature = hex_EncodeToString signature, nr_Message = hex_EncodeToString message, nr_TxXDR = txXDR\<rparr>
      in case ce_Post C (nodeURL @ ''/retrieve'') ''application/json'' (json_print (NodeRetrieveRequest_json reqBody)) n of
           (Inl e, n') \<Rightarrow> (Err e, n')
         | (Inr resp, n') \<Rightarrow>
             if resp_StatusCode resp \<noteq> 200
             then (Err (''node returned error status '' @ resp_Status resp @ '': '' @ resp_Body resp), n')
             else (case Option.bind (json_first (resp_Body resp)) (single_field ''decrypted_share'') of
                     None \<Rightarrow> (Err ''json: cannot decode response'', n')
                   | Some sh \<Rightarrow> (Ok sh, n')))"

subsection \<open>Encrypting\<close>

datatype cli_result = Success | Exit1 string | Crash string

record encrypt_flags =
  ef_file :: string
  ef_out :: string
  ef_contract :: string
  ef_nodes :: string
  ef_n :: int
  ef_t :: int
  ef_meta :: string

definition index_panic :: string where
  "index_panic = ''runtime error: index out of range''"

text \<open>Step 6: the loop over the first n nodes; it stops at the first failure.\<close>

definition send_share ::
    "'n client_env \<Rightarrow> string \<Rightarrow> string \<Rightarrow> string \<Rightarrow> nat \<Rightarrow> bytes \<Rightarrow> 'n \<Rightarrow> unit result \<times> 'n" where
  "send_share C contractID objectID node i share n =
     (let nodeURL = trim_space node
      in case fetchNodePublicKey C nodeURL n of
           (Err e, n1) \<Rightarrow> (Err (''  [Error] Failed to fetch public key from '' @ nodeURL @ '': '' @ e), n1)
         | (Panic p, n1) \<Rightarrow> (Panic p, n1)
         | (Ok nodePubHex, n1) \<Rightarrow>
             (case hex_DecodeString nodePubHex of
                Inl e \<Rightarrow> (Err (''  [Error] Invalid node public key from '' @ nodeURL @ '': ''), n1)
              | Inr nodePubBytes \<Rightarrow>
                  (case ECIESEncrypt (ce_ext C) (ce_eph C i) (ce_share_nonce C i) nodePubBytes share of
                     Err e \<Rightarrow> (Err (''  [Error] ECIES encryption failed for node '' @ nodeURL @ '': '' @ e), n1)
                   | Panic p \<Rightarrow> (Panic p, n1)
                   | Ok (ephemPub, shareCiphertext, shareNonce) \<Rightarrow>
                       (case storeShareOnNode C nodeURL contractID objectID ephemPub shareCiphertext shareNonce n1 of
                          (Err e, n2) \<Rightarrow> (Err (''  [Error] Failed to store share on node '' @ nodeURL @ '': '' @ e), n2)
                        | (Panic p, n2) \<Rightarrow> (Panic p, n2)
                        | (Ok _, n2) \<Rightarrow> (Ok (), n2)))))"

fun distribute ::
    "'n client_env \<Rightarrow> string \<Rightarrow> string \<Rightarrow> string list \<Rightarrow> bytes list \<Rightarrow> nat \<Rightarrow> nat \<Rightarrow> 'n \<Rightarrow> unit result \<times> 'n" where
  "distribute C contractID objectID nodes shares i 0 n = (Ok (), n)"
| "distribute C contractID objectID nodes shares i (Suc k) n =
     (if i \<ge> length nodes \<or> i \<ge> length shares then (Panic index_panic, n)
      else case send_share C contractID objectID (nodes ! i) i (shares ! i) n of
             (Ok _, n') \<Rightarrow> distribute C contractID objectID nodes shares (Suc i) k n'
           | (Err e, n') \<Rightarrow> (Err e, n')
           | (Panic p, n') \<Rightarrow> (Panic p, n'))"

definition handleEncrypt ::
    "'n client_env \<Rightarrow> encrypt_flags \<Rightarrow> client_files \<Rightarrow> 'n \<Rightarrow> cli_result \<times> client_files \<times> 'n" where
  "handleEncrypt C f fs n =
     (if ef_file f = [] \<or> ef_out f = [] \<or> ef_contract f = [] \<or> ef_nodes f = [] then (Exit1 ''usage'', fs, n)
      else
        let nodes = split_on (CHR '','') (ef_nodes f)
        in if int (length nodes) < ef_n f then
             (Exit1 (''Error: Number of node endpoints ('' @ show_nat (length nodes) @
                     '') must be at least the total shares n ('' @ show_int (ef_n f) @ '')''), fs, n)
           else case fs (ef_file f) of
             None \<Rightarrow> (Exit1 (''Failed to read file '' @ ef_file f), fs, n)
           | Some fileData \<Rightarrow>
          (case GenerateAESKey (ce_key C) of
             Err e \<Rightarrow> (Exit1 (''Failed to generate AES key: '' @ e), fs, n)
           | Panic p \<Rightarrow> (Crash p, fs, n)
           | Ok sk \<Rightarrow>
          (case SymmetricEncrypt (ce_ext C) (ce_nonce C) sk fileData of
             Err e \<Rightarrow> (Exit1 (''Symmetric encryption failed: '' @ e), fs, n)
           | Panic p \<Rightarrow> (Crash p, fs, n)
           | Ok (ciphertext, aesNonce) \<Rightarrow>
          (case ce_WriteFile C (ef_out f) (aesNonce @ ciphertext) fs of
             (Some e, fs1) \<Rightarrow> (Exit1 (''Failed to write ciphertext to '' @ ef_out f @ '': '' @ e), fs1, n)
           | (None, fs1) \<Rightarrow>
               let objectID = hex_EncodeToString (sha256_Sum256 (ce_ext C) ciphertext)
               in case ce_Split C sk (ef_n f) (ef_t f) of
                    Inl e \<Rightarrow> (Exit1 (''Failed to split key via Shamir's Secret Sharing: '' @ e), fs1, n)
                  | Inr shares \<Rightarrow>
                 (case distribute C (ef_contract f) objectID nodes shares 0 (nat (ef_n f)) n of
                    (Err e, n1) \<Rightarrow> (Exit1 e, fs1, n1)
                  | (Panic p, n1) \<Rightarrow> (Crash p, fs1, n1)
                  | (Ok _, n1) \<Rightarrow>
                      let meta = \<lparr>md_ObjectID = objectID, md_ContractID = ef_contract f, md_Threshold = ef_t f,
                                  md_Nodes = take (nat (ef_n f)) nodes\<rparr>;
                          metaBytes = bytes_of_string (json_MarshalIndent (Metadata_to_json meta))
                      in case ce_WriteFile C (ef_meta f) metaBytes fs1 of
                           (Some e, fs2) \<Rightarrow> (Exit1 (''Failed to write metadata JSON: '' @ e), fs2, n1)
                         | (None, fs2) \<Rightarrow> (Success, fs2, n1))))))"

subsection \<open>Decrypting\<close>

record decrypt_flags =
  df_file :: string
  df_meta :: string
  df_seed :: string
  df_out :: string

text \<open>Step 6: ask the nodes in order until there are enough shares; a failing node is skipped.\<close>

fun collect_shares ::
    "'n client_env \<Rightarrow> Metadata \<Rightarrow> string \<Rightarrow> bytes \<Rightarrow> bytes \<Rightarrow> string \<Rightarrow> string list \<Rightarrow> bytes list \<Rightarrow> 'n \<Rightarrow>
     bytes list \<times> 'n" where
  "collect_shares C meta caller sig msg tx [] acc n = (acc, n)"
| "collect_shares C meta caller sig msg tx (node # nodes) acc n =
     (if md_Threshold meta \<le> int (length acc) then (acc, n)
      else case retrieveShareFromNode C (trim_space node) (md_ObjectID meta) (md_ContractID meta) caller sig msg tx n of
             (Ok shareHex, n') \<Rightarrow>
               (case hex_DecodeString shareHex of
                  Inl e \<Rightarrow> collect_shares C meta caller sig msg tx nodes acc n'
                | Inr shareBytes \<Rightarrow> collect_shares C meta caller sig msg tx nodes (acc @ [shareBytes]) n')
           | (_, n') \<Rightarrow> collect_shares C meta caller sig msg tx nodes acc n')"

definition handleDecrypt ::
    "'n client_env \<Rightarrow> decrypt_flags \<Rightarrow> client_files \<Rightarrow> 'n \<Rightarrow> cli_result \<times> client_files \<times> 'n" where
  "handleDecrypt C f fs n =
     (if df_file f = [] \<or> df_meta f = [] \<or> df_seed f = [] \<or> df_out f = [] then (Exit1 ''usage'', fs, n)
      else case fs (df_file f) of
        None \<Rightarrow> (Exit1 (''Failed to read encrypted file '' @ df_file f), fs, n)
      | Some encryptedData \<Rightarrow>
          if length encryptedData < 12 then
            (Exit1 ''Error: Encrypted file is corrupted (too small to contain nonce)'', fs, n)
          else case fs (df_meta f) of
            None \<Rightarrow> (Exit1 ''Failed to read metadata JSON: '', fs, n)
          | Some metaBytes \<Rightarrow>
         (case Option.bind (json_whole (string_of_bytes metaBytes)) Metadata_of_json of
            None \<Rightarrow> (Exit1 ''Failed to parse metadata JSON: '', fs, n)
          | Some meta \<Rightarrow>
         (case GetAddressFromSeed (ce_ext C) (df_seed f) of
            Err e \<Rightarrow> (Exit1 (''Invalid Stellar seed: '' @ e), fs, n)
          | Panic p \<Rightarrow> (Crash p, fs, n)
          | Ok callerAddress \<Rightarrow>
         (case BuildApproveTransaction (ce_ext C) (ce_xdr C) (md_ContractID meta) (md_ObjectID meta) callerAddress of
            Err e \<Rightarrow> (Exit1 (''Failed to build Soroban XDR: '' @ e), fs, n)
          | Panic p \<Rightarrow> (Crash p, fs, n)
          | Ok txXDR \<Rightarrow>
              let msgBytes = bytes_of_string (md_ObjectID meta @ ''_'' @ md_ContractID meta)
              in case SignPayload (ce_ext C) (df_seed f) msgBytes of
                   Err e \<Rightarrow> (Exit1 (''Failed to sign request payload: '' @ e), fs, n)
                 | Panic p \<Rightarrow> (Crash p, fs, n)
                 | Ok signature \<Rightarrow>
                (case collect_shares C meta callerAddress signature msgBytes txXDR (md_Nodes meta) [] n of
                   (collectedShares, n1) \<Rightarrow>
                     if int (length collectedShares) < md_Threshold meta then
                       (Exit1 ''ERROR: Failed to retrieve sufficient key shares.'', fs, n1)
                     else case ce_Combine C collectedShares of
                       Inl e \<Rightarrow> (Exit1 (''Symmetric key reconstruction failed: '' @ e), fs, n1)
                     | Inr sk \<Rightarrow>
                    (case SymmetricDecrypt (ce_ext C) sk (drop 12 encryptedData) (take 12 encryptedData) of
                       Err e \<Rightarrow> (Exit1 (''Decryption failed (corrupted ciphertext or incorrect key reconstructed): '' @ e), fs, n1)
                     | Panic p \<Rightarrow> (Crash p, fs, n1)
                     | Ok decryptedBytes \<Rightarrow>
                         (case ce_WriteFile C (df_out f) decryptedBytes fs of
                            (Some e, fs1) \<Rightarrow> (Exit1 (''Failed to write decrypted file to '' @ df_out f @ '': '' @ e), fs1, n1)
                          | (None, fs1) \<Rightarrow> (Success, fs1, n1))))))))"

subsection \<open>The command line\<close>

text \<open>\<open>main\<close>: the flag sets of the two commands are parsed by the functions given.\<close>

definition client_main ::
    "(string list \<Rightarrow> encrypt_flags) \<Rightarrow> (string list \<Rightarrow> decrypt_flags) \<Rightarrow> 'n client_env \<Rightarrow> string list \<Rightarrow>
     client_files \<Rightarrow> 'n \<Rightarrow> cli_result \<times> client_files \<times> 'n" where
  "client_main parse_encrypt parse_decrypt C args fs n =
     (if length args < 2 then (Exit1 ''usage'', fs, n)
      else if args ! 1 = ''encrypt'' then handleEncrypt C (parse_encrypt (drop 2 args)) fs n
      else if args ! 1 = ''decrypt'' then handleDecrypt C (parse_decrypt (drop 2 args)) fs n
      else (Exit1 (''Unknown command: '' @ args ! 1), fs, n))"

subsection \<open>Metadata\<close>

lemma fold_meta_names:
  "fold_name ''object_id'' = ''object_id''" "fold_name ''contract_id'' = ''contract_id''"
  "fold_name ''threshold'' = ''threshold''" "fold_name ''nodes'' = ''nodes''"
  by code_simp+

lemma node_elems_JStr [simp]: "node_elems (map JStr xs) = Some xs"
  by (induction xs) simp_all

lemma field_values_simps [simp]:
  "field_values name [] = []"
  "field_values name ((k, v) # kvs) =
     (if fold_name k = fold_name name then v # field_values name kvs else field_values name kvs)"
  by (simp_all add: field_values_def)

interpretation metadata_json: json_codec Metadata_to_json Metadata_of_json "\<lambda>m. int64_range (md_Threshold m)"
proof
  fix m :: Metadata
  assume "int64_range (md_Threshold m)"
  then show "json_ok (Metadata_to_json m)" and "Metadata_of_json (Metadata_to_json m) = Some m"
    by (auto simp: Metadata_to_json_def Metadata_of_json_def json_members_def string_field_def int_field_def fold_meta_names)
qed

lemma Metadata_file:
  "int64_range (md_Threshold m) \<Longrightarrow>
   Option.bind (json_whole (string_of_bytes (bytes_of_string (json_MarshalIndent (Metadata_to_json m))))) Metadata_of_json = Some m"
  by (simp add: json_whole_MarshalIndent metadata_json.to_json_ok metadata_json.of_to_json)

subsection \<open>What the commands leave behind\<close>

text \<open>\<open>os.WriteFile\<close> without an error leaves the data in the file and the other files alone.\<close>

definition write_ok :: "'n client_env \<Rightarrow> bool" where
  "write_ok C \<longleftrightarrow>
     (\<forall>path data fs fs'. ce_WriteFile C path data fs = (None, fs') \<longrightarrow> fs' = fs(path \<mapsto> data))"

lemma handleEncrypt_Success:
  assumes "handleEncrypt C f fs n = (Success, fs', n')"
  obtains fileData sk nonce ct fs1 shares where "fs (ef_file f) = Some fileData"
    and "ce_key C = Inr sk" and "SymmetricEncrypt (ce_ext C) (ce_nonce C) sk fileData = Ok (ct, nonce)"
    and "ce_WriteFile C (ef_out f) (nonce @ ct) fs = (None, fs1)"
    and "ce_Split C sk (ef_n f) (ef_t f) = Inr shares"
    and "ef_n f \<le> int (length (split_on (CHR '','') (ef_nodes f)))"
    and "distribute C (ef_contract f) (hex_EncodeToString (sha256_Sum256 (ce_ext C) ct))
           (split_on (CHR '','') (ef_nodes f)) shares 0 (nat (ef_n f)) n = (Ok (), n')"
    and "ce_WriteFile C (ef_meta f) (bytes_of_string (json_MarshalIndent (Metadata_to_json
           \<lparr>md_ObjectID = hex_EncodeToString (sha256_Sum256 (ce_ext C) ct), md_ContractID = ef_contract f,
            md_Threshold = ef_t f, md_Nodes = take (nat (ef_n f)) (split_on (CHR '','') (ef_nodes f))\<rparr>))) fs1 = (None, fs')"
  using assms
  by (auto simp: handleEncrypt_def GenerateAESKey_def Let_def
      split: if_splits option.splits result.splits sum.splits prod.splits)

text \<open>The files after a successful run.\<close>

lemma handleEncrypt_files:
  assumes "handleEncrypt C f fs n = (Success, fs', n')" and "write_ok C"
    and "\<And>b. ce_nonce C = Inr b \<Longrightarrow> length b = 12" and "int64_range (ef_t f)" and "ef_meta f \<noteq> ef_out f"
  obtains fileData sk nonce ct shares metaBytes meta where "fs (ef_file f) = Some fileData" and "ce_key C = Inr sk"
    and "fs' (ef_out f) = Some (nonce @ ct)" and "length nonce = 12"
    and "SymmetricDecrypt (ce_ext C) sk ct nonce = Ok fileData"
    and "fs' (ef_meta f) = Some metaBytes"
    and "Option.bind (json_whole (string_of_bytes metaBytes)) Metadata_of_json = Some meta"
    and "md_ObjectID meta = hex_EncodeToString (sha256_Sum256 (ce_ext C) ct)" and "md_ContractID meta = ef_contract f"
    and "md_Threshold meta = ef_t f" and "md_Nodes meta = take (nat (ef_n f)) (split_on (CHR '','') (ef_nodes f))"
    and "ce_Split C sk (ef_n f) (ef_t f) = Inr shares"
    and "distribute C (ef_contract f) (md_ObjectID meta) (split_on (CHR '','') (ef_nodes f)) shares 0 (nat (ef_n f)) n = (Ok (), n')"
    and "ef_contract f \<noteq> []" and "nat (ef_n f) \<le> length (split_on (CHR '','') (ef_nodes f))"
  using assms(1)
proof (rule handleEncrypt_Success, goal_cases success)
  case (success fileData sk nonce ct fs1 shares)
  let ?meta = "\<lparr>md_ObjectID = hex_EncodeToString (sha256_Sum256 (ce_ext C) ct), md_ContractID = ef_contract f,
            md_Threshold = ef_t f, md_Nodes = take (nat (ef_n f)) (split_on (CHR '','') (ef_nodes f))\<rparr>"
  let ?mb = "bytes_of_string (json_MarshalIndent (Metadata_to_json ?meta))"
  obtain b where b: "ce_nonce C = Inr b"
    using success(4) by (cases "ce_nonce C") (auto simp: SymmetricEncrypt_def)
  then have len: "length b = gcm_NonceSize" using assms(3) by (simp add: gcm_NonceSize_def)
  have dec: "nonce = b \<and> SymmetricDecrypt (ce_ext C) sk ct nonce = Ok fileData"
    using SymmetricDecrypt_Encrypt [OF len, of "ce_ext C" sk fileData ct nonce] success(4) b by simp
  have "fs' = (fs(ef_out f \<mapsto> nonce @ ct))(ef_meta f \<mapsto> ?mb)"
    using assms(2) success(5,9) unfolding write_ok_def by metis
  then have files: "fs' (ef_out f) = Some (nonce @ ct)" "fs' (ef_meta f) = Some ?mb" using assms(5) by simp_all
  have meta: "Option.bind (json_whole (string_of_bytes ?mb)) Metadata_of_json = Some ?meta"
    by (rule Metadata_file) (use assms(4) in simp)
  have "ef_contract f \<noteq> []" using assms(1) by (auto simp: handleEncrypt_def)
  then show ?case
    using success(1) [OF success(2,3) files(1) _ _ files(2) meta _ _ _ _ success(6)] dec b assms(3) success(7,8) by auto
qed


text \<open>C17: the decrypt command never panics, whatever the files, the metadata and the nodes' answers are.\<close>

theorem handleDecrypt_no_crash: "fst (handleDecrypt C f fs n) \<noteq> Crash p"
proof -
  have sym: "SymmetricDecrypt X sk (drop 12 d) (take 12 d) \<noteq> Panic q" if "\<not> length d < 12" for X sk d q
    using SymmetricDecrypt_no_panic [of "take 12 d"] that is_panic_iff by (fastforce simp: gcm_NonceSize_def)
  have build: "BuildApproveTransaction X A c ob a \<noteq> Panic q" for X A c ob a q
    using BuildApproveTransaction_no_panic is_panic_iff by blast
  have addr: "GetAddressFromSeed X sd \<noteq> Panic q" for X sd q
    by (simp add: GetAddressFromSeed_def split: sum.splits)
  have sign: "SignPayload X sd m \<noteq> Panic q" for X sd m q
    by (simp add: SignPayload_def split: sum.splits)
  show ?thesis
    using sym build addr sign
    by (auto simp: handleDecrypt_def Let_def
        split: option.splits result.splits sum.splits prod.splits)
qed

subsection \<open>A concrete run\<close>

text \<open>A network whose nodes all have one key and accept every share, and a scheme that hands out the key itself.\<close>

definition client_example :: "unit client_env" where
  "client_example =
     \<lparr> ce_ext = ext_example, ce_xdr = xdr_example \<lparr>env_Type = EnvelopeTypeTx, env_V1 = None\<rparr>,
       ce_WriteFile = (\<lambda>p d fs. (None, fs(p \<mapsto> d))),
       ce_key = Inr (replicate 32 5), ce_nonce = Inr (replicate 12 0),
       ce_eph = (\<lambda>i. Inr (replicate 32 2)), ce_share_nonce = (\<lambda>i. Inr (replicate 12 1)),
       ce_Split = (\<lambda>sk n t. Inr (replicate (nat n) sk)), ce_Combine = (\<lambda>l. Inr (hd l)),
       ce_Get = (\<lambda>u n. (Inr \<lparr>resp_StatusCode = 200, resp_Status = ''200 OK'',
          resp_Body = json_print (json_strings [(''public_key'', hex_EncodeToString (replicate 32 1))]) @ [CHR 0x0A]\<rparr>, n)),
       ce_Post = (\<lambda>u c b n. (Inr \<lparr>resp_StatusCode = 200, resp_Status = ''200 OK'', resp_Body = []\<rparr>, n)) \<rparr>"

lemma single_field_print:
  "Option.bind (json_first (json_print (json_strings [(k, v)]) @ [CHR 0x0A])) (single_field k) = Some v"
  using json_first_print [of "json_strings [(k, v)]" "[CHR 0x0A]"]
  by (simp add: single_field_def json_members_def string_field_def)

lemma send_share_example:
  assumes "int (length share) \<le> gcm_max_plain"
  shows "send_share client_example c ob node i share n = (Ok (), n)"
proof -
  have "fetchNodePublicKey client_example u n = (Ok (hex_EncodeToString (replicate 32 1)), n)" for u
    using single_field_print [of "''public_key''"] by (simp add: fetchNodePublicKey_def client_example_def)
  moreover obtain ct where "ECIESEncrypt ext_example (Inr (replicate 32 2)) (Inr (replicate 12 1)) (replicate 32 1) share =
      Ok (replicate 32 2, ct, replicate 12 1)"
    using ECIESEncrypt_ok [OF p256_ok_example, of "replicate 32 1" "replicate 32 2" "replicate 12 1" share] assms
    by (auto simp: ext_example_def gcm_NonceSize_def)
  moreover have "ce_ext client_example = ext_example" "ce_eph client_example i = Inr (replicate 32 2)"
      "ce_share_nonce client_example i = Inr (replicate 12 1)"
    by (simp_all add: client_example_def)
  moreover have "storeShareOnNode client_example u c ob a b d n = (Ok (), n)" for u a b d
    by (simp add: storeShareOnNode_def client_example_def)
  ultimately show ?thesis by (simp add: send_share_def)
qed

lemma distribute_example:
  assumes "\<forall>sh \<in> set shares. int (length sh) \<le> gcm_max_plain"
    and "i + k \<le> length nodes" and "i + k \<le> length shares"
  shows "distribute client_example c ob nodes shares i k n = (Ok (), n)"
  using assms by (induction k arbitrary: i) (simp_all add: send_share_example)

definition flags_example :: encrypt_flags where
  "flags_example = \<lparr>ef_file = ''a'', ef_out = ''a.enc'', ef_contract = ''C'', ef_nodes = ''http://n1,http://n2'',
     ef_n = 2, ef_t = 2, ef_meta = ''metadata.json''\<rparr>"

lemma handleEncrypt_example: "\<exists>fs'. handleEncrypt client_example flags_example [''a'' \<mapsto> [1, 2, 3]] () = (Success, fs', ())"
proof -
  let ?pub = "split_on (CHR '','') ''http://n1,http://n2''"
  have nodes: "length ?pub = 2" by code_simp
  obtain ct where ct: "SymmetricEncrypt ext_example (Inr (replicate 12 0)) (replicate 32 5) [1, 2, 3] = Ok (ct, replicate 12 0)"
    using SymmetricEncrypt_total [of "replicate 32 5" "replicate 12 0" "[1, 2, 3]" ext_example]
    by (auto simp: aes_key_ok_def gcm_NonceSize_def gcm_max_plain_def)
  have "distribute client_example ''C'' ob ?pub (replicate (nat 2) (replicate 32 5)) 0 (nat 2) () = (Ok (), ())" for ob
    by (rule distribute_example) (simp_all add: nodes gcm_max_plain_def)
  with ct nodes show ?thesis
    by (simp add: handleEncrypt_def flags_example_def Let_def GenerateAESKey_def del: split_on.simps)
      (simp add: client_example_def)
qed


end
