(* ===== verification/Contract.thy ===== *)
theory Contract
  imports Prelude
begin

text \<open>
  \<open>contract/src/lib.rs\<close>: the allowlist contract as a state machine. The instance storage holds the
  admin and the name, the persistent storage one entry per allowed user. \<open>auths\<close> are the addresses
  that authorised the invocation; \<open>require_auth\<close> of any other address traps, and a trap rolls the
  invocation back. An address is its text form.
\<close>

record contract_state =
  c_Admin :: "string option"
  c_Name :: "bytes option"
  c_Allowed :: "string list"

definition contract_new :: contract_state where
  "contract_new = \<lparr>c_Admin = None, c_Name = None, c_Allowed = []\<rparr>"

definition contract_init :: "string \<Rightarrow> bytes \<Rightarrow> contract_state \<Rightarrow> contract_state result" where
  "contract_init admin name c =
     (if c_Admin c \<noteq> None then Panic ''Already initialized''
      else Ok (c\<lparr>c_Admin := Some admin, c_Name := Some name\<rparr>))"

definition require_auth :: "string set \<Rightarrow> string \<Rightarrow> unit result" where
  "require_auth auths a = (if a \<in> auths then Ok () else Panic ''Unauthorized'')"

definition contract_add :: "string set \<Rightarrow> string \<Rightarrow> contract_state \<Rightarrow> contract_state result" where
  "contract_add auths account c =
     (case c_Admin c of
        None \<Rightarrow> Panic ''Not initialized''
      | Some admin \<Rightarrow>
          bind_result (require_auth auths admin)
            (\<lambda>_. Ok (c\<lparr>c_Allowed := List.insert account (c_Allowed c)\<rparr>)))"

definition contract_remove :: "string set \<Rightarrow> string \<Rightarrow> contract_state \<Rightarrow> contract_state result" where
  "contract_remove auths account c =
     (case c_Admin c of
        None \<Rightarrow> Panic ''Not initialized''
      | Some admin \<Rightarrow>
          bind_result (require_auth auths admin)
            (\<lambda>_. Ok (c\<lparr>c_Allowed := removeAll account (c_Allowed c)\<rparr>)))"

definition is_allowed :: "string \<Rightarrow> contract_state \<Rightarrow> bool" where
  "is_allowed account c \<longleftrightarrow> account \<in> set (c_Allowed c)"

text \<open>\<open>approve\<close> takes the caller as an argument and asks for no authorisation of it; the id is not used.\<close>

definition contract_approve :: "bytes \<Rightarrow> string \<Rightarrow> contract_state \<Rightarrow> unit result" where
  "contract_approve obj caller c = (if \<not> is_allowed caller c then Panic ''ENoAccess'' else Ok ())"

inductive contract_step :: "string set \<Rightarrow> contract_state \<Rightarrow> contract_state \<Rightarrow> bool" for auths where
  init: "contract_init admin name c = Ok c' \<Longrightarrow> contract_step auths c c'"
| add: "contract_add auths account c = Ok c' \<Longrightarrow> contract_step auths c c'"
| remove: "contract_remove auths account c = Ok c' \<Longrightarrow> contract_step auths c c'"

text \<open>C30: once the contract has an admin, invocations the admin has not authorised change nothing: neither the
  admin nor who is allowed, through any sequence of calls.\<close>

theorem contract_admin_only:
  assumes "(contract_step auths)\<^sup>*\<^sup>* c c'" and "c_Admin c = Some admin" and "admin \<notin> auths"
  shows "c' = c"
  using assms
proof (induction rule: rtranclp_induct)
  case (step c1 c2)
  then have "c1 = c" by simp
  with step.hyps(2) step.prems show ?case
    by cases (auto simp: contract_init_def contract_add_def contract_remove_def require_auth_def)
qed simp

theorem contract_admin_only_witness:
  "\<nexists>c'. (contract_step {''GMALLORY''})\<^sup>*\<^sup>*
     \<lparr>c_Admin = Some ''GADMIN'', c_Name = None, c_Allowed = [''GALICE'']\<rparr> c' \<and> is_allowed ''GMALLORY'' c'"
proof
  assume "\<exists>c'. (contract_step {''GMALLORY''})\<^sup>*\<^sup>*
     \<lparr>c_Admin = Some ''GADMIN'', c_Name = None, c_Allowed = [''GALICE'']\<rparr> c' \<and> is_allowed ''GMALLORY'' c'"
  then obtain c' where steps: "(contract_step {''GMALLORY''})\<^sup>*\<^sup>*
     \<lparr>c_Admin = Some ''GADMIN'', c_Name = None, c_Allowed = [''GALICE'']\<rparr> c'" and c': "is_allowed ''GMALLORY'' c'"
    by blast
  show False using contract_admin_only [OF steps, of "''GADMIN''"] c' by (simp add: is_allowed_def)
qed

end
