(* ===== verification/Protocol.thy ===== *)
theory Protocol
  imports Node_Race Client_Main Contract
begin

text \<open>
  The client, the node and the contract together: what the client encrypts and sends is what the
  node stores and can decrypt, what the client builds is what the node accepts, and what the
  contract decides is (or is not) what the node enforces.
\<close>

subsection \<open>Messages on the wire\<close>

text \<open>The node's request types read what the client's write.\<close>

definition store_request :: "NodeStoreRequest \<Rightarrow> StoreRequest" where
  "store_request q = \<lparr>sq_ObjectID = ns_ObjectID q, sq_ContractID = ns_ContractID q,
     sq_EphemeralPubKey = ns_EphemeralPubKey q, sq_Ciphertext = ns_Ciphertext q, sq_Nonce = ns_Nonce q\<rparr>"

definition retrieve_request :: "NodeRetrieveRequest \<Rightarrow> RetrieveRequest" where
  "retrieve_request q = \<lparr>rq_ObjectID = nr_ObjectID q, rq_ContractID = nr_ContractID q,
     rq_CallerAddress = nr_CallerAddress q, rq_Signature = nr_Signature q, rq_Message = nr_Message q,
     rq_TxXDR = nr_TxXDR q\<rparr>"

lemma fold_retrieve_names:
  "fold_name ''caller_address'' = ''caller_address''" "fold_name ''signature'' = ''signature''"
  "fold_name ''message'' = ''message''" "fold_name ''tx_xdr'' = ''tx_xdr''"
  by code_simp+

lemma StoreRequest_of_client: "StoreRequest_of_json (NodeStoreRequest_json q) = Some (store_request q)"
  by (simp add: StoreRequest_of_json_def NodeStoreRequest_json_def store_request_def json_members_def
      string_field_def fold_share_names store_fold_names)

lemma RetrieveRequest_of_client: "RetrieveRequest_of_json (NodeRetrieveRequest_json q) = Some (retrieve_request q)"
  by (simp add: RetrieveRequest_of_json_def NodeRetrieveRequest_json_def retrieve_request_def json_members_def
      string_field_def fold_retrieve_names store_fold_names)

lemma json_ok_requests [simp]: "json_ok (NodeStoreRequest_json q)" "json_ok (NodeRetrieveRequest_json q')"
  by (simp_all add: NodeStoreRequest_json_def NodeRetrieveRequest_json_def)

definition node_store_of_json :: "json \<Rightarrow> NodeStoreRequest option" where
  "node_store_of_json v = map_option (\<lambda>q. \<lparr>ns_ObjectID = sq_ObjectID q, ns_ContractID = sq_ContractID q,
     ns_EphemeralPubKey = sq_EphemeralPubKey q, ns_Ciphertext = sq_Ciphertext q, ns_Nonce = sq_Nonce q\<rparr>)
     (StoreRequest_of_json v)"

interpretation store_wire: json_codec NodeStoreRequest_json node_store_of_json "\<lambda>_. True"
  by unfold_locales (simp_all add: node_store_of_json_def StoreRequest_of_client store_request_def)

text \<open>A POST of the client, as the node's server receives it.\<close>

definition client_post :: "string \<Rightarrow> string \<Rightarrow> string \<Rightarrow> http_request" where
  "client_post path addr body =
     \<lparr>r_Method = ''POST'', r_Path = path, r_Header = [(''Content-Type'', ''application/json'')],
      r_RemoteAddr = addr, r_Body = body, r_MaxBytes = None\<rparr>"

lemma json_Decode_client_post:
  "json_ok v \<Longrightarrow> json_Decode (client_post path addr (json_print v)) = Some v"
  using json_first_print [of v "[]"] by (simp add: json_Decode_def client_post_def)

subsection \<open>A share on its way to the node\<close>

lemma ECIESEncrypt_inv:
  assumes "ECIESEncrypt X gen rnd pub pt = Ok (eph, ct, nonce)"
  obtains nodePub e s where "p256_NewPublicKey X pub = Inr nodePub" and "gen = Inr e"
    and "p256_ECDH X e nodePub = Inr s" and "rnd = Inr nonce" and "eph = p256_PublicKey X e"
    and "gcm_Seal (aes X s) nonce pt [] = Ok ct"
  using assms
  by (cases rnd) (auto simp: ECIESEncrypt_def aes_NewCipher_def split: sum.splits if_splits)

lemma ECIES_DecryptShare:
  assumes "p256_ok X" and "p256_Valid X priv" and "\<And>e. gen = Inr e \<Longrightarrow> p256_Valid X e"
    and "\<And>b. rnd = Inr b \<Longrightarrow> length b = 12"
    and "ECIESEncrypt X gen rnd (p256_PublicKey X priv) share = Ok (eph, ct, nonce)"
  shows "DecryptShare X priv eph ct nonce = Ok share"
  using assms(5)
proof (rule ECIESEncrypt_inv, goal_cases inv)
  case (inv nodePub e s)
  have e: "p256_Valid X e" and len: "length nonce = gcm_NonceSize"
    using inv(2,4) assms(3,4) by (simp_all add: gcm_NonceSize_def)
  have pub: "nodePub = p256_PublicKey X priv" using inv(1) p256_okD(1) [OF assms(1,2)] by simp
  obtain s' where s': "p256_ECDH X e (p256_PublicKey X priv) = Inr s'"
      "p256_ECDH X priv (p256_PublicKey X e) = Inr s'" "length s' = 32"
    using p256_okD(2) [OF assms(1) e assms(2)] by blast
  have "s' = s" using s'(1) inv(3) pub by simp
  then show ?case
    using DecryptShare_secret [OF p256_okD(1) [OF assms(1) e] s'(2,3)] gcm.open_seal [OF len inv(6)] inv(5) by simp
qed

lemma ECIESEncrypt_nonempty:
  assumes "p256_ok X" and "\<And>e. gen = Inr e \<Longrightarrow> p256_Valid X e" and "\<And>b. rnd = Inr b \<Longrightarrow> length b = 12"
    and "ECIESEncrypt X gen rnd pub share = Ok (eph, ct, nonce)"
  shows "eph \<noteq> [] \<and> ct \<noteq> [] \<and> nonce \<noteq> []"
  using assms(4)
proof (rule ECIESEncrypt_inv, goal_cases inv)
  case (inv nodePub e sec)
  have "length ct = length share + gcm_Overhead"
    using inv(6) by (auto simp: gcm_Seal_def gcm_Overhead_def Let_def split: if_splits)
  then show ?case
    using inv(2,4,5) assms(2,3) p256_okD(3) [OF assms(1)] by (auto simp: gcm_Overhead_def)
qed

text \<open>C10: a share the client encrypts to a node's public key is decrypted by the node's private key to the same
  bytes, for every share, ephemeral key and 12-byte nonce.\<close>

theorem ecies_roundtrip:
  assumes "p256_ok X" and "p256_Valid X priv" and "p256_Valid X e" and "length nonce = 12"
    and "int (length share) \<le> gcm_max_plain"
  shows "\<exists>eph ct. ECIESEncrypt X (Inr e) (Inr nonce) (p256_PublicKey X priv) share = Ok (eph, ct, nonce) \<and>
    DecryptShare X priv eph ct nonce = Ok share"
proof -
  have "length nonce = gcm_NonceSize" using assms(4) by (simp add: gcm_NonceSize_def)
  then obtain ct where "ECIESEncrypt X (Inr e) (Inr nonce) (p256_PublicKey X priv) share =
      Ok (p256_PublicKey X e, ct, nonce)"
    using ECIESEncrypt_ok [OF assms(1,2,3) _ assms(5)] by blast
  then show ?thesis using ECIES_DecryptShare [OF assms(1,2)] assms(3,4) by blast
qed

theorem ecies_roundtrip_witness:
  "\<exists>eph ct. ECIESEncrypt ext_example (Inr (replicate 32 2)) (Inr (replicate 12 1)) (replicate 32 1) [9, 8, 7] =
      Ok (eph, ct, replicate 12 1) \<and> DecryptShare ext_example (replicate 32 1) eph ct (replicate 12 1) = Ok [9, 8, 7]"
  using ecies_roundtrip [OF p256_ok_example, of "replicate 32 1" "replicate 32 2" "replicate 12 1" "[9, 8, 7]"]
  by (simp add: ext_example_def gcm_max_plain_def)

subsection \<open>Through the server\<close>

abbreviation body_limit :: "Config \<Rightarrow> int" where
  "body_limit cfg \<equiv> wrap64 (wrap64 (MaxBodySizeMB cfg * 1024) * 1024)"

lemma json_Decode_inner:
  assumes "r_MaxBytes r = None" and "int (length (r_Body r)) \<le> body_limit cfg"
  shows "json_Decode (inner_request cfg r) = json_Decode r"
  using assms by (simp add: json_Decode_def body_seen_def inner_request_def)

lemma store_accepts_inner:
  assumes "r_MaxBytes r = None" and "int (length (r_Body r)) \<le> body_limit cfg"
  shows "store_accepts (inner_request cfg r) req share = store_accepts r req share"
  by (simp add: store_accepts_def json_Decode_inner [OF assms])

lemma retrieve_authorized_inner:
  assumes "r_MaxBytes r = None" and "int (length (r_Body r)) \<le> body_limit cfg"
  shows "retrieve_authorized E (inner_request cfg r) s req = retrieve_authorized E r s req"
  by (simp add: retrieve_authorized_def json_Decode_inner [OF assms])

lemma client_store_accepts:
  assumes "ns_ObjectID q \<noteq> []" and "ns_ContractID q \<noteq> []"
    and "ns_EphemeralPubKey q = hex_EncodeToString eph" and "ns_Ciphertext q = hex_EncodeToString ct"
    and "ns_Nonce q = hex_EncodeToString nonce" and "eph \<noteq> []" and "ct \<noteq> []" and "nonce \<noteq> []"
  shows "store_accepts (client_post ''/store'' addr (json_print (NodeStoreRequest_json q))) (store_request q)
    \<lparr>sh_EphemeralPubKey = Some eph, sh_Ciphertext = Some ct, sh_Nonce = Some nonce\<rparr>"
proof -
  have ne: "hex_EncodeToString b = [] \<longleftrightarrow> b = []" for b
    by (metis length_0_conv length_hex_EncodeToString mult_is_0 zero_neq_numeral)
  show ?thesis
    using assms
    by (simp add: store_accepts_def json_Decode_client_post StoreRequest_of_client)
      (simp add: store_request_def client_post_def ne)
qed

text \<open>A store request through the server without an API key, on an open store.\<close>

lemma store_server_outcome:
  assumes "buildMux E cfg = Ok h" and "StoreAPIKey cfg = []" and "globalIPLimiter s = None"
    and "r_Path r = ''/store''" and "r_MaxBytes r = None" and "int (length (r_Body r)) \<le> body_limit cfg"
    and "store_accepts r req share"
  obtains w1 g where "w_code w1 = None"
    and "\<And>t. db (g t) = db t \<and> nodePrivateKey (g t) = nodePrivateKey t \<and> globalIPLimiter (g t) = globalIPLimiter t \<and>
           objectLimiters (g t) = objectLimiters t \<and> sorobanRPCURL (g t) = sorobanRPCURL t"
    and "store_accepts (inner_request cfg r) req share"
    and "h new_writer r s = map_state g (put_share E (inner_request cfg r) req share w1 s)"
proof -
  have health: "HealthCheckPath cfg \<notin> fixed_routes" using assms(1) by (simp add: buildMux_Ok)
  obtain w1 g where w1: "w_code w1 = None"
    and g: "\<And>t. db (g t) = db t \<and> nodePrivateKey (g t) = nodePrivateKey t \<and> globalIPLimiter (g t) = globalIPLimiter t \<and>
           objectLimiters (g t) = objectLimiters t \<and> sorobanRPCURL (g t) = sorobanRPCURL t"
    and h: "h new_writer r s = map_state g (mux_serve (routes E cfg) w1 (inner_request cfg r) s)"
    by (rule buildMux_outcome [OF assms(1,3), of r]) blast
  have acc: "store_accepts (inner_request cfg r) req share"
    using store_accepts_inner [OF assms(5,6)] assms(7) by simp
  have "mux_serve (routes E cfg) w1 (inner_request cfg r) s =
      apiKeyMiddleware E (StoreAPIKey cfg) (mux_serve (storeMux E)) w1 (inner_request cfg r) s"
    by (rule routes_serve [OF health]) (simp add: assms(4) routes_def)
  also have "\<dots> = put_share E (inner_request cfg r) req share w1 s"
    using storeMux_serve(1) [of "inner_request cfg r" E w1 s] assms(2,4) handleStoreShare_accepts [OF acc]
    by (simp add: apiKeyMiddleware_def)
  finally have "h new_writer r s = map_state g (put_share E (inner_request cfg r) req share w1 s)" using h by simp
  with w1 g acc show thesis by (rule that)
qed

lemma store_through_server:
  assumes "buildMux E cfg = Ok h" and "StoreAPIKey cfg = []" and "globalIPLimiter s = None" and "db_good (db s)"
    and "r_Path r = ''/store''" and "r_MaxBytes r = None" and "int (length (r_Body r)) \<le> body_limit cfg"
    and "store_accepts r req share" and "status_of (h new_writer r s) = Some 200"
  shows "db_good (db (outcome_state (h new_writer r s))) \<and>
    BoltStore.content (db (outcome_state (h new_writer r s))) (store_key req) = Some share"
proof (rule store_server_outcome [OF assms(1-3,5-8)], goal_cases out)
  case (out w1 g)
  show ?case
  proof (rule put_share_cases [OF assms(4) out(3), of E w1], goal_cases conflict stored failed)
    case conflict
    then show ?case using assms(9) out(1,4) by (simp add: status_of_def)
  next
    case (stored db')
    then show ?case
      using out(2,4) BoltStore.Save_good [OF assms(4) stored(2)]
        BoltStore.content_Save [OF assms(4) stored(2) store_accepts_ciphertext [OF out(3)]]
      by (simp add: logStoreOutcome_def)
  next
    case (failed e)
    then show ?case using assms(9) out(1,4) by (simp add: status_of_def)
  qed
qed

text \<open>The request succeeds when the key is free and the database takes it.\<close>

lemma store_through_server_200:
  assumes "buildMux E cfg = Ok h" and "StoreAPIKey cfg = []" and "globalIPLimiter s = None" and "db_good (db s)"
    and "r_Path r = ''/store''" and "r_MaxBytes r = None" and "int (length (r_Body r)) \<le> body_limit cfg"
    and "store_accepts r req share" and "BoltStore.content (db s) (store_key req) = None"
    and "saveShare (db s) (store_key req) share = Ok d"
  shows "status_of (h new_writer r s) = Some 200 \<and>
    (let s1 = outcome_state (h new_writer r s)
     in db s1 = d \<and> nodePrivateKey s1 = nodePrivateKey s \<and> globalIPLimiter s1 = None \<and>
        objectLimiters s1 = objectLimiters s \<and> sorobanRPCURL s1 = sorobanRPCURL s)"
proof (rule store_server_outcome [OF assms(1-3,5-8)], goal_cases out)
  case (out w1 g)
  show ?case
  proof (rule put_share_cases [OF assms(4) out(3), of E w1], goal_cases conflict stored failed)
    case conflict
    then show ?case using assms(9) by simp
  next
    case (stored db')
    then show ?case
      using out(1,2,4) assms(3,10) by (simp add: logStoreOutcome_def log_to_audit_def status_of_def json_Encode_code Let_def)
  next
    case (failed e)
    then show ?case using assms(10) by simp
  qed
qed

text \<open>A granted retrieval through the server.\<close>

lemma retrieve_through_server:
  assumes "buildMux E cfg = Ok h" and "globalIPLimiter s = None"
    and "r_Path r = ''/retrieve''" and "r_MaxBytes r = None" and "int (length (r_Body r)) \<le> body_limit cfg"
    and "retrieve_authorized E r s req" and "loadShare (db s) (retrieve_key req) = Ok (stored, True)"
    and "DecryptShare (ne_ext E) (nodePrivateKey s) (slice_bytes (sh_EphemeralPubKey stored))
           (slice_bytes (sh_Ciphertext stored)) (slice_bytes (sh_Nonce stored)) = Ok pt"
  shows "status_of (h new_writer r s) = Some 200"
    and "w_body (outcome_writer (h new_writer r s)) =
      json_print (RetrieveResponse_json (hex_EncodeToString pt)) @ [CHR 0x0A]"
proof -
  have health: "HealthCheckPath cfg \<notin> fixed_routes" using assms(1) by (simp add: buildMux_Ok)
  obtain w1 g where w1: "w_code w1 = None" "w_body w1 = []"
    and h: "h new_writer r s = map_state g (mux_serve (routes E cfg) w1 (inner_request cfg r) s)"
    by (rule buildMux_outcome [OF assms(1,2), of r]) blast
  have auth: "retrieve_authorized E (inner_request cfg r) s req"
    using assms(6) unfolding retrieve_authorized_inner [OF assms(4,5)] .
  have "mux_serve (routes E cfg) w1 (inner_request cfg r) s =
      rateLimitMiddleware E (mux_serve (storeMux E)) w1 (inner_request cfg r) s"
    by (rule routes_serve [OF health]) (simp add: assms(3) routes_def)
  also have "\<dots> = release_share E req w1 (snd (checkObjectRateLimit E (rq_ObjectID req) s))"
    using storeMux_serve(2) [of "inner_request cfg r" E w1 s] assms(2,3) handleRetrieveShare_authorized [OF auth]
    by (simp add: rateLimitMiddleware_def)
  finally have out: "h new_writer r s =
      map_state g (release_share E req w1 (snd (checkObjectRateLimit E (rq_ObjectID req) s)))"
    using h by simp
  show "status_of (h new_writer r s) = Some 200"
    and "w_body (outcome_writer (h new_writer r s)) =
      json_print (RetrieveResponse_json (hex_EncodeToString pt)) @ [CHR 0x0A]"
    using out assms(7,8) w1 by (simp_all add: release_defs status_of_def json_Encode_code)
qed

subsection \<open>Transactions and the allowlist\<close>

lemma built_transaction:
  assumes "xdr_ok X A" and "BuildApproveTransaction X A cid obj caller = Ok tx"
  obtains env objBytes a where "SafeUnmarshalBase64 A tx = Inr env" and "hex_DecodeString obj = Inr objBytes"
    and "invokes X A env cid ''approve'' caller [ScvBytes objBytes, ScvAddress a]"
    and "contract_address X A a = Ok caller"
  using assms
proof (rule BuildApproveTransaction_Ok, goal_cases built)
  case (built env v1 objBytes cidBytes callerBytes)
  let ?a = "\<lparr>sca_Type = ScAddressTypeAccount, sca_AccountId = Some \<lparr>acc_Ed25519 = Some callerBytes\<rparr>,
              sca_ContractId = None\<rparr>"
  have "contract_address X A ?a = Ok caller"
    using xdr_okD(4) [OF assms(1) built(8)] by (simp add: contract_address_def)
  moreover have "invokes X A env cid ''approve'' caller [ScvBytes objBytes, ScvAddress ?a]"
    using built by (simp add: invokes_def contract_address_def)
  ultimately show ?case using built(1) built(2,6) by blast
qed

text \<open>
  The RPC service simulates honestly: for a call of \<open>approve\<close> with an object and an account address
  it reports success exactly when the contract approves that account.
\<close>

definition rpc_honest :: "'lim node_env \<Rightarrow> string \<Rightarrow> contract_state \<Rightarrow> bool" where
  "rpc_honest E url cs \<longleftrightarrow>
     (\<forall>tx env cid src obj a addr.
        SafeUnmarshalBase64 (ne_xdr E) tx = Inr env \<longrightarrow>
        invokes (ne_ext E) (ne_xdr E) env cid ''approve'' src [ScvBytes obj, ScvAddress a] \<longrightarrow>
        contract_address (ne_ext E) (ne_xdr E) a = Ok addr \<longrightarrow>
        (simulateSorobanTx E url tx = Ok True \<longleftrightarrow> contract_approve obj addr cs = Ok ()))"

lemma built_transaction_grants:
  assumes "xdr_ok (ne_ext E) (ne_xdr E)" and "rpc_honest E url cs"
    and "BuildApproveTransaction (ne_ext E) (ne_xdr E) cid obj caller = Ok tx"
  shows "verifySorobanTx (ne_ext E) (ne_xdr E) tx cid ''approve'' caller = Ok () \<and>
    (simulateSorobanTx E url tx = Ok True \<longleftrightarrow> is_allowed caller cs)"
  using assms(1,3)
proof (rule built_transaction, goal_cases built)
  case (built env objBytes a)
  then have "simulateSorobanTx E url tx = Ok True \<longleftrightarrow> contract_approve objBytes caller cs = Ok ()"
    using assms(2) unfolding rpc_honest_def by blast
  then show ?case using built verifySorobanTx_Ok by (auto simp: contract_approve_def)
qed



subsection \<open>Two more properties of a node behind its server\<close>

text \<open>The purge endpoint is not routed: unless the health path covers it, every request for /shares is answered
  404 and leaves the store as it is.\<close>

theorem purge_unreachable:
  assumes "buildMux E cfg = Ok h" and "globalIPLimiter s = None" and "r_Path r = ''/shares''"
    and "\<not> path_matches (HealthCheckPath cfg) ''/shares''"
  shows "status_of (h new_writer r s) = Some 404 \<and> db (outcome_state (h new_writer r s)) = db s"
proof -
  obtain w1 g where w1: "w_code w1 = None" and g: "\<And>t. db (g t) = db t \<and> nodePrivateKey (g t) = nodePrivateKey t \<and>
        globalIPLimiter (g t) = globalIPLimiter t \<and> objectLimiters (g t) = objectLimiters t \<and>
        sorobanRPCURL (g t) = sorobanRPCURL t"
    and h: "h new_writer r s = map_state g (mux_serve (routes E cfg) w1 (inner_request cfg r) s)"
    by (rule buildMux_outcome [OF assms(1,2), of r]) blast
  have "mux_serve (routes E cfg) w1 (inner_request cfg r) s = Served (http_Error ''404 page not found'' 404 w1) s"
    using assms(3,4) by (auto simp: mux_serve_def routes_def path_matches_def)
  then show ?thesis using h w1 g by (simp add: status_of_def)
qed


subsection \<open>End to end\<close>

text \<open>End to end for one node: a share the client encrypts to the node's public key and stores with status 200
  is, after any further requests that neither overwrite nor change the node's key, returned by an
  authorised retrieval as exactly the share, in the form the client decodes.\<close>

theorem share_delivery:
  fixes s s2 :: "('db, 'lim) node_state"
  assumes crypto: "p256_ok X" "ne_ext E = X" "ne_ext E' = X" "p256_Valid X (nodePrivateKey s)"
      "\<And>e. gen = Inr e \<Longrightarrow> p256_Valid X e" "\<And>b. rnd = Inr b \<Longrightarrow> length b = 12"
    and node: "buildMux E cfg = Ok h" "buildMux E' cfg = Ok h'" "StoreAPIKey cfg = []" "db_good (db s)"
      "globalIPLimiter s = None" "key_inv X s"
    and enc: "ECIESEncrypt X gen rnd (nodePublicKey s) share = Ok (eph, ct, nonce)"
    and req: "q = \<lparr>ns_ObjectID = ob, ns_ContractID = c, ns_EphemeralPubKey = hex_EncodeToString eph,
        ns_Ciphertext = hex_EncodeToString ct, ns_Nonce = hex_EncodeToString nonce\<rparr>" "ob \<noteq> []" "c \<noteq> []"
      "r = client_post ''/store'' addr (json_print (NodeStoreRequest_json q))"
      "int (length (r_Body r)) \<le> body_limit cfg" "status_of (h new_writer r s) = Some 200"
    and later: "(node_step X cfg (\<lambda>r. header_get r ''X-Overwrite'' \<noteq> ''true''))\<^sup>*\<^sup>*
        (Serving, outcome_state (h new_writer r s)) (Serving, s2)"
      "nodePrivateKey s2 = nodePrivateKey s" "globalIPLimiter s2 = None"
    and req': "r' = client_post ''/retrieve'' addr' (json_print (NodeRetrieveRequest_json q'))"
      "int (length (r_Body r')) \<le> body_limit cfg" "nr_ObjectID q' = ob" "nr_ContractID q' = c"
      "retrieve_authorized E' r' s2 (retrieve_request q')"
  shows "status_of (h' new_writer r' s2) = Some 200 \<and>
    Option.bind (json_first (w_body (outcome_writer (h' new_writer r' s2)))) (single_field ''decrypted_share'') =
      Some (hex_EncodeToString share)"
proof -
  have pub: "nodePublicKey s = p256_PublicKey X (nodePrivateKey s)" using node(6) by (simp add: key_inv_def)
  have dec: "DecryptShare X (nodePrivateKey s) eph ct nonce = Ok share"
    using ECIES_DecryptShare [OF crypto(1,4,5,6)] enc pub by simp
  have "eph \<noteq> [] \<and> ct \<noteq> [] \<and> nonce \<noteq> []"
    using ECIESEncrypt_nonempty [OF crypto(1,5,6) enc] by blast
  then have acc: "store_accepts r (store_request q)
      \<lparr>sh_EphemeralPubKey = Some eph, sh_Ciphertext = Some ct, sh_Nonce = Some nonce\<rparr>"
    unfolding req(4) using req(1-3) by (intro client_store_accepts) simp_all
  have path: "r_Path r = ''/store''" "r_MaxBytes r = None" "r_Path r' = ''/retrieve''" "r_MaxBytes r' = None"
    using req(4) req'(1) by (simp_all add: client_post_def)
  note stored = store_through_server [OF node(1,3,5,4) path(1,2) req(5) acc req(6)]
  have key: "store_key (store_request q) = share_key c ob" "retrieve_key (retrieve_request q') = share_key c ob"
    using req(1) req'(3,4) by (simp_all add: store_request_def retrieve_request_def)
  have "BoltStore.content (db s2) (share_key c ob) =
      Some \<lparr>sh_EphemeralPubKey = Some eph, sh_Ciphertext = Some ct, sh_Nonce = Some nonce\<rparr>"
    using reach_content(2) [OF later(1)] stored key by simp
  then have load: "loadShare (db s2) (retrieve_key (retrieve_request q')) =
      Ok (\<lparr>sh_EphemeralPubKey = Some eph, sh_Ciphertext = Some ct, sh_Nonce = Some nonce\<rparr>, True)"
    using key by (simp add: BoltStore.content_eq_Some)
  note out = retrieve_through_server [OF node(2) later(3) path(3,4) req'(2,5) load]
  show ?thesis
    using out [of share] dec later(2) crypto(3) single_field_print [of "''decrypted_share''"]
    by (simp add: slice_bytes_def RetrieveResponse_json_def)
qed

subsection \<open>Concrete instances\<close>

text \<open>A contract, an allowed account, one that is not, and a service that grants the one transaction there is.\<close>

definition cid_example :: bytes where
  "cid_example = replicate 32 67"

definition alice_example :: string where
  "alice_example = replicate 32 CHR ''A''"

definition mallory_example :: string where
  "mallory_example = replicate 32 CHR ''M''"

definition contract_example :: contract_state where
  "contract_example = \<lparr>c_Admin = Some ''GADMIN'', c_Name = Some [1], c_Allowed = [alice_example]\<rparr>"

definition account_arg :: "string \<Rightarrow> ScAddress" where
  "account_arg a = \<lparr>sca_Type = ScAddressTypeAccount, sca_AccountId = Some \<lparr>acc_Ed25519 = Some (bytes_of_string a)\<rparr>,
     sca_ContractId = None\<rparr>"

definition grant_example :: json where
  "grant_example = JObj [(''result'', JObj [(''results'', JArr [JObj [(''xdr'', JStr ''AA'')]])])]"

definition call_example :: "string \<Rightarrow> string \<Rightarrow> TransactionEnvelope" where
  "call_example src who = approve_env src cid_example [ScvBytes [10], ScvAddress (account_arg who)]"

text \<open>A node with a given limiter whose RPC service grants the transaction \<open>env\<close>.\<close>

definition granting :: "int limiter_api \<Rightarrow> TransactionEnvelope \<Rightarrow> int node_env" where
  "granting L env = (env_example env (json_print grant_example))\<lparr>ne_rate := L\<rparr>"

definition node_for :: "string \<Rightarrow> string \<Rightarrow> int node_env" where
  "node_for src who = granting limiter_example (call_example src who)"

lemma granting_fields:
  "ne_ext (granting L env) = ext_example" "ne_xdr (granting L env) = xdr_example env" "ne_rate (granting L env) = L"
  "ne_Post (granting L env) u c b = Inr (Inr (json_print grant_example))"
  by (simp_all add: granting_def env_example_def)

lemmas node_for_fields = granting_fields [of limiter_example "call_example src who" for src who, folded node_for_def]

lemma grant_names:
  "fold_name ''result'' = ''result''" "fold_name ''results'' = ''results''" "fold_name ''error'' = ''error''"
  "fold_name ''xdr'' = ''xdr''"
  by code_simp+

lemma simulate_granting: "simulateSorobanTx (granting L env) url tx = Ok True"
proof -
  have "json_ok grant_example" by (simp add: grant_example_def)
  note whole = json_whole_print [OF this]
  have "response_of_json grant_example =
      Some \<lparr>sim_Result = \<lparr>sr_Error = [], sr_Results = [\<lparr>se_Error = [], se_XDR = ''AA''\<rparr>]\<rparr>, sim_Error = None\<rparr>"
    by (simp add: response_of_json_def grant_example_def json_members_def field_values_Cons grant_names
        entry_of_json_def string_field_def)
  then show ?thesis by (simp add: simulateSorobanTx_def granting_fields whole judge_response_def)
qed

lemmas simulate_example = simulate_granting [of limiter_example "call_example src who" for src who, folded node_for_def]

lemma account_arg_address: "contract_address ext_example (xdr_example e0) (account_arg a) = Ok a"
  by (simp add: contract_address_def account_arg_def xdr_example_def)

lemma rpc_honest_granting:
  assumes "is_allowed who cs" and env: "env0 = approve_env src cid [ScvBytes ob, ScvAddress (account_arg who)]"
  shows "rpc_honest (granting L env0) url cs"
proof -
  have "contract_approve obj addr cs = Ok ()"
    if "SafeUnmarshalBase64 (xdr_example env0) tx = Inr env"
      "invokes ext_example A env cid' ''approve'' src' [ScvBytes obj, ScvAddress a]"
      "contract_address ext_example (xdr_example env0) a = Ok addr" for tx env cid' src' obj a addr A
  proof -
    have "env = env0" using that(1) by (simp add: xdr_example_def split: if_splits)
    then have "a = account_arg who" using that(2) by (auto simp: invokes_def env approve_env_def)
    then show ?thesis using that(3) assms by (simp add: account_arg_address contract_approve_def)
  qed
  then show ?thesis by (auto simp: rpc_honest_def granting_fields simulate_granting)
qed

lemma rpc_honest_example: "is_allowed who cs \<Longrightarrow> rpc_honest (node_for src who) url cs"
  unfolding node_for_def by (rule rpc_honest_granting) (simp_all add: call_example_def)

definition retrieve_example :: "string \<Rightarrow> NodeRetrieveRequest" where
  "retrieve_example caller = \<lparr>nr_ObjectID = ''0a'', nr_ContractID = string_of_bytes cid_example,
     nr_CallerAddress = caller, nr_Signature = ''00'', nr_Message = ''00'', nr_TxXDR = ''TX''\<rparr>"

definition retrieve_post :: "string \<Rightarrow> http_request" where
  "retrieve_post caller =
     client_post ''/retrieve'' ''10.0.0.1:9'' (json_print (NodeRetrieveRequest_json (retrieve_example caller)))"

lemma retrieve_post_decodes:
  "r_Method (retrieve_post caller) = ''POST''"
  "Option.bind (json_Decode (retrieve_post caller)) RetrieveRequest_of_json = Some (retrieve_request (retrieve_example caller))"
  by (simp add: retrieve_post_def client_post_def)
    (simp add: retrieve_post_def json_Decode_client_post RetrieveRequest_of_client)

lemma retrieve_request_fields:
  "rq_ObjectID (retrieve_request (retrieve_example caller)) = ''0a''"
  "rq_ContractID (retrieve_request (retrieve_example caller)) = string_of_bytes cid_example"
  "rq_CallerAddress (retrieve_request (retrieve_example caller)) = caller"
  "rq_Signature (retrieve_request (retrieve_example caller)) = ''00''"
  "rq_Message (retrieve_request (retrieve_example caller)) = ''00''"
  "rq_TxXDR (retrieve_request (retrieve_example caller)) = ''TX''"
  by (simp_all add: retrieve_request_def retrieve_example_def)

lemma fresh_quota: "objectLimiters s = [] \<Longrightarrow> fst (checkObjectRateLimit (node_for src who) ob s)"
  by (simp add: checkObjectRateLimit_def object_allow_def node_for_fields limiter_example_def)

lemma signature_example:
  "length caller = 32 \<Longrightarrow> VerifyStellarSignature ext_example caller [0] [0] = Ok True"
  by (simp add: VerifyStellarSignature_def ext_example_def ed25519_PublicKeySize_def)

lemma unmarshal_example: "SafeUnmarshalBase64 (xdr_example env) ''TX'' = Inr env"
  by (simp add: xdr_example_def)

lemma hex_00: "hex_DecodeString ''00'' = Inr [0]"
  by code_simp

lemma cid_not_Nil: "string_of_bytes cid_example \<noteq> []"
  by (simp add: cid_example_def string_of_bytes_def)

lemma retrieve_authorized_example:
  fixes s :: "(alist_db, int) node_state"
  assumes "length caller = 32" and "objectLimiters s = []"
  shows "retrieve_authorized (node_for caller who) (retrieve_post caller) s (retrieve_request (retrieve_example caller))"
proof -
  have "verifySorobanTx ext_example (xdr_example (call_example caller who)) ''TX'' (string_of_bytes cid_example)
      ''approve'' caller = Ok ()"
    unfolding verifySorobanTx_Ok
    using invokes_approve_env [of _ caller cid_example] unmarshal_example unfolding call_example_def by blast
  moreover have "caller \<noteq> []" using assms(1) by auto
  ultimately show ?thesis
    using fresh_quota [OF assms(2)] signature_example [OF assms(1)]
    by (simp add: retrieve_authorized_def retrieve_post_decodes retrieve_request_fields cid_not_Nil hex_00
        node_for_fields simulate_example del: hex_DecodeString.simps)
qed



theorem purge_unreachable_witness:
  "\<exists>h. buildMux node_example config_example = Ok h \<and>
    status_of (h new_writer ((req_from ''10.0.0.1:9'')\<lparr>r_Path := ''/shares'', r_Method := ''DELETE''\<rparr>)
      full_example) = Some 404"
proof -
  obtain h :: "(alist_db, int) node_handler" where h: "buildMux node_example config_example = Ok h"
    using buildMux_example by blast
  have "globalIPLimiter full_example = None" by (simp add: full_example_def state_example_def)
  then show ?thesis
    using h purge_unreachable [OF h, of full_example "(req_from ''10.0.0.1:9'')\<lparr>r_Path := ''/shares'', r_Method := ''DELETE''\<rparr>"]
    by (auto simp: config_example_fields path_matches_def)
qed

lemma length_json_text: "length (json_text t) \<le> 6 * length t + 2"
proof -
  have "length (concat (map json_esc t)) \<le> 6 * length t"
    by (induction t) (simp_all add: json_esc_def)
  then show ?thesis by (simp add: json_text_def)
qed

lemma length_store_json:
  "length (json_print (NodeStoreRequest_json q)) \<le> 200 + 6 * (length (ns_ObjectID q) + length (ns_ContractID q) +
     length (ns_EphemeralPubKey q) + length (ns_Ciphertext q) + length (ns_Nonce q))"
proof -
  have names: "length (json_text ''object_id'') = 11" "length (json_text ''contract_id'') = 13"
      "length (json_text ''ephemeral_pubkey'') = 18" "length (json_text ''ciphertext'') = 12" "length (json_text ''nonce'') = 7"
    by code_simp+
  show ?thesis
    using length_json_text [of "ns_ObjectID q"] length_json_text [of "ns_ContractID q"]
      length_json_text [of "ns_EphemeralPubKey q"] length_json_text [of "ns_Ciphertext q"] length_json_text [of "ns_Nonce q"]
    by (simp add: NodeStoreRequest_json_def names)
qed

lemma length_retrieve_json:
  "length (json_print (NodeRetrieveRequest_json q)) \<le> 200 + 6 * (length (nr_ObjectID q) + length (nr_ContractID q) +
     length (nr_CallerAddress q) + length (nr_Signature q) + length (nr_Message q) + length (nr_TxXDR q))"
proof -
  have names: "length (json_text ''object_id'') = 11" "length (json_text ''contract_id'') = 13"
      "length (json_text ''caller_address'') = 16" "length (json_text ''signature'') = 11" "length (json_text ''message'') = 9"
      "length (json_text ''tx_xdr'') = 8"
    by code_simp+
  show ?thesis
    using length_json_text [of "nr_ObjectID q"] length_json_text [of "nr_ContractID q"]
      length_json_text [of "nr_CallerAddress q"] length_json_text [of "nr_Signature q"] length_json_text [of "nr_Message q"]
      length_json_text [of "nr_TxXDR q"]
    by (simp add: NodeRetrieveRequest_json_def names)
qed

lemma body_limit_example: "body_limit config_example = 10485760"
  by (simp add: config_example_fields wrap64_def)

definition store_example :: "bytes \<Rightarrow> bytes \<Rightarrow> bytes \<Rightarrow> NodeStoreRequest" where
  "store_example eph ct nonce = \<lparr>ns_ObjectID = ''0a'', ns_ContractID = string_of_bytes cid_example,
     ns_EphemeralPubKey = hex_EncodeToString eph, ns_Ciphertext = hex_EncodeToString ct,
     ns_Nonce = hex_EncodeToString nonce\<rparr>"

definition store_post :: "bytes \<Rightarrow> bytes \<Rightarrow> bytes \<Rightarrow> http_request" where
  "store_post eph ct nonce =
     client_post ''/store'' ''10.0.0.1:9'' (json_print (NodeStoreRequest_json (store_example eph ct nonce)))"

lemma store_post_accepts:
  assumes "eph \<noteq> []" "ct \<noteq> []" "nonce \<noteq> []"
  shows "store_accepts (store_post eph ct nonce) (store_request (store_example eph ct nonce))
    \<lparr>sh_EphemeralPubKey = Some eph, sh_Ciphertext = Some ct, sh_Nonce = Some nonce\<rparr>"
  unfolding store_post_def
  by (rule client_store_accepts) (simp_all add: store_example_def cid_not_Nil assms)

lemma store_key_example: "store_key (store_request (store_example eph ct nonce)) = share_key (string_of_bytes cid_example) ''0a''"
  by (simp add: store_request_def store_example_def)

lemma free_example: "BoltStore.content (db state_example) k = None"
  by (simp add: BoltStore.content_def state_example_def loadShare_good)
    (simp add: alist_DB_def alist_bolt_def bucket_bolt_def)

lemma save_example: "\<exists>d. saveShare (db state_example) (share_key c ob) sh = Ok d"
  by (simp add: state_example_def saveShare_alist share_key_def)


theorem share_delivery_witness:
  "\<exists>h h' eph ct. buildMux node_example config_example = Ok h \<and>
    buildMux (node_for alice_example alice_example) config_example = Ok h' \<and>
    ECIESEncrypt ext_example (Inr (replicate 32 2)) (Inr (replicate 12 1)) (nodePublicKey state_example) [9, 8, 7] =
      Ok (eph, ct, replicate 12 1) \<and>
    Option.bind (json_first (w_body (outcome_writer (h' new_writer (retrieve_post alice_example)
      (outcome_state (h new_writer (store_post eph ct (replicate 12 1)) state_example))))))
      (single_field ''decrypted_share'') = Some (hex_EncodeToString [9, 8, 7])"
proof -
  obtain h h' :: "(alist_db, int) node_handler" where h: "buildMux node_example config_example = Ok h"
      "buildMux (node_for alice_example alice_example) config_example = Ok h'"
    using buildMux_example by blast
  let ?n = "replicate 12 (1 :: byte)" and ?e = "replicate 32 (2 :: byte)"
  have key: "p256_Valid ext_example (nodePrivateKey state_example)" "key_inv ext_example state_example"
      "p256_PublicKey ext_example (nodePrivateKey state_example) = nodePublicKey state_example"
      "p256_Valid ext_example ?e" "p256_PublicKey ext_example ?e = ?e"
    by (simp_all add: state_example_def key_inv_def ext_example_def)
  obtain ct where enc: "ECIESEncrypt ext_example (Inr ?e) (Inr ?n) (nodePublicKey state_example) [9, 8, 7] = Ok (?e, ct, ?n)"
      and ct: "length ct = 19"
    using ECIESEncrypt_ok [OF p256_ok_example key(1,4), of ?n "[9, 8, 7]"] key(3,5)
    by (auto simp: gcm_NonceSize_def gcm_max_plain_def gcm_Overhead_def)
  let ?r = "store_post ?e ct ?n" and ?q = "store_request (store_example ?e ct ?n)"
    and ?sh = "\<lparr>sh_EphemeralPubKey = Some ?e, sh_Ciphertext = Some ct, sh_Nonce = Some ?n\<rparr>"
  have init: "db_good (db state_example)" "globalIPLimiter state_example = None" "objectLimiters state_example = []"
    by (simp_all add: state_example_def)
  have acc: "store_accepts ?r ?q ?sh" by (rule store_post_accepts) (use ct in auto)
  obtain d where d: "saveShare (db state_example) (store_key ?q) ?sh = Ok d"
    using save_example unfolding store_key_example by blast
  have fits: "int (length (r_Body ?r)) \<le> body_limit config_example"
    using length_store_json [of "store_example ?e ct ?n"] ct
    by (simp add: body_limit_example store_post_def client_post_def store_example_def cid_example_def)
  have fits': "int (length (r_Body (retrieve_post alice_example))) \<le> body_limit config_example"
    using length_retrieve_json [of "retrieve_example alice_example"]
    by (simp add: body_limit_example retrieve_post_def client_post_def retrieve_example_def cid_example_def alice_example_def)
  have path: "r_Path ?r = ''/store''" "r_MaxBytes ?r = None" by (simp_all add: store_post_def client_post_def)
  note stored = store_through_server_200 [OF h(1) config_example_fields(3) init(2,1) path fits acc free_example d, unfolded Let_def]
  have auth: "retrieve_authorized (node_for alice_example alice_example) (retrieve_post alice_example)
      (outcome_state (h new_writer ?r state_example)) (retrieve_request (retrieve_example alice_example))"
    by (rule retrieve_authorized_example) (use stored init(3) in \<open>simp_all add: alice_example_def\<close>)
  have "ne_ext node_example = ext_example" by (simp add: node_example_def env_example_def)
  note out = share_delivery [OF p256_ok_example this node_for_fields(1) key(1) _ _ h config_example_fields(3) init(1,2)
      key(2) enc store_example_def _ cid_not_Nil store_post_def fits _ rtranclp.rtrancl_refl _ _ retrieve_post_def fits' _ _ auth]
  show ?thesis using h enc out stored init key(4) by (auto simp: retrieve_example_def)
qed

end
