(* ===== verification/Share_Network.thy ===== *)
theory Share_Network
  imports Client_Main
begin

text \<open>
  What the two client commands need from the nodes, as interfaces: nodes that keep the shares
  they acknowledge, and nodes that answer an authorised caller with the share they keep. The
  loops of the commands are treated here once, over any network with these laws.
\<close>

subsection \<open>Distributing shares\<close>

text \<open>
  \<open>ready n u\<close>: the node at \<open>u\<close> takes part; \<open>holds n u c ob sh\<close>: it keeps the share \<open>sh\<close> of
  object \<open>ob\<close> under contract \<open>c\<close>. A node acknowledges one share per object and never loses it to a
  later client.
\<close>

locale share_keepers =
  fixes C :: "'n client_env"
    and ready :: "'n \<Rightarrow> string \<Rightarrow> bool"
    and holds :: "'n \<Rightarrow> string \<Rightarrow> string \<Rightarrow> string \<Rightarrow> bytes \<Rightarrow> bool"
  assumes send_ready: "send_share C c ob node i share n = (res, n') \<Longrightarrow> ready n u \<Longrightarrow> ready n' u"
    and send_holds: "send_share C c ob node i share n = (Ok (), n') \<Longrightarrow> ready n (trim_space node) \<Longrightarrow>
        holds n' (trim_space node) c ob share"
    and send_keeps: "send_share C c ob node i share n = (res, n') \<Longrightarrow> ready n u \<Longrightarrow>
        holds n u c' ob' sh \<Longrightarrow> holds n' u c' ob' sh"
    and send_once: "holds n (trim_space node) c ob sh \<Longrightarrow> ready n (trim_space node) \<Longrightarrow>
        fst (send_share C c ob node i share n) \<noteq> Ok ()"
begin

lemma distribute_keeps:
  assumes "distribute C c ob nodes shares i k n = (res, n')" and "ready n u"
  shows "ready n' u \<and> (holds n u c' ob' sh \<longrightarrow> holds n' u c' ob' sh)"
  using assms
proof (induction k arbitrary: i n)
  case (Suc k)
  show ?case
  proof (cases "i \<ge> length nodes \<or> i \<ge> length shares")
    case False
    obtain r n1 where send: "send_share C c ob (nodes ! i) i (shares ! i) n = (r, n1)" by force
    note keep = send_ready [OF send Suc.prems(2)] send_keeps [OF send Suc.prems(2)]
    show ?thesis
      using Suc.IH [of "Suc i" n1] Suc.prems(1) keep send False by (cases r) auto
  qed (use Suc.prems in auto)
qed simp

text \<open>A distribution that succeeds leaves every share at its node, and no two nodes were the same.\<close>

lemma distribute_holds:
  assumes "distribute C c ob nodes shares i k n = (Ok (), n')"
    and "\<forall>j < k. ready n (trim_space (nodes ! (i + j)))"
  shows "\<forall>j < k. i + j < length nodes \<and> i + j < length shares \<and>
      holds n' (trim_space (nodes ! (i + j))) c ob (shares ! (i + j))"
    and "inj_on (\<lambda>j. trim_space (nodes ! (i + j))) {..<k}"
proof -
  have "(\<forall>j < k. i + j < length nodes \<and> i + j < length shares \<and>
      holds n' (trim_space (nodes ! (i + j))) c ob (shares ! (i + j))) \<and>
      inj_on (\<lambda>j. trim_space (nodes ! (i + j))) {..<k} \<and>
      (\<forall>u sh. ready n u \<longrightarrow> holds n u c ob sh \<longrightarrow> (\<forall>j < k. trim_space (nodes ! (i + j)) \<noteq> u))"
    using assms(1,2)
  proof (induction k arbitrary: i n)
    case (Suc k)
    let ?url = "\<lambda>j. trim_space (nodes ! (i + j))"
    have len: "i < length nodes" "i < length shares" using Suc.prems(1) by (auto split: if_splits)
    obtain n1 where send: "send_share C c ob (nodes ! i) i (shares ! i) n = (Ok (), n1)"
      and rest: "distribute C c ob nodes shares (Suc i) k n1 = (Ok (), n')"
      using Suc.prems(1) len by (auto split: prod.splits result.splits)
    have ready: "ready n (?url j)" if "j < Suc k" for j using Suc.prems(2) that by blast
    have ready1: "\<forall>j < k. ready n1 (trim_space (nodes ! (Suc i + j)))"
      using send_ready [OF send] ready by (metis Suc_mono add_Suc add_Suc_right)
    note IH = Suc.IH [OF rest ready1]
    have url0: "ready n (?url 0)" using ready by blast
    have h0: "holds n1 (?url 0) c ob (shares ! i)" using send_holds [OF send] url0 by simp
    have r0: "ready n1 (?url 0)" using send_ready [OF send url0] .
    have h0': "holds n' (?url 0) c ob (shares ! i)" using distribute_keeps [OF rest r0] h0 by blast
    have apart: "?url (Suc j) \<noteq> ?url 0" if "j < k" for j using IH h0 r0 that by (metis add_Suc add_Suc_right)
    have new: "?url j \<noteq> u" if "ready n u" "holds n u c ob sh" "j < Suc k" for u sh j
    proof (cases j)
      case 0
      show ?thesis
        using send_once [of n "nodes ! i" c ob sh i "shares ! i"] send that url0 0 by auto
    next
      case (Suc l)
      then show ?thesis
        using IH send_ready [OF send that(1)] send_keeps [OF send that(1,2)] that(3) by (metis Suc_less_SucD add_Suc add_Suc_right)
    qed
    have inj: "inj_on ?url {..<Suc k}"
    proof (rule inj_onI)
      fix x y
      assume xy: "x \<in> {..<Suc k}" "y \<in> {..<Suc k}" "?url x = ?url y"
      show "x = y"
      proof (cases x)
        case 0
        then show ?thesis using apart xy by (cases y) auto
      next
        case (Suc x')
        show ?thesis
        proof (cases y)
          case 0
          then show ?thesis using apart xy Suc by auto
        next
          case (Suc y')
          then show ?thesis using IH xy \<open>x = Suc x'\<close> by (auto simp: inj_on_def)
        qed
      qed
    qed
    have all: "i + j < length nodes \<and> i + j < length shares \<and> holds n' (?url j) c ob (shares ! (i + j))" if "j < Suc k" for j
    proof (cases j)
      case (Suc l)
      then show ?thesis using IH that by (metis Suc_less_SucD add_Suc add_Suc_right)
    qed (use h0' len in simp)
    from all inj new show ?case by blast
  qed simp
  then show "\<forall>j < k. i + j < length nodes \<and> i + j < length shares \<and>
      holds n' (trim_space (nodes ! (i + j))) c ob (shares ! (i + j))"
    and "inj_on (\<lambda>j. trim_space (nodes ! (i + j))) {..<k}"
    by blast+
qed

end

subsection \<open>Collecting shares\<close>

text \<open>
  For one request: a node at \<open>u\<close> serves it with the share \<open>sh u\<close> or is down, and asking one node
  changes nothing at the others.
\<close>

locale share_servers =
  fixes C :: "'n client_env" and ob c caller tx :: string and sig msg :: bytes
    and serves :: "'n \<Rightarrow> string \<Rightarrow> bytes \<Rightarrow> bool"
    and down :: "'n \<Rightarrow> string \<Rightarrow> bool"
  assumes served: "serves n u sh \<Longrightarrow>
        fst (retrieveShareFromNode C u ob c caller sig msg tx n) = Ok (hex_EncodeToString sh)"
    and unreachable: "down n u \<Longrightarrow> \<exists>e. fst (retrieveShareFromNode C u ob c caller sig msg tx n) = Err e"
    and local: "retrieveShareFromNode C u ob c caller sig msg tx n = (res, n') \<Longrightarrow> v \<noteq> u \<Longrightarrow>
        (serves n v sh \<longrightarrow> serves n' v sh) \<and> (down n v \<longrightarrow> down n' v)"
begin

lemma collect:
  assumes "md_ObjectID meta = ob" and "md_ContractID meta = c" and "distinct (map trim_space nodes)"
    and "\<forall>u \<in> trim_space ` set nodes. if up u then serves n u (sh u) else down n u"
  shows "fst (collect_shares C meta caller sig msg tx nodes acc n) =
    acc @ take (nat (md_Threshold meta) - length acc) (map sh (filter up (map trim_space nodes)))"
  using assms(3,4)
proof (induction nodes arbitrary: acc n)
  case (Cons node nodes)
  let ?u = "trim_space node"
  obtain res n1 where ask: "retrieveShareFromNode C ?u ob c caller sig msg tx n = (res, n1)" by force
  have rest: "\<forall>u \<in> trim_space ` set nodes. if up u then serves n1 u (sh u) else down n1 u"
  proof
    fix u
    assume u: "u \<in> trim_space ` set nodes"
    then have "u \<noteq> ?u" using Cons.prems(1) by (cases "u = ?u") simp_all
    then show "if up u then serves n1 u (sh u) else down n1 u" using local [OF ask] Cons.prems(2) u by auto
  qed
  note IH = Cons.IH [OF _ rest]
  show ?case
  proof (cases "md_Threshold meta \<le> int (length acc)")
    case False
    show ?thesis
    proof (cases "up ?u")
      case True
      then have "res = Ok (hex_EncodeToString (sh ?u))" using served [of n ?u "sh ?u"] ask Cons.prems(2) by simp
      moreover have "nat (md_Threshold meta) - length acc = Suc (nat (md_Threshold meta) - Suc (length acc))"
        using False by simp
      ultimately show ?thesis using IH [of "acc @ [sh ?u]"] Cons.prems(1) True False ask assms(1,2) by simp
    next
      case down: False
      then obtain e where "res = Err e" using unreachable [of n ?u] ask Cons.prems(2) by auto
      then show ?thesis using IH [of acc] Cons.prems(1) down False ask assms(1,2) by simp
    qed
  qed simp
qed simp

end

subsection \<open>Shamir's scheme\<close>

text \<open>
  hashicorp/vault's package documents: \<open>Split\<close> gives as many parts as asked for, and \<open>Combine\<close> of
  parts of different coordinates, as many as the threshold or more, gives the secret.
\<close>

definition shamir_ok :: "(bytes \<Rightarrow> int \<Rightarrow> int \<Rightarrow> string + bytes list) \<Rightarrow> (bytes list \<Rightarrow> string + bytes) \<Rightarrow> bool" where
  "shamir_ok Split Combine \<longleftrightarrow>
     (\<forall>secret n t shares. Split secret n t = Inr shares \<longrightarrow>
        length shares = nat n \<and>
        (\<forall>js. distinct js \<longrightarrow> set js \<subseteq> {..<nat n} \<longrightarrow> t \<le> int (length js) \<longrightarrow>
           Combine (map ((!) shares) js) = Inr secret))"

end
