(* ===== verification/Go_Json_Prefix.thy ===== *)
theory Go_Json_Prefix
  imports Go_Json
begin

text \<open>
  Truncated requests: no proper prefix of the text of a struct of strings decodes, so a body
  that is cut off at the size limit is never taken for a request.
\<close>

lemma json_esc_shape:
  "json_esc c = [c] \<or> (\<exists>d. json_esc c = [CHR 0x5C, d]) \<or> (\<exists>w x y z. json_esc c = [CHR 0x5C, CHR ''u'', w, x, y, z])"
  unfolding json_esc_def by simp

lemma json_esc_prefix:
  assumes "k < length (json_esc c)"
  shows "p_string (take k (json_esc c)) = None"
  using json_esc_shape [of c]
proof (elim disjE exE)
  fix w x y z
  assume "json_esc c = [CHR 0x5C, CHR ''u'', w, x, y, z]"
  moreover from this assms have "k = 0 \<or> k = 1 \<or> k = 2 \<or> k = 3 \<or> k = 4 \<or> k = 5" by auto
  ultimately show ?thesis by (elim disjE) simp_all
qed (use assms in \<open>auto simp: take_Cons' less_Suc_eq\<close>)

lemma p_string_prefix: "p_string (take k (concat (map json_esc s))) = None"
proof (induction s arbitrary: k)
  case (Cons c s)
  show ?case
  proof (cases "k < length (json_esc c)")
    case True
    then show ?thesis using json_esc_prefix by simp
  next
    case False
    then show ?thesis using p_string_esc [of c] Cons by (simp add: take_append del: p_string.simps)
  qed
qed simp

lemma json_text_prefix:
  assumes "k < length (json_text s)"
  shows "take k (json_text s) = [] \<or> (\<exists>qs. take k (json_text s) = CHR 0x22 # qs \<and> p_string qs = None)"
proof (cases k)
  case (Suc j)
  then have "take k (json_text s) = CHR 0x22 # take j (concat (map json_esc s))"
    using assms by (simp add: json_text_def)
  then show ?thesis using p_string_prefix by blast
qed simp

lemma p_value_text_prefix:
  assumes "k < length (json_text s)"
  shows "p_value n (take k (json_text s)) = None"
  using json_text_prefix [OF assms] by (cases n) (auto simp: json_ws_def)

lemma p_members_key:
  "p_members (Suc n) (json_text m @ CHR '':'' # r) =
     (case p_value n r of None \<Rightarrow> None
      | Some (v, r2) \<Rightarrow> (case skip_ws r2 of [] \<Rightarrow> None
          | e # es \<Rightarrow> if e = CHR '','' then map_option (apfst (Cons (m, v))) (p_members n es)
                      else if e = CHR ''}'' then Some ([(m, v)], es) else None))"
  by (simp add: json_text_Cons p_string_escaped json_ws_def)

lemma p_value_text: "p_value n (json_text s @ r) \<in> {None, Some (JStr s, r)}"
  by (cases n) (simp_all add: json_text_Cons json_ws_def p_string_escaped)

lemma p_members_prefix:
  "k < length (json_print_members (map (apsnd JStr) kvs)) \<Longrightarrow> kvs \<noteq> [] \<Longrightarrow>
   p_members n (take k (json_print_members (map (apsnd JStr) kvs))) = None"
proof (induction kvs arbitrary: n k)
  case (Cons kv kvs)
  obtain m v where kv: "kv = (m, v)" by (cases kv)
  let ?tail = "if kvs = [] then ''}'' else CHR '','' # json_print_members (map (apsnd JStr) kvs)"
  have txt_eq: "json_print_members (map (apsnd JStr) (kv # kvs)) = json_text m @ CHR '':'' # json_text v @ ?tail"
    using kv by (cases kvs) auto
  show ?case
  proof (cases n)
    case (Suc n')
    show ?thesis
    proof (cases "k \<le> length (json_text m)")
      case True
      then consider "k < length (json_text m)" | "k = length (json_text m)" by linarith
      then show ?thesis
      proof cases
        case 1
        then show ?thesis using Suc json_text_prefix [OF 1] unfolding txt_eq by (auto simp: json_ws_def)
      next
        case 2
        then show ?thesis
          using Suc p_string_escaped [of m "[]"] unfolding txt_eq by (simp add: json_text_def json_ws_def)
      qed
    next
      case False
      then obtain j where k: "k = length (json_text m) + Suc j" by (metis less_iff_Suc_add not_le add_Suc_right)
      have "p_members n (take k (json_print_members (map (apsnd JStr) (kv # kvs)))) =
          p_members (Suc n') (json_text m @ CHR '':'' # take j (json_text v @ ?tail))"
        unfolding txt_eq k Suc by simp
      also have "\<dots> = None"
      proof (cases "j < length (json_text v)")
        case True
        then show ?thesis using p_value_text_prefix [OF True, of n'] by (simp add: p_members_key del: p_members.simps)
      next
        case j: False
        let ?i = "j - length (json_text v)"
        have i: "?i < length ?tail" using Cons.prems(1) j unfolding txt_eq k by simp
        have "p_members (Suc n') (json_text m @ CHR '':'' # json_text v @ take ?i ?tail) = None"
        proof (cases ?i)
          case 0
          then show ?thesis using p_value_text [of n' v "[]"] by (auto simp: p_members_key simp del: p_members.simps)
        next
          case (Suc l)
          then have ne: "kvs \<noteq> []" using i by auto
          then have "p_members n' (take l (json_print_members (map (apsnd JStr) kvs))) = None"
            using Cons.IH i Suc by simp
          then show ?thesis
            using p_value_text [of n' v "CHR '','' # take l (json_print_members (map (apsnd JStr) kvs))"] Suc ne
            by (auto simp: p_members_key json_ws_def simp del: p_members.simps)
        qed
        then show ?thesis using j by simp
      qed
      finally show ?thesis .
    qed
  qed simp
qed simp

lemma json_first_prefix:
  assumes "k < length (json_print (json_strings kvs))" and "kvs \<noteq> []"
  shows "json_first (take k (json_print (json_strings kvs))) = None"
proof (cases k)
  case (Suc j)
  let ?m = "take j (json_print_members (map (apsnd JStr) kvs))"
  have none: "p_members n ?m = None" for n using p_members_prefix [OF _ assms(2)] assms(1) Suc by simp
  have "?m = [] \<or> (\<exists>qs. ?m = CHR 0x22 # qs)"
  proof (rule json_print_members_head [of "map (apsnd JStr) kvs"])
    fix cs
    assume "json_print_members (map (apsnd JStr) kvs) = CHR 0x22 # cs"
    then show ?thesis by (cases j) simp_all
  qed (use assms(2) in simp)
  then show ?thesis using none Suc by (auto simp: json_first_def json_ws_def simp del: p_members.simps)
qed (simp add: json_first_def)

end
