(* ===== verification/Network.thy ===== *)
theory Network
  imports Protocol Share_Network Go_Json_Prefix
begin

text \<open>
  A network of nodes: every address is a node state or nothing, and a request of the client is
  served by the handler of the node it is addressed to. The nodes of this network satisfy the
  interfaces the client relies on, which gives the end-to-end property of the two commands.
\<close>

subsection \<open>Serving requests of the client\<close>

record 'lim host =
  h_env :: "'lim node_env"
  h_cfg :: Config
  h_addr :: string             \<comment> \<open>the address the node sees the client at\<close>

type_synonym ('db, 'lim) network = "string \<Rightarrow> ('db, 'lim) node_state option"

text \<open>The path of a node's URL begins at its last slash.\<close>

definition url_path :: "string \<Rightarrow> string" where
  "url_path url = CHR ''/'' # rev (takeWhile (\<lambda>c. c \<noteq> CHR ''/'') (rev url))"

definition url_base :: "string \<Rightarrow> string" where
  "url_base url = take (length url - length (url_path url)) url"

definition net_call :: "(string \<Rightarrow> 'lim host) \<Rightarrow> string \<Rightarrow> (string \<times> string) list \<Rightarrow> string \<Rightarrow> string \<Rightarrow>
    ('db, 'lim) network \<Rightarrow> (string + http_response) \<times> ('db, 'lim) network" where
  "net_call H method header url body N =
     (let u = url_base url
      in case (N u, buildMux (h_env (H u)) (h_cfg (H u))) of
           (Some s, Ok h) \<Rightarrow>
             (let out = h new_writer \<lparr>r_Method = method, r_Path = url_path url, r_Header = header,
                                     r_RemoteAddr = h_addr (H u), r_Body = body, r_MaxBytes = None\<rparr> s;
                  N' = N(u \<mapsto> outcome_state out)
              in case status_of out of
                   None \<Rightarrow> (Inl ''EOF'', N')
                 | Some code \<Rightarrow>
                     (Inr \<lparr>resp_StatusCode = code, resp_Status = show_nat code,
                           resp_Body = w_body (outcome_writer out)\<rparr>, N'))
         | _ \<Rightarrow> (Inl ''connection refused'', N))"

definition net_client :: "(string \<Rightarrow> 'lim host) \<Rightarrow> 'n client_env \<Rightarrow> ('db, 'lim) network client_env" where
  "net_client H C =
     \<lparr>ce_ext = ce_ext C, ce_xdr = ce_xdr C, ce_WriteFile = ce_WriteFile C, ce_key = ce_key C, ce_nonce = ce_nonce C,
      ce_eph = ce_eph C, ce_share_nonce = ce_share_nonce C, ce_Split = ce_Split C, ce_Combine = ce_Combine C,
      ce_Get = (\<lambda>url. net_call H ''GET'' [] url []),
      ce_Post = (\<lambda>url ct body. net_call H ''POST'' [(''Content-Type'', ct)] url body)\<rparr>"

lemma url_parts:
  assumes "CHR ''/'' \<notin> set p"
  shows "url_path (u @ CHR ''/'' # p) = CHR ''/'' # p" and "url_base (u @ CHR ''/'' # p) = u"
proof -
  have "takeWhile (\<lambda>c. c \<noteq> CHR ''/'') (rev (u @ CHR ''/'' # p)) = rev p"
    using assms takeWhile_append2 [of "rev p" "\<lambda>c. c \<noteq> CHR ''/''" "CHR ''/'' # rev u"] by auto
  then show "url_path (u @ CHR ''/'' # p) = CHR ''/'' # p" by (simp add: url_path_def)
  then show "url_base (u @ CHR ''/'' # p) = u" by (simp add: url_base_def)
qed

lemma node_urls [simp]:
  "url_path (u @ ''/public-key'') = ''/public-key''" "url_base (u @ ''/public-key'') = u"
  "url_path (u @ ''/store'') = ''/store''" "url_base (u @ ''/store'') = u"
  "url_path (u @ ''/retrieve'') = ''/retrieve''" "url_base (u @ ''/retrieve'') = u"
  by (rule url_parts [simplified]; simp)+

subsection \<open>A node that is ready\<close>

definition node_ready :: "ext \<Rightarrow> ('db, 'lim) node_state \<Rightarrow> bool" where
  "node_ready X s \<longleftrightarrow> db_good (db s) \<and> key_inv X s \<and> p256_Valid X (nodePrivateKey s) \<and> globalIPLimiter s = None"

interpretation unlimited_inv: state_invariant "\<lambda>s. globalIPLimiter s = None" "\<lambda>r. True" E for E
  by unfold_locales
    (simp_all add: handleStoreShare_frame handleRetrieveShare_keeps [unfolded Let_def] handleRotateKey_frame(2))

text \<open>Any request keeps a node ready as long as it leaves the private key alone.\<close>

lemma node_ready_request:
  assumes "buildMux E cfg = Ok h" and "ne_ext E = X" and "node_ready X s"
    and "nodePrivateKey (outcome_state (h w r s)) = nodePrivateKey s"
  shows "node_ready X (outcome_state (h w r s))"
proof -
  have "key_inv (ne_ext E) s" using assms(2,3) by (simp add: node_ready_def)
  then have "key_inv (ne_ext E) (outcome_state (h w r s))"
    using keys_inv.keeps_buildMux [OF assms(1)] by (simp add: keys_inv.keeps_def)
  then show ?thesis
    using assms(2-4) open_inv.keeps_buildMux [OF assms(1)] unlimited_inv.keeps_buildMux [OF assms(1)]
    by (simp add: node_ready_def open_inv.keeps_def unlimited_inv.keeps_def)
qed

lemma outcome_state_map_state: "outcome_state (map_state g out) = g (outcome_state out) \<or> outcome_state (map_state g out) = outcome_state out"
  by (cases out) simp_all

lemma node_public_key:
  assumes "buildMux E cfg = Ok h" and "ne_ext E = X" and "node_ready X s"
    and "r_Method r = ''GET''" and "r_Path r = ''/public-key''"
  shows "status_of (h new_writer r s) = Some 200"
    and "w_body (outcome_writer (h new_writer r s)) =
      json_print (json_strings [(''public_key'', hex_EncodeToString (p256_PublicKey X (nodePrivateKey s)))]) @ [CHR 0x0A]"
    and "db (outcome_state (h new_writer r s)) = db s"
    and "nodePrivateKey (outcome_state (h new_writer r s)) = nodePrivateKey s"
proof -
  have free: "globalIPLimiter s = None" and pub: "nodePublicKey s = p256_PublicKey X (nodePrivateKey s)"
    using assms(3) by (simp_all add: node_ready_def key_inv_def)
  have health: "HealthCheckPath cfg \<notin> fixed_routes" using assms(1) by (simp add: buildMux_Ok)
  obtain w1 g where w1: "w_code w1 = None" "w_body w1 = []"
    and g: "\<And>t. db (g t) = db t \<and> nodePrivateKey (g t) = nodePrivateKey t \<and> globalIPLimiter (g t) = globalIPLimiter t \<and>
           objectLimiters (g t) = objectLimiters t \<and> sorobanRPCURL (g t) = sorobanRPCURL t"
    and h: "h new_writer r s = map_state g (mux_serve (routes E cfg) w1 (inner_request cfg r) s)"
    by (rule buildMux_outcome [OF assms(1) free, of r]) blast
  have "mux_serve (routes E cfg) w1 (inner_request cfg r) s = handleGetPublicKey w1 (inner_request cfg r) s"
    by (rule routes_serve [OF health]) (simp add: assms(5) routes_def)
  also have "\<dots> = Served (json_Encode (json_strings [(''public_key'', hex_EncodeToString (nodePublicKey s))])
      (header_set ''Content-Type'' ''application/json'' w1)) s"
    using assms(4) by (simp add: handleGetPublicKey_def)
  finally show "status_of (h new_writer r s) = Some 200"
    and "w_body (outcome_writer (h new_writer r s)) =
      json_print (json_strings [(''public_key'', hex_EncodeToString (p256_PublicKey X (nodePrivateKey s)))]) @ [CHR 0x0A]"
    and "db (outcome_state (h new_writer r s)) = db s"
    and "nodePrivateKey (outcome_state (h new_writer r s)) = nodePrivateKey s"
    using h g w1 pub by (simp_all add: status_of_def json_Encode_code)
qed

subsection \<open>Store requests of the client\<close>

text \<open>A truncated request of the client is not decoded, so what the handler accepts is what was sent.\<close>

lemma client_post_decoded:
  assumes "json_Decode (inner_request cfg (client_post path addr (json_print (json_strings kvs)))) = Some v" and "kvs \<noteq> []"
  shows "v = json_strings kvs"
proof -
  let ?body = "json_print (json_strings kvs)"
  let ?r = "inner_request cfg (client_post path addr ?body)"
  have "body_seen ?r = ?body"
  proof (rule ccontr)
    assume "body_seen ?r \<noteq> ?body"
    then have "nat (body_limit cfg) < length ?body" and seen: "body_seen ?r = take (nat (body_limit cfg)) ?body"
      by (auto simp: body_seen_def inner_request_def client_post_def not_le split: if_splits)
    then have "json_first (body_seen ?r) = None" using json_first_prefix [OF _ assms(2)] by simp
    then show False using assms(1) by (simp add: json_Decode_def)
  qed
  then show ?thesis
    using assms(1) json_first_print [of "json_strings kvs" "[]"] by (simp add: json_Decode_def)
qed

lemma store_accepts_client:
  assumes "store_accepts (inner_request cfg (client_post ''/store'' addr (json_print (NodeStoreRequest_json q)))) req share"
  shows "req = store_request q"
proof -
  obtain v where v: "json_Decode (inner_request cfg (client_post ''/store'' addr (json_print (NodeStoreRequest_json q)))) = Some v"
      "StoreRequest_of_json v = Some req"
    using assms by (auto simp: store_accepts_def bind_eq_Some_conv)
  have "v = NodeStoreRequest_json q"
    unfolding NodeStoreRequest_json_def by (rule client_post_decoded [OF v(1) [unfolded NodeStoreRequest_json_def]]) simp
  then show ?thesis using v(2) StoreRequest_of_client by simp
qed

lemma retrieve_authorized_client:
  assumes "retrieve_authorized E (inner_request cfg (client_post ''/retrieve'' addr (json_print (NodeRetrieveRequest_json q)))) s req"
  shows "req = retrieve_request q"
proof -
  obtain v where v: "json_Decode (inner_request cfg (client_post ''/retrieve'' addr (json_print (NodeRetrieveRequest_json q)))) = Some v"
      "RetrieveRequest_of_json v = Some req"
    using assms by (auto simp: retrieve_authorized_def bind_eq_Some_conv)
  have "v = NodeRetrieveRequest_json q"
    unfolding NodeRetrieveRequest_json_def by (rule client_post_decoded [OF v(1) [unfolded NodeRetrieveRequest_json_def]]) simp
  then show ?thesis using v(2) RetrieveRequest_of_client by simp
qed

text \<open>What a store request of the client does to a node that is ready.\<close>

lemma node_store:
  fixes s :: "('db, 'lim) node_state"
  assumes "buildMux E cfg = Ok h" and "ne_ext E = X" and "node_ready X s"
    and r: "r = client_post ''/store'' addr (json_print (NodeStoreRequest_json q))"
  shows "nodePrivateKey (outcome_state (h new_writer r s)) = nodePrivateKey s"
    and "BoltStore.content (db s) \<subseteq>\<^sub>m BoltStore.content (db (outcome_state (h new_writer r s)))"
    and "status_of (h new_writer r s) = Some 200 \<Longrightarrow>
      BoltStore.content (db s) (share_key (ns_ContractID q) (ns_ObjectID q)) = None \<and>
      (\<exists>e c n. hex_DecodeString (ns_EphemeralPubKey q) = Inr e \<and> hex_DecodeString (ns_Ciphertext q) = Inr c \<and>
         hex_DecodeString (ns_Nonce q) = Inr n \<and>
         BoltStore.content (db (outcome_state (h new_writer r s))) (share_key (ns_ContractID q) (ns_ObjectID q)) =
           Some \<lparr>sh_EphemeralPubKey = Some e, sh_Ciphertext = Some c, sh_Nonce = Some n\<rparr>)"
proof -
  let ?in = "inner_request cfg r" and ?mw = "apiKeyMiddleware E (StoreAPIKey cfg) (mux_serve (storeMux E))"
  have good: "db_good (db s)" and free: "globalIPLimiter s = None" using assms(3) by (simp_all add: node_ready_def)
  have health: "HealthCheckPath cfg \<notin> fixed_routes" using assms(1) by (simp add: buildMux_Ok)
  have path: "r_Path r = ''/store''" and over: "header_get r ''X-Overwrite'' \<noteq> ''true''"
    using r by (simp_all add: client_post_def header_get_def)
  obtain w1 g where w1: "w_code w1 = None"
    and g: "\<And>t. db (g t) = db t \<and> nodePrivateKey (g t) = nodePrivateKey t \<and> globalIPLimiter (g t) = globalIPLimiter t \<and>
           objectLimiters (g t) = objectLimiters t \<and> sorobanRPCURL (g t) = sorobanRPCURL t"
    and h: "h new_writer r s = map_state g (mux_serve (routes E cfg) w1 ?in s)"
    by (rule buildMux_outcome [OF assms(1) free, of r]) blast
  have "mux_serve (routes E cfg) w1 ?in s = ?mw w1 ?in s"
    by (rule routes_serve [OF health]) (simp add: path routes_def)
  with h have out: "h new_writer r s = map_state g (?mw w1 ?in s)" by simp
  have mux: "mux_serve (storeMux E) w ?in t = handleStoreShare E w ?in t" for w and t :: "('db, 'lim) node_state"
    using storeMux_serve(1) [of ?in] path by simp
  have same: "db (outcome_state (h new_writer r s)) = db (outcome_state (?mw w1 ?in s))"
      "nodePrivateKey (outcome_state (h new_writer r s)) = nodePrivateKey (outcome_state (?mw w1 ?in s))"
    using outcome_state_map_state [of g "?mw w1 ?in s"] g out by auto
  show "nodePrivateKey (outcome_state (h new_writer r s)) = nodePrivateKey s"
    using same(2) by (simp add: apiKeyMiddleware_def mux handleStoreShare_frame)
  show "BoltStore.content (db s) \<subseteq>\<^sub>m BoltStore.content (db (outcome_state (h new_writer r s)))"
    using once_inv.keeps_buildMux [OF assms(1), where m = "BoltStore.content (db s)"] over good
    by (auto simp: once_inv.keeps_def)
  assume ok: "status_of (h new_writer r s) = Some 200"
  have admitted: "StoreAPIKey cfg = [] \<or> header_get ?in ''X-Api-Key'' = StoreAPIKey cfg"
  proof (rule ccontr)
    assume "\<not> ?thesis"
    then have "status_of (?mw w1 ?in s) = Some 401" by (rule api_key.rejected_status [OF _ w1])
    then show False using ok out by simp
  qed
  have hs: "?mw w1 ?in s = handleStoreShare E w1 ?in s" 
    using admitted mux [of w1 s] by (auto simp: apiKeyMiddleware_def secureStringEqual_eq)
  have "\<exists>req share. store_accepts ?in req share"
  proof (rule ccontr)
    assume "\<not> ?thesis"
    then obtain w' where "handleStoreShare E w1 ?in s = Served w' s" "w_code w' \<in> {Some 400, Some 405}"
      using handleStoreShare_rejects [of ?in E w1 s] w1 by blast
    then show False using ok out hs by (auto simp: status_of_def)
  qed
  then obtain req share where acc: "store_accepts ?in req share" by blast
  have req: "req = store_request q" using store_accepts_client acc unfolding r by blast
  have key: "store_key req = share_key (ns_ContractID q) (ns_ObjectID q)" by (simp add: req store_request_def)
  obtain e c n where hex: "hex_DecodeString (ns_EphemeralPubKey q) = Inr e" "hex_DecodeString (ns_Ciphertext q) = Inr c"
      "hex_DecodeString (ns_Nonce q) = Inr n" "share = \<lparr>sh_EphemeralPubKey = Some e, sh_Ciphertext = Some c, sh_Nonce = Some n\<rparr>"
    using acc by (auto simp: store_accepts_def req store_request_def)
  have "BoltStore.content (db s) (store_key req) = None \<and>
      BoltStore.content (db (outcome_state (handleStoreShare E w1 ?in s))) (store_key req) = Some share"
  proof (rule put_share_cases [OF good acc, of E w1], goal_cases conflict stored failed)
    case (stored db')
    then show ?case
      using BoltStore.content_Save [OF good stored(2) store_accepts_ciphertext [OF acc]] over
      by (simp add: handleStoreShare_accepts [OF acc] logStoreOutcome_def)
  qed (use ok out hs w1 in \<open>simp_all add: handleStoreShare_accepts [OF acc] status_of_def\<close>)
  then show "BoltStore.content (db s) (share_key (ns_ContractID q) (ns_ObjectID q)) = None \<and>
      (\<exists>e c n. hex_DecodeString (ns_EphemeralPubKey q) = Inr e \<and> hex_DecodeString (ns_Ciphertext q) = Inr c \<and>
         hex_DecodeString (ns_Nonce q) = Inr n \<and>
         BoltStore.content (db (outcome_state (h new_writer r s))) (share_key (ns_ContractID q) (ns_ObjectID q)) =
           Some \<lparr>sh_EphemeralPubKey = Some e, sh_Ciphertext = Some c, sh_Nonce = Some n\<rparr>)"
    using key hex same(1) hs by simp
qed

subsection \<open>The network keeps shares\<close>

text \<open>\<open>holds\<close>: the node has a record of the object that its key decrypts to the share.\<close>

definition net_holds :: "ext \<Rightarrow> ('db, 'lim) network \<Rightarrow> string \<Rightarrow> string \<Rightarrow> string \<Rightarrow> bytes \<Rightarrow> bool" where
  "net_holds X N u c ob sh \<longleftrightarrow>
     (\<exists>s e ct nonce. N u = Some s \<and>
        BoltStore.content (db s) (share_key c ob) =
          Some \<lparr>sh_EphemeralPubKey = Some e, sh_Ciphertext = Some ct, sh_Nonce = Some nonce\<rparr> \<and>
        DecryptShare X (nodePrivateKey s) e ct nonce = Ok sh)"

text \<open>The randomness of the client is what the library promises: valid ephemeral keys and 12-byte nonces.\<close>

definition client_random :: "'n client_env \<Rightarrow> bool" where
  "client_random C \<longleftrightarrow>
     (\<forall>i e. ce_eph C i = Inr e \<longrightarrow> p256_Valid (ce_ext C) e) \<and> (\<forall>i b. ce_share_nonce C i = Inr b \<longrightarrow> length b = 12) \<and>
     (\<forall>b. ce_nonce C = Inr b \<longrightarrow> length b = 12)"

text \<open>A node the client can work with: same cryptography, and ready to serve.\<close>

definition net_ready :: "(string \<Rightarrow> 'lim host) \<Rightarrow> 'n client_env \<Rightarrow> ('db, 'lim) network \<Rightarrow> string \<Rightarrow> bool" where
  "net_ready H C N u \<longleftrightarrow>
     p256_ok (ce_ext C) \<and> client_random C \<and> ne_ext (h_env (H u)) = ce_ext C \<and>
     (\<exists>s. N u = Some s \<and> node_ready (ce_ext C) s)"

text \<open>A call to a node, seen from the client.\<close>

lemma net_call_local: "net_call H m hdr url body N = (resp, N') \<Longrightarrow> v \<noteq> url_base url \<Longrightarrow> N' v = N v"
  by (auto simp: net_call_def Let_def split: option.splits result.splits)

lemma net_call_cases:
  fixes N :: "('db, 'lim) network"
  assumes "net_call H m hdr url body N = (resp, N')" and "N (url_base url) = Some s"
  obtains (refused) e where "resp = Inl e" and "N' = N"
  | (served) h out where "buildMux (h_env (H (url_base url))) (h_cfg (H (url_base url))) = Ok h"
      and "out = h new_writer \<lparr>r_Method = m, r_Path = url_path url, r_Header = hdr,
            r_RemoteAddr = h_addr (H (url_base url)), r_Body = body, r_MaxBytes = None\<rparr> s"
      and "N' = N(url_base url \<mapsto> outcome_state out)"
      and "resp = (case status_of out of None \<Rightarrow> Inl ''EOF''
           | Some code \<Rightarrow> Inr \<lparr>resp_StatusCode = code, resp_Status = show_nat code,
                           resp_Body = w_body (outcome_writer out)\<rparr>)"
proof (cases "buildMux (h_env (H (url_base url))) (h_cfg (H (url_base url))) :: ('db, 'lim) node_handler result")
  case (Ok h)
  show thesis
    by (rule served [OF Ok refl]) (use assms Ok in \<open>auto simp: net_call_def Let_def split: option.splits\<close>)
qed (use assms refused in \<open>auto simp: net_call_def Let_def\<close>)

lemma net_client_fields [simp]:
  "ce_ext (net_client H C) = ce_ext C" "ce_xdr (net_client H C) = ce_xdr C" "ce_eph (net_client H C) = ce_eph C"
  "ce_share_nonce (net_client H C) = ce_share_nonce C" "ce_key (net_client H C) = ce_key C"
  "ce_nonce (net_client H C) = ce_nonce C" "ce_WriteFile (net_client H C) = ce_WriteFile C"
  "ce_Split (net_client H C) = ce_Split C" "ce_Combine (net_client H C) = ce_Combine C"
  "ce_Get (net_client H C) url = net_call H ''GET'' [] url []"
  "ce_Post (net_client H C) url ct body = net_call H ''POST'' [(''Content-Type'', ct)] url body"
  by (simp_all add: net_client_def)

lemma helpers_local:
  "fetchNodePublicKey (net_client H C) u N = (res, N') \<Longrightarrow> v \<noteq> u \<Longrightarrow> N' v = N v"
  "storeShareOnNode (net_client H C) u c ob eph ct nonce N = (res', N') \<Longrightarrow> v \<noteq> u \<Longrightarrow> N' v = N v"
  "retrieveShareFromNode (net_client H C) u ob c caller sig msg tx N = (res, N') \<Longrightarrow> v \<noteq> u \<Longrightarrow> N' v = N v"
  using net_call_local
  by (fastforce simp: fetchNodePublicKey_def storeShareOnNode_def retrieveShareFromNode_def Let_def
      split: sum.splits prod.splits if_splits option.splits)+

lemma fetch_net:
  assumes "fetchNodePublicKey (net_client H C) u N = (res, N')" and "N u = Some s" and "node_ready X s"
    and "ne_ext (h_env (H u)) = X"
  obtains s' where "N' = N(u \<mapsto> s')" and "node_ready X s'" and "db s' = db s" and "nodePrivateKey s' = nodePrivateKey s"
    and "\<And>k. res = Ok k \<Longrightarrow> k = hex_EncodeToString (p256_PublicKey X (nodePrivateKey s))"
proof -
  obtain resp where call: "net_call H ''GET'' [] (u @ ''/public-key'') [] N = (resp, N')"
    using assms(1) by (auto simp: fetchNodePublicKey_def split: sum.splits prod.splits if_splits option.splits)
  have base: "N (url_base (u @ ''/public-key'')) = Some s" using assms(2) by simp
  show thesis
    using call base
  proof (cases rule: net_call_cases)
    case (refused e)
    then show thesis using that [of s] assms(1-3) call by (auto simp: fetchNodePublicKey_def fun_upd_idem)
  next
    case (served h out)
    let ?r = "\<lparr>r_Method = ''GET'', r_Path = ''/public-key'', r_Header = [], r_RemoteAddr = h_addr (H u), r_Body = [], r_MaxBytes = None\<rparr>"
    have h: "buildMux (h_env (H u)) (h_cfg (H u)) = Ok h" and out: "out = h new_writer ?r s"
      using served(1,2) by simp_all
    note pk = node_public_key [OF h assms(4,3), of ?r, simplified, folded out]
    have "node_ready X (outcome_state out)"
      unfolding out by (rule node_ready_request [OF h assms(4,3)]) (use pk(4) out in simp)
    moreover have "k = hex_EncodeToString (p256_PublicKey X (nodePrivateKey s))" if "res = Ok k" for k
      using assms(1) that call served(4) pk(1,2) single_field_print [of "''public_key''"]
      by (auto simp: fetchNodePublicKey_def split: if_splits option.splits)
    ultimately show thesis using that [of "outcome_state out"] served(3) pk(3,4) by simp
  qed
qed

lemma store_net:
  assumes "storeShareOnNode (net_client H C) u c ob eph ct nonce N = (res, N')" and "N u = Some s" and "node_ready X s"
    and "ne_ext (h_env (H u)) = X"
  obtains s' where "N' = N(u \<mapsto> s')" and "node_ready X s'" and "nodePrivateKey s' = nodePrivateKey s"
    and "BoltStore.content (db s) \<subseteq>\<^sub>m BoltStore.content (db s')"
    and "res = Ok () \<Longrightarrow> BoltStore.content (db s) (share_key c ob) = None \<and>
      BoltStore.content (db s') (share_key c ob) =
        Some \<lparr>sh_EphemeralPubKey = Some eph, sh_Ciphertext = Some ct, sh_Nonce = Some nonce\<rparr>"
proof -
  let ?q = "\<lparr>ns_ObjectID = ob, ns_ContractID = c, ns_EphemeralPubKey = hex_EncodeToString eph,
       ns_Ciphertext = hex_EncodeToString ct, ns_Nonce = hex_EncodeToString nonce\<rparr>"
  let ?b = "json_print (NodeStoreRequest_json ?q)"
  obtain resp where call: "net_call H ''POST'' [(''Content-Type'', ''application/json'')] (u @ ''/store'') ?b N = (resp, N')"
    using assms(1) by (auto simp: storeShareOnNode_def Let_def split: sum.splits prod.splits if_splits)
  have base: "N (url_base (u @ ''/store'')) = Some s" using assms(2) by simp
  show thesis
    using call base
  proof (cases rule: net_call_cases)
    case (refused e)
    then show thesis
      using that [of s] assms(1-3) call by (auto simp: storeShareOnNode_def Let_def fun_upd_idem)
  next
    case (served h out)
    have h: "buildMux (h_env (H u)) (h_cfg (H u)) = Ok h"
      and out: "out = h new_writer (client_post ''/store'' (h_addr (H u)) ?b) s"
      using served(1,2) by (simp_all add: client_post_def)
    note st = node_store [OF h assms(4,3) refl, of "h_addr (H u)" ?q, folded out]
    have "node_ready X (outcome_state out)"
      unfolding out by (rule node_ready_request [OF h assms(4,3)]) (use st(1) out in simp)
    moreover have "status_of out = Some 200" if "res = Ok ()"
      using assms(1) that call served(4)
      by (auto simp: storeShareOnNode_def Let_def split: if_splits option.splits)
    ultimately show thesis using that [of "outcome_state out"] served(3) st by auto
  qed
qed

text \<open>Sending a share to a node that is ready.\<close>

lemma send_net:
  fixes C :: "'n client_env"
  assumes "send_share (net_client H C) c ob node i share N = (res, N')" and "net_ready H C N (trim_space node)"
  obtains s s' where "N (trim_space node) = Some s" and "N' = N(trim_space node \<mapsto> s')"
    and "node_ready (ce_ext C) s'" and "nodePrivateKey s' = nodePrivateKey s"
    and "BoltStore.content (db s) \<subseteq>\<^sub>m BoltStore.content (db s')"
    and "res = Ok () \<Longrightarrow> BoltStore.content (db s) (share_key c ob) = None \<and> net_holds (ce_ext C) N' (trim_space node) c ob share"
proof -
  let ?u = "trim_space node" and ?X = "ce_ext C"
  obtain s where s: "N ?u = Some s" "node_ready ?X s" and env: "ne_ext (h_env (H ?u)) = ?X" "p256_ok ?X" "client_random C"
    using assms(2) by (auto simp: net_ready_def)
  obtain r1 N1 where fetch: "fetchNodePublicKey (net_client H C) ?u N = (r1, N1)" by force
  obtain s1 where s1: "N1 = N(?u \<mapsto> s1)" "node_ready ?X s1" "db s1 = db s" "nodePrivateKey s1 = nodePrivateKey s"
    and pub: "\<And>k. r1 = Ok k \<Longrightarrow> k = hex_EncodeToString (p256_PublicKey ?X (nodePrivateKey s))"
    by (rule fetch_net [OF fetch s env(1)]) blast
  show thesis
  proof (cases "\<exists>pk. r1 = Ok pk \<and> (\<exists>eph ct nonce.
      ECIESEncrypt ?X (ce_eph C i) (ce_share_nonce C i) (p256_PublicKey ?X (nodePrivateKey s)) share = Ok (eph, ct, nonce))")
    case True
    then obtain eph ct nonce where r1: "r1 = Ok (hex_EncodeToString (p256_PublicKey ?X (nodePrivateKey s)))"
      and enc: "ECIESEncrypt ?X (ce_eph C i) (ce_share_nonce C i) (p256_PublicKey ?X (nodePrivateKey s)) share = Ok (eph, ct, nonce)"
      using pub by blast
    obtain r2 N2 where store: "storeShareOnNode (net_client H C) ?u c ob eph ct nonce N1 = (r2, N2)" by force
    have "N1 ?u = Some s1" using s1(1) by simp
    obtain s2 where s2: "N2 = N1(?u \<mapsto> s2)" "node_ready ?X s2" "nodePrivateKey s2 = nodePrivateKey s1"
      "BoltStore.content (db s1) \<subseteq>\<^sub>m BoltStore.content (db s2)"
      and kept: "r2 = Ok () \<Longrightarrow> BoltStore.content (db s1) (share_key c ob) = None \<and>
        BoltStore.content (db s2) (share_key c ob) =
          Some \<lparr>sh_EphemeralPubKey = Some eph, sh_Ciphertext = Some ct, sh_Nonce = Some nonce\<rparr>"
      by (rule store_net [OF store \<open>N1 ?u = Some s1\<close> s1(2) env(1)]) blast
    have N': "N' = N2" "res = Ok () \<longleftrightarrow> r2 = Ok ()"
      using assms(1) fetch r1 enc store by (auto simp: send_share_def Let_def split: result.splits)
    have "DecryptShare ?X (nodePrivateKey s) eph ct nonce = Ok share"
      using ECIES_DecryptShare [OF env(2) _ _ _ enc] s(2) env(3) by (simp add: node_ready_def client_random_def)
    then have "net_holds ?X N' ?u c ob share" if "res = Ok ()"
      using kept that N' s1 s2 by (simp add: net_holds_def)
    then show thesis
      using that [OF s(1), of s2] s1 s2 N' kept by simp
  next
    case False
    then have "N' = N1" "res \<noteq> Ok ()"
      using assms(1) fetch pub
      by (auto simp: send_share_def Let_def split: result.splits prod.splits)
    then show thesis using that [OF s(1), of s1] s1 by simp
  qed
qed

lemma send_local:
  assumes "send_share (net_client H C) c ob node i share N = (res, N')" and "v \<noteq> trim_space node"
  shows "N' v = N v"
proof -
  obtain r1 N1 where fetch: "fetchNodePublicKey (net_client H C) (trim_space node) N = (r1, N1)" by force
  note here = helpers_local(1) [OF fetch assms(2)]
  have "N'' v = N1 v" if "storeShareOnNode (net_client H C) (trim_space node) c ob e ct nonce N1 = (r2, N'')" for e ct nonce r2 N''
    using helpers_local(2) [OF that assms(2)] .
  then show ?thesis
    using assms(1) fetch here
    by (auto simp: send_share_def Let_def split: result.splits prod.splits sum.splits)
qed

interpretation net_keepers: share_keepers "net_client H C" "net_ready H C" "net_holds (ce_ext C)" for H C
proof (unfold_locales, goal_cases ready holds keeps once)
  case (ready c ob node i share N res N' u)
  show ?case
  proof (cases "u = trim_space node")
    case True
    then show ?thesis using ready by (auto elim!: send_net simp: net_ready_def)
  next
    case False
    then show ?thesis using ready(2) send_local [OF ready(1) False] by (simp add: net_ready_def)
  qed
next
  case (holds c ob node i share N N')
  then show ?case by (auto elim: send_net)
next
  case (keeps c ob node i share N res N' u c' ob' sh)
  show ?case
  proof (cases "u = trim_space node")
    case True
    have send: "net_ready H C N (trim_space node)" using keeps(2) True by simp
    show ?thesis
    proof (rule send_net [OF keeps(1) send], goal_cases sent)
      case (sent s s')
      then show ?case using keeps(3) True by (auto simp: net_holds_def map_le_def dom_def)
    qed
  next
    case False
    then show ?thesis using keeps(3) send_local [OF keeps(1) False] by (simp add: net_holds_def)
  qed
next
  case (once N node c ob sh i share)
  obtain res N' where send: "send_share (net_client H C) c ob node i share N = (res, N')" by force
  show ?case
  proof (rule send_net [OF send once(2)], goal_cases sent)
    case (sent s s')
    then show ?case using once(1) send by (auto simp: net_holds_def)
  qed
qed

subsection \<open>The network serves shares\<close>

abbreviation share_request :: "string \<Rightarrow> string \<Rightarrow> string \<Rightarrow> bytes \<Rightarrow> bytes \<Rightarrow> string \<Rightarrow> NodeRetrieveRequest" where
  "share_request ob c caller sig msg tx \<equiv>
     \<lparr>nr_ObjectID = ob, nr_ContractID = c, nr_CallerAddress = caller, nr_Signature = hex_EncodeToString sig,
      nr_Message = hex_EncodeToString msg, nr_TxXDR = tx\<rparr>"

text \<open>A node that grants a request of the client: it is routed, fits the body limit and passes every check.\<close>

definition net_grants :: "(string \<Rightarrow> 'lim host) \<Rightarrow> ext \<Rightarrow> ('db, 'lim) network \<Rightarrow> string \<Rightarrow> NodeRetrieveRequest \<Rightarrow> bool" where
  "net_grants H X N u q \<longleftrightarrow>
     (let body = json_print (NodeRetrieveRequest_json q)
      in ne_ext (h_env (H u)) = X \<and> int (length body) \<le> body_limit (h_cfg (H u)) \<and>
         HealthCheckPath (h_cfg (H u)) \<notin> fixed_routes \<and> plain_path (HealthCheckPath (h_cfg (H u))) \<and>
         (\<exists>s. N u = Some s \<and> globalIPLimiter s = None \<and>
              retrieve_authorized (h_env (H u)) (client_post ''/retrieve'' (h_addr (H u)) body) s (retrieve_request q)))"

lemma retrieve_net:
  fixes N :: "('db, 'lim) network"
  assumes "net_grants H (ce_ext C) N u (share_request ob c caller sig msg tx)" and "net_holds (ce_ext C) N u c ob sh"
  shows "fst (retrieveShareFromNode (net_client H C) u ob c caller sig msg tx N) = Ok (hex_EncodeToString sh)"
proof -
  let ?q = "share_request ob c caller sig msg tx"
  let ?b = "json_print (NodeRetrieveRequest_json ?q)"
  let ?r = "client_post ''/retrieve'' (h_addr (H u)) ?b"
  obtain s where s: "N u = Some s" "globalIPLimiter s = None" "ne_ext (h_env (H u)) = ce_ext C"
      "int (length ?b) \<le> body_limit (h_cfg (H u))" "retrieve_authorized (h_env (H u)) ?r s (retrieve_request ?q)"
    using assms(1) by (auto simp: net_grants_def Let_def)
  obtain h :: "('db, 'lim) node_handler" where h: "buildMux (h_env (H u)) (h_cfg (H u)) = Ok h"
    using assms(1) buildMux_Ok [of "h_env (H u)" "h_cfg (H u)"] by (auto simp: net_grants_def Let_def)
  obtain e ct nonce where c: "BoltStore.content (db s) (share_key c ob) =
          Some \<lparr>sh_EphemeralPubKey = Some e, sh_Ciphertext = Some ct, sh_Nonce = Some nonce\<rparr>"
      "DecryptShare (ce_ext C) (nodePrivateKey s) e ct nonce = Ok sh"
    using assms(2) s(1) by (auto simp: net_holds_def)
  have load: "loadShare (db s) (retrieve_key (retrieve_request ?q)) =
      Ok (\<lparr>sh_EphemeralPubKey = Some e, sh_Ciphertext = Some ct, sh_Nonce = Some nonce\<rparr>, True)"
    using c(1) by (simp add: BoltStore.content_eq_Some retrieve_request_def)
  have fits: "int (length (r_Body ?r)) \<le> body_limit (h_cfg (H u))" and r: "r_Path ?r = ''/retrieve''" "r_MaxBytes ?r = None"
    using s(4) by (simp_all add: client_post_def)
  note out = retrieve_through_server [OF h s(2) r fits s(5) load, of sh]
  have "status_of (h new_writer ?r s) = Some 200"
      "w_body (outcome_writer (h new_writer ?r s)) = json_print (RetrieveResponse_json (hex_EncodeToString sh)) @ [CHR 0x0A]"
    using out s(3) c(2) by (simp_all add: slice_bytes_def)
  then show ?thesis
    using s(1) h single_field_print [of "''decrypted_share''"]
    by (simp add: retrieveShareFromNode_def Let_def net_call_def RetrieveResponse_json_def client_post_def)
qed

interpretation net_servers: share_servers "net_client H C" ob c caller tx sig msg
    "\<lambda>N u sh. net_grants H (ce_ext C) N u (share_request ob c caller sig msg tx) \<and> net_holds (ce_ext C) N u c ob sh"
    "\<lambda>N u. N u = None" for H C ob c caller tx sig msg
proof (unfold_locales, goal_cases served down local)
  case (served N u sh)
  then show ?case using retrieve_net by blast
next
  case (down N u)
  then show ?case by (simp add: retrieveShareFromNode_def Let_def net_call_def)
next
  case (local u N res N' v sh)
  have "N' v = N v" using helpers_local(3) [OF local(1,2)] .
  then show ?case by (simp add: net_grants_def net_holds_def)
qed

end
