(* ===== verification/End_To_End.thy ===== *)
theory End_To_End
  imports Network
begin

text \<open>
  The two commands of the client against a network of nodes: what encryption leaves at the nodes,
  which requests an honest node grants, and when the file comes back.
\<close>

subsection \<open>End to end\<close>

text \<open>A network at a later time: some nodes may be down; the others have served requests that neither overwrite a share
  nor change the key.\<close>

definition net_later :: "ext \<Rightarrow> (string \<Rightarrow> 'lim host) \<Rightarrow> ('db, 'lim) network \<Rightarrow> ('db, 'lim) network \<Rightarrow> bool" where
  "net_later X H N N' \<longleftrightarrow>
     (\<forall>u s'. N' u = Some s' \<longrightarrow>
        (\<exists>s. N u = Some s \<and> nodePrivateKey s' = nodePrivateKey s \<and>
           (node_step X (h_cfg (H u)) (\<lambda>r. header_get r ''X-Overwrite'' \<noteq> ''true''))\<^sup>*\<^sup>* (Serving, s) (Serving, s')))"

lemma net_later_holds:
  assumes "net_later X H N N'" and "net_holds X N u c ob sh" and "N' u \<noteq> None"
    and "\<And>s. N u = Some s \<Longrightarrow> db_good (db s)"
  shows "net_holds X N' u c ob sh"
proof -
  obtain s e ct nonce where s: "N u = Some s"
      "BoltStore.content (db s) (share_key c ob) =
          Some \<lparr>sh_EphemeralPubKey = Some e, sh_Ciphertext = Some ct, sh_Nonce = Some nonce\<rparr>"
      "DecryptShare X (nodePrivateKey s) e ct nonce = Ok sh"
    using assms(2) by (auto simp: net_holds_def)
  obtain s' where s': "N' u = Some s'" "nodePrivateKey s' = nodePrivateKey s"
      "(node_step X (h_cfg (H u)) (\<lambda>r. header_get r ''X-Overwrite'' \<noteq> ''true''))\<^sup>*\<^sup>* (Serving, s) (Serving, s')"
    using assms(1,3) s(1) unfolding net_later_def by fastforce
  have "BoltStore.content (db s') (share_key c ob) = BoltStore.content (db s) (share_key c ob)"
    using reach_content(2) [OF s'(3) _ assms(4) [OF s(1)] s(2)] s(2) by simp
  then show ?thesis using s s' by (simp add: net_holds_def)
qed

text \<open>What the decrypt command sends to the nodes.\<close>

definition decrypt_request :: "'n client_env \<Rightarrow> string \<Rightarrow> Metadata \<Rightarrow> (string \<times> bytes \<times> bytes \<times> string) result" where
  "decrypt_request C seed meta =
     bind_result (GetAddressFromSeed (ce_ext C) seed) (\<lambda>caller.
     bind_result (BuildApproveTransaction (ce_ext C) (ce_xdr C) (md_ContractID meta) (md_ObjectID meta) caller) (\<lambda>tx.
       let msg = bytes_of_string (md_ObjectID meta @ ''_'' @ md_ContractID meta)
       in bind_result (SignPayload (ce_ext C) seed msg) (\<lambda>sig. Ok (caller, sig, msg, tx))))"

lemma handleDecrypt_steps:
  assumes "df_file f \<noteq> []" "df_meta f \<noteq> []" "df_seed f \<noteq> []" "df_out f \<noteq> []"
    and "fs (df_file f) = Some (nonce @ ct)" and "length nonce = 12"
    and "fs (df_meta f) = Some metaBytes"
    and "Option.bind (json_whole (string_of_bytes metaBytes)) Metadata_of_json = Some meta"
    and "decrypt_request C (df_seed f) meta = Ok (caller, sig, msg, tx)"
    and "fst (collect_shares C meta caller sig msg tx (md_Nodes meta) [] n) = shares"
    and "md_Threshold meta \<le> int (length shares)" and "ce_Combine C shares = Inr sk"
    and "SymmetricDecrypt (ce_ext C) sk ct nonce = Ok pt" and "ce_WriteFile C (df_out f) pt fs = (None, fs')"
  shows "\<exists>n'. handleDecrypt C f fs n = (Success, fs', n')"
  using assms
  by (cases "collect_shares C meta caller sig msg tx (md_Nodes meta) [] n")
    (auto simp: handleDecrypt_def decrypt_request_def Let_def not_less)

text \<open>A node that is up and honest about the contract \<open>cs\<close>: it uses the libraries of the client, its request
  fits and is within the quota of the object, and its RPC service simulates honestly.\<close>

definition net_honest :: "(string \<Rightarrow> 'lim host) \<Rightarrow> 'n client_env \<Rightarrow> contract_state \<Rightarrow> ('db, 'lim) network \<Rightarrow> string \<Rightarrow>
    NodeRetrieveRequest \<Rightarrow> bool" where
  "net_honest H C cs N u q \<longleftrightarrow>
     ne_ext (h_env (H u)) = ce_ext C \<and> ne_xdr (h_env (H u)) = ce_xdr C \<and>
     HealthCheckPath (h_cfg (H u)) \<notin> fixed_routes \<and> plain_path (HealthCheckPath (h_cfg (H u))) \<and>
     int (length (json_print (NodeRetrieveRequest_json q))) \<le> body_limit (h_cfg (H u)) \<and>
     (\<exists>s. N u = Some s \<and> globalIPLimiter s = None \<and> rpc_honest (h_env (H u)) (sorobanRPCURL s) cs \<and>
          fst (checkObjectRateLimit (h_env (H u)) (nr_ObjectID q) s))"

lemma honest_grants:
  assumes "stellar_ok (ce_ext C)" and "xdr_ok (ce_ext C) (ce_xdr C)"
    and "decrypt_request C seed meta = Ok (caller, sig, msg, tx)" and "is_allowed caller cs"
    and "md_ObjectID meta \<noteq> []" and "md_ContractID meta \<noteq> []"
    and "net_honest H C cs N u (share_request (md_ObjectID meta) (md_ContractID meta) caller sig msg tx)"
  shows "net_grants H (ce_ext C) N u (share_request (md_ObjectID meta) (md_ContractID meta) caller sig msg tx)"
proof -
  let ?X = "ce_ext C" and ?E = "h_env (H u)"
  let ?q = "share_request (md_ObjectID meta) (md_ContractID meta) caller sig msg tx"
  let ?r = "client_post ''/retrieve'' (h_addr (H u)) (json_print (NodeRetrieveRequest_json ?q))"
  obtain s where s: "N u = Some s" "globalIPLimiter s = None" "rpc_honest ?E (sorobanRPCURL s) cs"
      "fst (checkObjectRateLimit ?E (md_ObjectID meta) s)" and E: "ne_ext ?E = ?X" "ne_xdr ?E = ce_xdr C"
    using assms(7) by (auto simp: net_honest_def)
  obtain kp where kp: "keypair_ParseFull ?X seed = Inr kp" "caller = keypair_Address ?X kp"
      "keypair_Sign ?X kp msg = Inr sig"
      "BuildApproveTransaction ?X (ce_xdr C) (md_ContractID meta) (md_ObjectID meta) caller = Ok tx"
    using assms(3)
    by (auto simp: decrypt_request_def GetAddressFromSeed_def SignPayload_def Let_def split: sum.splits)
  have sig: "VerifyStellarSignature ?X caller msg sig = Ok True" and caller: "caller \<noteq> []"
  proof (rule stellar_okD [OF assms(1) kp(1)], goal_cases pk)
    case (pk k)
    then show ?case using kp by (simp add: VerifyStellarSignature_def ed25519_PublicKeySize_def)
  qed (use assms(1) kp(1,2) in \<open>auto simp: stellar_ok_def\<close>)
  have tx: "verifySorobanTx ?X (ce_xdr C) tx (md_ContractID meta) ''approve'' caller = Ok ()"
      "simulateSorobanTx ?E (sorobanRPCURL s) tx = Ok True"
    using built_transaction_grants [of ?E, unfolded E, OF assms(2) s(3) kp(4)] assms(4) by blast+
  have "retrieve_authorized ?E ?r s (retrieve_request ?q)"
    using s(4) sig tx caller assms(5,6)
    by (simp add: retrieve_authorized_def json_Decode_client_post RetrieveRequest_of_client E)
      (simp add: retrieve_request_def client_post_def)
  then show ?thesis using assms(7) s by (simp add: net_grants_def net_honest_def Let_def)
qed

text \<open>The nodes of a run: the first n of the list the user gave, without surrounding space.\<close>

definition share_nodes :: "encrypt_flags \<Rightarrow> string list" where
  "share_nodes f = map trim_space (take (nat (ef_n f)) (split_on (CHR '','') (ef_nodes f)))"

text \<open>A successful distribution over ready nodes: different nodes, each with its share.\<close>

lemma distribute_net:
  assumes "distribute (net_client H C) c ob nodes shares 0 k N = (Ok (), N')" and "k \<le> length nodes"
    and "\<forall>u \<in> set (map trim_space (take k nodes)). net_ready H C N u"
  shows "distinct (map trim_space (take k nodes))"
    and "\<forall>j < k. net_holds (ce_ext C) N' (map trim_space (take k nodes) ! j) c ob (shares ! j)"
    and "\<forall>u \<in> set (map trim_space (take k nodes)). net_ready H C N' u"
proof -
  have nth: "map trim_space (take k nodes) ! j = trim_space (nodes ! j)" if "j < k" for j
    using assms(2) that by simp
  have "\<forall>j < k. net_ready H C N (trim_space (nodes ! (0 + j)))"
    using assms(2,3) nth by (metis add_0 length_map length_take min.absorb2 nth_mem)
  note hold = net_keepers.distribute_holds [OF assms(1) this]
  show "distinct (map trim_space (take k nodes))"
    unfolding distinct_conv_nth using hold(2) assms(2) nth by (auto simp: inj_on_def)
  show "\<forall>j < k. net_holds (ce_ext C) N' (map trim_space (take k nodes) ! j) c ob (shares ! j)"
    using hold(1) nth by simp
  show "\<forall>u \<in> set (map trim_space (take k nodes)). net_ready H C N' u"
    using net_keepers.distribute_keeps [OF assms(1)] assms(3) by blast
qed

text \<open>The shares the decrypt command collects are those of different coordinates.\<close>

lemma collected_shares:
  assumes "distinct us" and "length us = length shares" and "\<forall>j < length us. sh (us ! j) = shares ! j"
  obtains js where "distinct js" and "set js \<subseteq> {..<length us}" and "length js = min t (length (filter up us))"
    and "take t (map sh (filter up us)) = map ((!) shares) js"
proof
  let ?js = "take t (filter (\<lambda>j. up (us ! j)) [0..<length us])"
  have us: "filter up us = map ((!) us) (filter (\<lambda>j. up (us ! j)) [0..<length us])"
    using filter_map [of up "(!) us" "[0..<length us]"] by (simp add: map_nth comp_def)
  show "distinct ?js" by simp
  show "set ?js \<subseteq> {..<length us}" by (auto dest: in_set_takeD)
  show "length ?js = min t (length (filter up us))" using us by simp
  show "take t (map sh (filter up us)) = map ((!) shares) ?js"
    using assms(3) us by (auto simp: take_map dest!: in_set_takeD)
qed

lemma threshold_run:
  fixes N N1 N2 :: "('db, 'lim) network" and C :: "'n client_env"
  assumes encrypted: "handleEncrypt (net_client H C) f fs N = (Success, fs1, N1)"
      "\<forall>u \<in> set (share_nodes f). net_ready H C N u"
      "int64_range (ef_t f)" "ef_meta f \<noteq> ef_out f"
    and library: "stellar_ok (ce_ext C)" "digest_ok (ce_ext C)" "xdr_ok (ce_ext C) (ce_xdr C)"
      "shamir_ok (ce_Split C) (ce_Combine C)" "client_random C" "write_ok C"
    and flags: "df_file g = ef_out f" "df_meta g = ef_meta f" "df_file g \<noteq> []" "df_meta g \<noteq> []" "df_seed g \<noteq> []" "df_out g \<noteq> []"
      "\<And>d. fst (ce_WriteFile C (df_out g) d fs1) = None"
    and later: "net_later (ce_ext C) H N1 N2"
    and request: "fs1 (ef_meta f) = Some metaBytes"
      "Option.bind (json_whole (string_of_bytes metaBytes)) Metadata_of_json = Some meta"
      "decrypt_request C (df_seed g) meta = Ok (caller, sig, msg, tx)" "is_allowed caller cs"
    and up: "\<forall>u \<in> set (share_nodes f). N2 u \<noteq> None \<longrightarrow>
        net_honest H' C cs N2 u (share_request (md_ObjectID meta) (md_ContractID meta) caller sig msg tx)"
      "ef_t f \<le> int (length (filter (\<lambda>u. N2 u \<noteq> None) (share_nodes f)))"
  shows "\<exists>fs2 N3. handleDecrypt (net_client H' C) g fs1 N2 = (Success, fs2, N3) \<and> fs2 (df_out g) = fs (ef_file f)"
proof (rule handleEncrypt_files [OF encrypted(1)], goal_cases files nonce range paths run)
  case files
  then show ?case using library(6) by (simp add: write_ok_def)
next
  case (nonce b)
  then show ?case using library(5) by (simp add: client_random_def)
next
  case range
  then show ?case by (rule encrypted(3))
next
  case paths
  then show ?case by (rule encrypted(4))
next
  case (run fileData sk nonce ct shares mb m)
  let ?X = "ce_ext C" and ?ob = "md_ObjectID meta" and ?c = "md_ContractID meta" and ?us = "share_nodes f"
  let ?k = "nat (ef_n f)" and ?up = "\<lambda>u. N2 u \<noteq> None"
  have m: "m = meta" using run(6,7) request(1,2) by simp
  have nodes: "map trim_space (md_Nodes meta) = ?us" using run(11) m by (simp add: share_nodes_def)
  have ids: "?ob \<noteq> []" "?c \<noteq> []"
  proof -
    have "sha256_Sum256 ?X ct \<noteq> []" using library(2) unfolding digest_ok_def by (metis list.size(3) zero_neq_numeral)
    then show "?ob \<noteq> []" "?c \<noteq> []" using run(8,9,14) m by simp_all
  qed
  have dist: "distribute (net_client H C) ?c ?ob (split_on (CHR '','') (ef_nodes f)) shares 0 ?k N = (Ok (), N1)"
    using run(9,13) m by simp
  note dn = distribute_net [OF dist run(15) encrypted(2) [unfolded share_nodes_def], folded share_nodes_def]
  have len: "length ?us = ?k" "length shares = ?k"
    using run(15,12) library(4) by (simp_all add: share_nodes_def shamir_ok_def)
  define sh where "sh u = the (map_of (zip ?us shares) u)" for u
  have sh: "\<forall>j < length ?us. sh (?us ! j) = shares ! j"
    using dn(1) len by (simp add: sh_def map_of_zip_nth)
  have "if ?up u then net_grants H' ?X N2 u (share_request ?ob ?c caller sig msg tx) \<and> net_holds ?X N2 u ?c ?ob (sh u)
      else N2 u = None" if u: "u \<in> set ?us" for u
  proof (cases "?up u")
    case True
    obtain j where "j < length ?us" "u = ?us ! j" using u by (auto simp: in_set_conv_nth)
    then have "net_holds ?X N1 u ?c ?ob (sh u)" using dn(2) sh len by simp
    moreover have "net_ready H C N1 u" using dn(3) u by blast
    ultimately have "net_holds ?X N2 u ?c ?ob (sh u)"
      by (intro net_later_holds [OF later _ True]) (auto simp: net_ready_def node_ready_def)
    moreover have "net_grants H' ?X N2 u (share_request ?ob ?c caller sig msg tx)"
      by (rule honest_grants [OF library(1,3) request(3,4) ids]) (use up(1) u True in blast)
    ultimately show ?thesis using True by simp
  qed simp
  then have "\<forall>u \<in> trim_space ` set (md_Nodes meta). if ?up u
      then net_grants H' ?X N2 u (share_request ?ob ?c caller sig msg tx) \<and> net_holds ?X N2 u ?c ?ob (sh u) else N2 u = None"
    using nodes by (metis list.set_map)
  from net_servers.collect [OF refl refl _ this, of "[]"]
  have coll: "fst (collect_shares (net_client H' C) meta caller sig msg tx (md_Nodes meta) [] N2) =
      take (nat (ef_t f)) (map sh (filter ?up ?us))"
    using dn(1) nodes run(10) m by simp
  obtain js where js: "distinct js" "set js \<subseteq> {..<length ?us}" "length js = min (nat (ef_t f)) (length (filter ?up ?us))"
      "take (nat (ef_t f)) (map sh (filter ?up ?us)) = map ((!) shares) js"
    by (rule collected_shares [OF dn(1) _ sh]) (use len in simp)
  have combine: "ce_Combine C (map ((!) shares) js) = Inr sk" and enough: "ef_t f \<le> int (length js)"
    using library(4) run(12) js(1-3) len up(2) by (auto simp: shamir_ok_def)
  obtain fs2 where fs2: "ce_WriteFile C (df_out g) fileData fs1 = (None, fs2)" using flags(7) by (metis prod.collapse)
  have "\<exists>n'. handleDecrypt (net_client H' C) g fs1 N2 = (Success, fs2, n')"
    using flags run(3-5) request(1,2) coll js(4) enough combine fs2 run(10) m request(3)
    by (intro handleDecrypt_steps [where meta = meta and nonce = nonce and ct = ct and pt = fileData and sk = sk])
      (auto simp: decrypt_request_def)
  moreover have "fs2 = fs1(df_out g \<mapsto> fileData)" using library(6) fs2 by (simp add: write_ok_def)
  ultimately show ?case using run(1) by auto
qed


subsection \<open>When encryption succeeds\<close>

text \<open>A node that takes the i-th share: ready, without an API key, with a free key, a database that saves, and a
  body limit the request fits in.\<close>

definition net_accepts :: "(string \<Rightarrow> 'lim host) \<Rightarrow> 'n client_env \<Rightarrow> string \<Rightarrow> string \<Rightarrow> nat \<Rightarrow> bytes \<Rightarrow>
    ('db, 'lim) network \<Rightarrow> string \<Rightarrow> bool" where
  "net_accepts H C c ob i sh N u \<longleftrightarrow>
     net_ready H C N u \<and> StoreAPIKey (h_cfg (H u)) = [] \<and>
     HealthCheckPath (h_cfg (H u)) \<notin> fixed_routes \<and> plain_path (HealthCheckPath (h_cfg (H u))) \<and>
     (\<exists>s e ct nonce. N u = Some s \<and> BoltStore.content (db s) (share_key c ob) = None \<and>
        (\<forall>st. \<exists>d. saveShare (db s) (share_key c ob) st = Ok d) \<and>
        ECIESEncrypt (ce_ext C) (ce_eph C i) (ce_share_nonce C i) (nodePublicKey s) sh = Ok (e, ct, nonce) \<and>
        int (length (json_print (NodeStoreRequest_json \<lparr>ns_ObjectID = ob, ns_ContractID = c,
          ns_EphemeralPubKey = hex_EncodeToString e, ns_Ciphertext = hex_EncodeToString ct,
          ns_Nonce = hex_EncodeToString nonce\<rparr>))) \<le> body_limit (h_cfg (H u)))"

lemma send_net_Ok:
  fixes N :: "('db, 'lim) network"
  assumes "net_accepts H C c ob i sh N (trim_space node)" and "c \<noteq> []" and "ob \<noteq> []"
  shows "fst (send_share (net_client H C) c ob node i sh N) = Ok ()"
proof -
  let ?u = "trim_space node" and ?X = "ce_ext C"
  obtain s e ct nonce where s: "N ?u = Some s" "BoltStore.content (db s) (share_key c ob) = None"
      "\<And>st. \<exists>d. saveShare (db s) (share_key c ob) st = Ok d"
      and enc: "ECIESEncrypt ?X (ce_eph C i) (ce_share_nonce C i) (nodePublicKey s) sh = Ok (e, ct, nonce)"
      and fits: "int (length (json_print (NodeStoreRequest_json \<lparr>ns_ObjectID = ob, ns_ContractID = c,
          ns_EphemeralPubKey = hex_EncodeToString e, ns_Ciphertext = hex_EncodeToString ct,
          ns_Nonce = hex_EncodeToString nonce\<rparr>))) \<le> body_limit (h_cfg (H ?u))"
    using assms(1) by (auto simp: net_accepts_def)
  have ready: "net_ready H C N ?u" and key: "StoreAPIKey (h_cfg (H ?u)) = []" using assms(1) by (simp_all add: net_accepts_def)
  have env: "ne_ext (h_env (H ?u)) = ?X" "node_ready ?X s" "p256_ok ?X" "client_random C"
    using ready s(1) by (auto simp: net_ready_def)
  have pub: "nodePublicKey s = p256_PublicKey ?X (nodePrivateKey s)" using env(2) by (simp add: node_ready_def key_inv_def)
  obtain h :: "('db, 'lim) node_handler" where h: "buildMux (h_env (H ?u)) (h_cfg (H ?u)) = Ok h"
    using assms(1) buildMux_Ok by (auto simp: net_accepts_def)
  let ?r0 = "\<lparr>r_Method = ''GET'', r_Path = ''/public-key'', r_Header = [], r_RemoteAddr = h_addr (H ?u), r_Body = [], r_MaxBytes = None\<rparr>"
  let ?s1 = "outcome_state (h new_writer ?r0 s)"
  note pk = node_public_key [OF h env(1,2), of ?r0, simplified]
  have fetch: "fetchNodePublicKey (net_client H C) ?u N = (Ok (hex_EncodeToString (nodePublicKey s)), N(?u \<mapsto> ?s1))"
    using s(1) h pk(1,2) single_field_print [of "''public_key''"]
    by (simp add: fetchNodePublicKey_def net_call_def Let_def pub)
  have s1: "node_ready ?X ?s1" "db ?s1 = db s"
    using node_ready_request [OF h env(1,2), of new_writer ?r0] pk(3,4) by simp_all
  let ?q = "\<lparr>ns_ObjectID = ob, ns_ContractID = c, ns_EphemeralPubKey = hex_EncodeToString e,
       ns_Ciphertext = hex_EncodeToString ct, ns_Nonce = hex_EncodeToString nonce\<rparr>"
  let ?r = "client_post ''/store'' (h_addr (H ?u)) (json_print (NodeStoreRequest_json ?q))"
  have "e \<noteq> [] \<and> ct \<noteq> [] \<and> nonce \<noteq> []"
    using ECIESEncrypt_nonempty [OF env(3) _ _ enc] env(4) by (simp add: client_random_def)
  then have acc: "store_accepts ?r (store_request ?q)
      \<lparr>sh_EphemeralPubKey = Some e, sh_Ciphertext = Some ct, sh_Nonce = Some nonce\<rparr>"
    using assms(2,3) by (intro client_store_accepts) simp_all
  obtain d where d: "saveShare (db ?s1) (store_key (store_request ?q))
      \<lparr>sh_EphemeralPubKey = Some e, sh_Ciphertext = Some ct, sh_Nonce = Some nonce\<rparr> = Ok d"
    using s(3) s1(2) by (auto simp: store_request_def)
  have "status_of (h new_writer ?r ?s1) = Some 200"
    using store_through_server_200 [OF h key _ _ _ _ _ acc _ d] s1 s(2) fits
    by (simp add: node_ready_def client_post_def store_request_def)
  then have "fst (storeShareOnNode (net_client H C) ?u c ob e ct nonce (N(?u \<mapsto> ?s1))) = Ok ()"
    using h by (simp add: storeShareOnNode_def net_call_def Let_def client_post_def)
  then show ?thesis
    using fetch enc by (auto simp: send_share_def Let_def split: result.splits prod.splits)
qed

lemma distribute_net_Ok:
  assumes "\<forall>j < k. net_accepts H C c ob (i + j) (shares ! (i + j)) N (trim_space (nodes ! (i + j)))"
    and "inj_on (\<lambda>j. trim_space (nodes ! (i + j))) {..<k}" and "c \<noteq> []" and "ob \<noteq> []"
    and "i + k \<le> length nodes" and "i + k \<le> length shares"
  shows "\<exists>N'. distribute (net_client H C) c ob nodes shares i k N = (Ok (), N')"
  using assms(1,2,5,6)
proof (induction k arbitrary: i N)
  case (Suc k)
  have "net_accepts H C c ob i (shares ! i) N (trim_space (nodes ! i))" using Suc.prems(1) by (metis add_0_right zero_less_Suc)
  then obtain N1 where send: "send_share (net_client H C) c ob (nodes ! i) i (shares ! i) N = (Ok (), N1)"
    using send_net_Ok [OF _ assms(3,4)] by (metis prod.collapse)
  have apart: "trim_space (nodes ! (Suc i + j)) \<noteq> trim_space (nodes ! i)" if "j < k" for j
    using inj_onD [OF Suc.prems(2), of "Suc j" 0] that by auto
  have "net_accepts H C c ob (Suc i + j) (shares ! (Suc i + j)) N1 (trim_space (nodes ! (Suc i + j)))" if "j < k" for j
    using Suc.prems(1) that send_local [OF send apart [OF that]]
    by (auto simp: net_accepts_def net_ready_def)
  moreover have "inj_on (\<lambda>j. trim_space (nodes ! (Suc i + j))) {..<k}"
  proof (rule inj_onI)
    fix x y
    assume "x \<in> {..<k}" "y \<in> {..<k}" "trim_space (nodes ! (Suc i + x)) = trim_space (nodes ! (Suc i + y))"
    then show "x = y" using inj_onD [OF Suc.prems(2), of "Suc x" "Suc y"] by simp
  qed
  ultimately show ?case using Suc.IH [of "Suc i" N1] Suc.prems(3,4) send by simp
qed simp

lemma encrypt_run:
  fixes N :: "('db, 'lim) network" and C :: "'n client_env"
  assumes flags: "ef_file f \<noteq> []" "ef_out f \<noteq> []" "ef_contract f \<noteq> []" "ef_nodes f \<noteq> []"
      "ef_n f \<le> int (length (split_on (CHR '','') (ef_nodes f)))"
    and files: "fs (ef_file f) = Some fileData" "\<And>path d fs0. fst (ce_WriteFile C path d fs0) = None"
    and random: "ce_key C = Inr sk" "ce_Split C sk (ef_n f) (ef_t f) = Inr shares" "shamir_ok (ce_Split C) (ce_Combine C)" "digest_ok (ce_ext C)"
    and sealed: "SymmetricEncrypt (ce_ext C) (ce_nonce C) sk fileData = Ok (ct, nonce)"
      "ob = hex_EncodeToString (sha256_Sum256 (ce_ext C) ct)"
    and nodes: "distinct (share_nodes f)"
      "\<forall>j < nat (ef_n f). net_accepts H C (ef_contract f) ob j (shares ! j) N (share_nodes f ! j)"
  obtains fs1 N1 where "handleEncrypt (net_client H C) f fs N = (Success, fs1, N1)"
    and "\<forall>j < nat (ef_n f). net_holds (ce_ext C) N1 (share_nodes f ! j) (ef_contract f) ob (shares ! j)"
    and "\<forall>u \<in> set (share_nodes f). net_ready H C N u" and "\<forall>u \<in> set (share_nodes f). net_ready H C N1 u"
    and "fs1 = snd (ce_WriteFile C (ef_meta f) (bytes_of_string (json_MarshalIndent (Metadata_to_json
        \<lparr>md_ObjectID = ob, md_ContractID = ef_contract f, md_Threshold = ef_t f,
         md_Nodes = take (nat (ef_n f)) (split_on (CHR '','') (ef_nodes f))\<rparr>)))
        (snd (ce_WriteFile C (ef_out f) (nonce @ ct) fs)))"
proof -
  let ?nodes = "split_on (CHR '','') (ef_nodes f)" and ?k = "nat (ef_n f)"
  have k: "?k \<le> length ?nodes" "?k \<le> length shares" using flags(5) random(2,3) by (auto simp: shamir_ok_def)
  have nth: "share_nodes f ! j = trim_space (?nodes ! j)" if "j < ?k" for j
    using that k by (simp add: share_nodes_def)
  have ob: "ob \<noteq> []" using sealed(2) random(4) unfolding digest_ok_def by (metis hex_EncodeToString_eq_Nil list.size(3) zero_neq_numeral)
  have inj: "inj_on (\<lambda>j. trim_space (?nodes ! (0 + j))) {..<?k}"
    using nodes(1) nth k by (auto simp: inj_on_def share_nodes_def distinct_conv_nth)
  have acc: "\<forall>j < ?k. net_accepts H C (ef_contract f) ob (0 + j) (shares ! (0 + j)) N (trim_space (?nodes ! (0 + j)))"
    using nodes(2) nth by simp
  have "\<exists>N1. distribute (net_client H C) (ef_contract f) ob ?nodes shares 0 ?k N = (Ok (), N1)"
    by (rule distribute_net_Ok [OF acc inj flags(3) ob]) (use k in simp_all)
  then obtain N1 where dist: "distribute (net_client H C) (ef_contract f) ob ?nodes shares 0 ?k N = (Ok (), N1)" by blast
  have ready: "\<forall>u \<in> set (share_nodes f). net_ready H C N u"
    using nodes(2) k by (auto simp: share_nodes_def in_set_conv_nth net_accepts_def)
  note dn = distribute_net [OF dist k(1) ready [unfolded share_nodes_def], folded share_nodes_def]
  obtain fs1 where w1: "ce_WriteFile C (ef_out f) (nonce @ ct) fs = (None, fs1)" using files(2) by (metis prod.collapse)
  let ?meta = "\<lparr>md_ObjectID = ob, md_ContractID = ef_contract f, md_Threshold = ef_t f, md_Nodes = take ?k ?nodes\<rparr>"
  obtain fs2 where w2: "ce_WriteFile C (ef_meta f) (bytes_of_string (json_MarshalIndent (Metadata_to_json ?meta))) fs1 = (None, fs2)"
    using files(2) by (metis prod.collapse)
  have "handleEncrypt (net_client H C) f fs N = (Success, fs2, N1)"
    using dist w1 w2 flags files(1) random sealed by (simp add: handleEncrypt_def GenerateAESKey_def Let_def)
  with dn(2,3) ready w1 w2 show thesis by (intro that [of fs2 N1]) simp_all
qed

text \<open>C5: the encrypt command succeeds: with all flags given, at least n different nodes of which the first n take
  their share, a readable source that AES-GCM encrypts, writable outputs and a key that can be split,
  it ends with success and the nodes hold the shares of the key.\<close>

theorem encrypt_succeeds:
  fixes N :: "('db, 'lim) network" and C :: "'n client_env"
  assumes flags: "ef_file f \<noteq> []" "ef_out f \<noteq> []" "ef_contract f \<noteq> []" "ef_nodes f \<noteq> []"
      "ef_n f \<le> int (length (split_on (CHR '','') (ef_nodes f)))"
    and files: "fs (ef_file f) = Some fileData" "\<And>path d fs0. fst (ce_WriteFile C path d fs0) = None"
    and random: "ce_key C = Inr sk" "ce_Split C sk (ef_n f) (ef_t f) = Inr shares" "shamir_ok (ce_Split C) (ce_Combine C)" "digest_ok (ce_ext C)"
    and sealed: "SymmetricEncrypt (ce_ext C) (ce_nonce C) sk fileData = Ok (ct, nonce)"
      "ob = hex_EncodeToString (sha256_Sum256 (ce_ext C) ct)"
    and nodes: "distinct (share_nodes f)"
      "\<forall>j < nat (ef_n f). net_accepts H C (ef_contract f) ob j (shares ! j) N (share_nodes f ! j)"
  shows "\<exists>fs1 N1. handleEncrypt (net_client H C) f fs N = (Success, fs1, N1) \<and>
    (\<forall>j < nat (ef_n f). net_holds (ce_ext C) N1 (share_nodes f ! j) (ef_contract f) ob (shares ! j))"
  by (rule encrypt_run [where fs = fs, OF flags files(1) _ random sealed nodes]) (use files(2) in blast)+

subsection \<open>A concrete network\<close>

text \<open>Three nodes at their initial state, whose RPC service grants alice the object \<open>ob\<close>, and alice's client with a
  scheme of shares that end in their coordinate. One limiter never refuses.\<close>

definition object_call :: "bytes \<Rightarrow> TransactionEnvelope" where
  "object_call ob = approve_env alice_example cid_example [ScvBytes ob, ScvAddress (account_arg alice_example)]"

definition open_limiter :: "int limiter_api" where
  "open_limiter = limiter_example\<lparr>lim_Allow := (\<lambda>t n. (True, n))\<rparr>"

definition hosts_example :: "bytes \<Rightarrow> string \<Rightarrow> int host" where
  "hosts_example ob u = \<lparr>h_env = granting open_limiter (object_call ob), h_cfg = config_example, h_addr = ''10.0.0.1:9''\<rparr>"

definition network_example :: "(alist_db, int) network" where
  "network_example u = (if u \<in> {''http://n1'', ''http://n2'', ''http://n3''} then Some state_example else None)"

definition split_example :: "bytes \<Rightarrow> int \<Rightarrow> int \<Rightarrow> string + bytes list" where
  "split_example sk n t =
     (if 2 \<le> t \<and> t \<le> n then Inr (map (\<lambda>i. sk @ [word_of_nat i]) [0..<nat n]) else Inl ''invalid threshold'')"

definition combine_example :: "bytes list \<Rightarrow> string + bytes" where
  "combine_example l = (case l of [] \<Rightarrow> Inl ''no parts'' | part # _ \<Rightarrow> Inr (butlast part))"

definition alice_client :: "bytes \<Rightarrow> unit client_env" where
  "alice_client ob = client_example\<lparr>ce_xdr := xdr_example (object_call ob), ce_Split := split_example, ce_Combine := combine_example\<rparr>"

definition alice_encrypt :: encrypt_flags where
  "alice_encrypt = \<lparr>ef_file = ''a'', ef_out = ''a.enc'', ef_contract = string_of_bytes cid_example,
     ef_nodes = ''http://n1,http://n2, http://n3'', ef_n = 3, ef_t = 2, ef_meta = ''metadata.json''\<rparr>"

definition alice_files :: client_files where
  "alice_files = [''a'' \<mapsto> [1, 2, 3]]"

definition alice_decrypt :: decrypt_flags where
  "alice_decrypt = \<lparr>df_file = ''a.enc'', df_meta = ''metadata.json'', df_seed = alice_example, df_out = ''b''\<rparr>"

lemma shamir_ok_example: "shamir_ok split_example combine_example"
proof -
  have "combine_example (map ((!) shares) js) = Inr sk"
    if "split_example sk n t = Inr shares" "set js \<subseteq> {..<nat n}" "t \<le> int (length js)" for sk n t shares js
  proof -
    have "js \<noteq> []" using that(1,3) by (auto simp: split_example_def split: if_splits)
    then obtain j js' where "js = j # js'" by (cases js) simp
    then show ?thesis using that(1,2) by (auto simp: split_example_def combine_example_def split: if_splits)
  qed
  then show ?thesis by (auto simp: shamir_ok_def split_example_def split: if_splits)
qed

lemma alice_client_fields [simp]:
  "ce_ext (alice_client ob) = ext_example" "ce_xdr (alice_client ob) = xdr_example (object_call ob)"
  "ce_WriteFile (alice_client ob) = (\<lambda>p d fs. (None, fs(p \<mapsto> d)))" "ce_key (alice_client ob) = Inr (replicate 32 5)"
  "ce_nonce (alice_client ob) = Inr (replicate 12 0)" "ce_eph (alice_client ob) i = Inr (replicate 32 2)"
  "ce_share_nonce (alice_client ob) i = Inr (replicate 12 1)" "ce_Split (alice_client ob) = split_example"
  "ce_Combine (alice_client ob) = combine_example"
  by (simp_all add: alice_client_def client_example_def)

lemma alice_nodes:
  "split_on (CHR '','') (ef_nodes alice_encrypt) = [''http://n1'', ''http://n2'', '' http://n3'']"
  "share_nodes alice_encrypt = [''http://n1'', ''http://n2'', ''http://n3'']"
  by code_simp+

lemma hosts_example_fields [simp]:
  "h_env (hosts_example ob u) = granting open_limiter (object_call ob)" "h_cfg (hosts_example ob u) = config_example"
  by (simp_all add: hosts_example_def)

lemma client_random_example: "client_random (alice_client ob)"
  by (simp add: client_random_def ext_example_def)

lemma routes_example: "HealthCheckPath config_example \<notin> fixed_routes" "plain_path (HealthCheckPath config_example)"
  by (simp_all add: config_example_fields fixed_routes_def) code_simp

lemma accepts_example:
  assumes "length sh = 33" and "length ob = 64" and "c = string_of_bytes cid_example"
    and "u \<in> {''http://n1'', ''http://n2'', ''http://n3''}"
  shows "net_accepts (hosts_example b) (alice_client b) c ob i sh network_example u"
proof -
  have key: "p256_Valid ext_example (nodePrivateKey state_example)" "p256_Valid ext_example (replicate 32 2)"
      "nodePublicKey state_example = p256_PublicKey ext_example (nodePrivateKey state_example)"
    by (simp_all add: state_example_def ext_example_def)
  obtain ct where ct: "ECIESEncrypt ext_example (Inr (replicate 32 2)) (Inr (replicate 12 1)) (nodePublicKey state_example) sh =
      Ok (p256_PublicKey ext_example (replicate 32 2), ct, replicate 12 1)" "length ct = 49"
    using ECIESEncrypt_ok [OF p256_ok_example key(1,2), of "replicate 12 1" sh] key(3) assms(1)
    by (auto simp: gcm_NonceSize_def gcm_max_plain_def gcm_Overhead_def)
  have "p256_PublicKey ext_example (replicate 32 2) = replicate 32 2" by (simp add: ext_example_def)
  with ct have enc: "ECIESEncrypt ext_example (Inr (replicate 32 2)) (Inr (replicate 12 1)) (nodePublicKey state_example) sh =
      Ok (replicate 32 2, ct, replicate 12 1)" by simp
  let ?q = "\<lparr>ns_ObjectID = ob, ns_ContractID = c, ns_EphemeralPubKey = hex_EncodeToString (replicate 32 2),
      ns_Ciphertext = hex_EncodeToString ct, ns_Nonce = hex_EncodeToString (replicate 12 1)\<rparr>"
  have fits: "int (length (json_print (NodeStoreRequest_json ?q))) \<le> body_limit config_example"
    using length_store_json [of ?q] ct(2) assms(2,3) by (simp add: body_limit_example cid_example_def)
  have ready: "node_ready ext_example state_example"
    using key by (simp add: node_ready_def key_inv_def) (simp add: state_example_def)
  have up: "network_example u = Some state_example" using assms(4) by (auto simp: network_example_def)
  have net: "net_ready (hosts_example b) (alice_client b) network_example u"
    using ready up p256_ok_example client_random_example by (simp add: net_ready_def granting_fields)
  show ?thesis
    unfolding net_accepts_def using net routes_example config_example_fields(3) up free_example save_example enc fits
    by (simp del: body_limit_example)
qed

text \<open>The ciphertext of a small file, and what its encryption leaves.\<close>

lemma alice_seals:
  obtains ct where "SymmetricEncrypt ext_example (Inr (replicate 12 0)) (replicate 32 5) [1, 2, 3] = Ok (ct, replicate 12 0)"
  using SymmetricEncrypt_total [of "replicate 32 5" "replicate 12 0" "[1, 2, 3]" ext_example]
  by (auto simp: aes_key_ok_def gcm_NonceSize_def gcm_max_plain_def)

lemma alice_accepted:
  "\<forall>j < nat (ef_n alice_encrypt). net_accepts (hosts_example b) (alice_client b) (ef_contract alice_encrypt)
    (hex_EncodeToString (pad32 ct)) j (map (\<lambda>i. replicate 32 5 @ [word_of_nat i]) [0..<3] ! j) network_example (share_nodes alice_encrypt ! j)"
proof (intro allI impI accepts_example)
  fix j
  assume "j < nat (ef_n alice_encrypt)"
  then have j: "j < 3" by (simp add: alice_encrypt_def)
  then show "length (map (\<lambda>i. replicate 32 5 @ [word_of_nat i]) [0..<3] ! j) = 33" by simp
  show "share_nodes alice_encrypt ! j \<in> {''http://n1'', ''http://n2'', ''http://n3''}"
    using j by (auto simp: alice_nodes less_Suc_eq numeral_eq_Suc)
qed (simp_all add: alice_encrypt_def)

lemma alice_setting:
  "ef_file alice_encrypt \<noteq> []" "ef_out alice_encrypt \<noteq> []" "ef_contract alice_encrypt \<noteq> []" "ef_nodes alice_encrypt \<noteq> []"
  "ef_n alice_encrypt \<le> int (length (split_on (CHR '','') (ef_nodes alice_encrypt)))"
  "alice_files (ef_file alice_encrypt) = Some [1, 2, 3]"
  "fst (ce_WriteFile (alice_client b) path d fs0) = None"
  "ce_key (alice_client b) = Inr (replicate 32 5)"
  "ce_Split (alice_client b) (replicate 32 5) (ef_n alice_encrypt) (ef_t alice_encrypt) =
     Inr (map (\<lambda>i. replicate 32 5 @ [word_of_nat i]) [0..<3])"
  "shamir_ok (ce_Split (alice_client b)) (ce_Combine (alice_client b))" "digest_ok (ce_ext (alice_client b))"
  "distinct (share_nodes alice_encrypt)"
  by (simp_all add: alice_nodes shamir_ok_example digest_ok_example del: split_on.simps)
    (simp_all add: alice_encrypt_def alice_files_def split_example_def cid_not_Nil)

theorem encrypt_succeeds_witness:
  "\<exists>ct fs1 N1. handleEncrypt (net_client (hosts_example []) (alice_client [])) alice_encrypt alice_files network_example =
      (Success, fs1, N1) \<and>
    net_holds ext_example N1 ''http://n2'' (ef_contract alice_encrypt) (hex_EncodeToString (pad32 ct)) (replicate 32 5 @ [1])"
proof -
  obtain ct where ct: "SymmetricEncrypt ext_example (Inr (replicate 12 0)) (replicate 32 5) [1, 2, 3] = Ok (ct, replicate 12 0)"
    by (rule alice_seals)
  have "\<exists>fs1 N1. handleEncrypt (net_client (hosts_example []) (alice_client [])) alice_encrypt alice_files network_example =
      (Success, fs1, N1) \<and>
    (\<forall>j < nat (ef_n alice_encrypt). net_holds (ce_ext (alice_client [])) N1 (share_nodes alice_encrypt ! j) (ef_contract alice_encrypt)
      (hex_EncodeToString (pad32 ct)) (map (\<lambda>i. replicate 32 5 @ [word_of_nat i]) [0..<3] ! j))"
    using ct
    by (intro encrypt_succeeds [where fs = alice_files, OF alice_setting(1-6) _ alice_setting(8-11) _ _ alice_setting(12) alice_accepted])
      (simp_all add: ext_example_def)
  then obtain fs1 N1 where run: "handleEncrypt (net_client (hosts_example []) (alice_client [])) alice_encrypt alice_files network_example = (Success, fs1, N1)"
    and holds: "\<forall>j < nat (ef_n alice_encrypt). net_holds (ce_ext (alice_client [])) N1 (share_nodes alice_encrypt ! j) (ef_contract alice_encrypt)
      (hex_EncodeToString (pad32 ct)) (map (\<lambda>i. replicate 32 5 @ [word_of_nat i]) [0..<3] ! j)" by blast
  have "1 < nat (ef_n alice_encrypt)" by (simp add: alice_encrypt_def)
  then show ?thesis using run holds [rule_format, of 1] by (auto simp: alice_nodes)
qed

abbreviation alice_meta :: "bytes \<Rightarrow> Metadata" where
  "alice_meta ob \<equiv> \<lparr>md_ObjectID = hex_EncodeToString ob, md_ContractID = ef_contract alice_encrypt, md_Threshold = ef_t alice_encrypt,
    md_Nodes = take (nat (ef_n alice_encrypt)) (split_on (CHR '','') (ef_nodes alice_encrypt))\<rparr>"

abbreviation alice_message :: "bytes \<Rightarrow> bytes" where
  "alice_message ob \<equiv> bytes_of_string (md_ObjectID (alice_meta ob) @ ''_'' @ md_ContractID (alice_meta ob))"

text \<open>The request of alice is granted by every node that is up.\<close>

lemma alice_request:
  "decrypt_request (alice_client (pad32 ct)) (df_seed alice_decrypt) (alice_meta (pad32 ct)) =
    Ok (alice_example, alice_message (pad32 ct), alice_message (pad32 ct), ''TX'')"
proof -
  have len: "length (bytes_of_string alice_example) = 32" by (simp add: alice_example_def)
  have "GetAddressFromSeed ext_example alice_example = Ok alice_example"
    using len by (simp add: GetAddressFromSeed_def ext_example_def pad32_def) (simp add: alice_example_def)
  moreover have "BuildApproveTransaction ext_example (xdr_example (object_call (pad32 ct))) (string_of_bytes cid_example)
      (hex_EncodeToString (pad32 ct)) alice_example = Ok ''TX''"
    using len
    by (simp add: BuildApproveTransaction_def Let_def ext_example_def xdr_example_def object_call_def approve_env_def
        account_arg_def cid_example_def alice_example_def)
  moreover have "SignPayload ext_example alice_example m = Ok m" for m
    by (simp add: SignPayload_def ext_example_def alice_example_def)
  ultimately show ?thesis
    by (simp add: decrypt_request_def Let_def alice_decrypt_def alice_encrypt_def)
qed

lemma alice_honest:
  assumes "length ob = 64" and "net_ready (hosts_example b) (alice_client b) N u"
  shows "net_honest (hosts_example b) (alice_client b) contract_example N u (share_request ob (string_of_bytes cid_example)
    alice_example (bytes_of_string (ob @ ''_'' @ string_of_bytes cid_example)) (bytes_of_string (ob @ ''_'' @ string_of_bytes cid_example)) ''TX'')"
proof -
  obtain s where s: "N u = Some s" "globalIPLimiter s = None" using assms(2) by (auto simp: net_ready_def node_ready_def)
  let ?m = "bytes_of_string (ob @ ''_'' @ string_of_bytes cid_example)"
  let ?q = "share_request ob (string_of_bytes cid_example) alice_example ?m ?m ''TX''"
  have "is_allowed alice_example contract_example" by (simp add: is_allowed_def contract_example_def)
  then have rpc: "rpc_honest (granting open_limiter (object_call b)) (sorobanRPCURL s) contract_example"
    by (rule rpc_honest_granting [OF _ object_call_def])
  have quota: "fst (checkObjectRateLimit (granting open_limiter (object_call b)) ob s)"
    by (simp add: checkObjectRateLimit_def object_allow_def granting_fields open_limiter_def split: option.splits)
  have "int (length (json_print (NodeRetrieveRequest_json ?q))) \<le> body_limit config_example"
    using length_retrieve_json [of ?q] assms(1) by (simp add: body_limit_example cid_example_def alice_example_def)
  with s rpc quota routes_example show ?thesis by (simp add: net_honest_def granting_fields)
qed

text \<open>After encryption the third node is gone; the other two still grant alice's request.\<close>

lemma alice_encrypted:
  obtains ct fs1 N1 mb where
    "handleEncrypt (net_client (hosts_example (pad32 ct)) (alice_client (pad32 ct))) alice_encrypt alice_files network_example = (Success, fs1, N1)"
    and "\<forall>u \<in> set (share_nodes alice_encrypt). net_ready (hosts_example (pad32 ct)) (alice_client (pad32 ct)) network_example u"
    and "fs1 (ef_meta alice_encrypt) = Some mb"
    and "Option.bind (json_whole (string_of_bytes mb)) Metadata_of_json = Some (alice_meta (pad32 ct))"
    and "\<forall>u \<in> set (share_nodes alice_encrypt). (N1(''http://n3'' := None)) u \<noteq> None \<longrightarrow>
      net_honest (hosts_example (pad32 ct)) (alice_client (pad32 ct)) contract_example (N1(''http://n3'' := None)) u
        (share_request (md_ObjectID (alice_meta (pad32 ct))) (md_ContractID (alice_meta (pad32 ct))) alice_example
           (alice_message (pad32 ct)) (alice_message (pad32 ct)) ''TX'')"
    and "ef_t alice_encrypt \<le> int (length (filter (\<lambda>u. (N1(''http://n3'' := None)) u \<noteq> None) (share_nodes alice_encrypt)))"
proof -
  obtain ct where ct: "SymmetricEncrypt ext_example (Inr (replicate 12 0)) (replicate 32 5) [1, 2, 3] = Ok (ct, replicate 12 0)"
    by (rule alice_seals)
  let ?ob = "pad32 ct"
  let ?H = "hosts_example ?ob" and ?C = "alice_client ?ob"
  let ?meta = "alice_meta ?ob"
  let ?mb = "bytes_of_string (json_MarshalIndent (Metadata_to_json ?meta))"
  let ?m = "alice_message ?ob"
  have sealed: "SymmetricEncrypt (ce_ext ?C) (ce_nonce ?C) (replicate 32 5) [1, 2, 3] = Ok (ct, replicate 12 0)"
      "hex_EncodeToString ?ob = hex_EncodeToString (sha256_Sum256 (ce_ext ?C) ct)"
    using ct by (simp_all add: ext_example_def)
  obtain fs1 N1 where run: "handleEncrypt (net_client ?H ?C) alice_encrypt alice_files network_example = (Success, fs1, N1)"
    and ready: "\<forall>u \<in> set (share_nodes alice_encrypt). net_ready ?H ?C network_example u"
      "\<forall>u \<in> set (share_nodes alice_encrypt). net_ready ?H ?C N1 u"
    and fs1: "fs1 = snd (ce_WriteFile ?C (ef_meta alice_encrypt) ?mb
        (snd (ce_WriteFile ?C (ef_out alice_encrypt) (replicate 12 0 @ ct) alice_files)))"
    by (rule encrypt_run [where fs = alice_files, OF alice_setting(1-6) _ alice_setting(8-11) sealed alice_setting(12) alice_accepted])
      (simp, blast)
  have range: "int64_range (ef_t alice_encrypt)" "ef_meta alice_encrypt \<noteq> ef_out alice_encrypt" "write_ok ?C"
    by (simp_all add: alice_encrypt_def int64_range_def write_ok_def)
  have mfile: "fs1 (ef_meta alice_encrypt) = Some ?mb" using fs1 by simp
  have meta: "Option.bind (json_whole (string_of_bytes ?mb)) Metadata_of_json = Some ?meta"
    by (rule Metadata_file) (use range in simp)
  let ?N2 = "N1(''http://n3'' := None)"
  have honest: "\<forall>u \<in> set (share_nodes alice_encrypt). ?N2 u \<noteq> None \<longrightarrow>
      net_honest ?H ?C contract_example ?N2 u (share_request (md_ObjectID ?meta) (md_ContractID ?meta) alice_example ?m ?m ''TX'')"
  proof (intro ballI impI)
    fix u
    assume u: "u \<in> set (share_nodes alice_encrypt)" "?N2 u \<noteq> None"
    then have "net_ready ?H ?C ?N2 u" using ready(2) by (auto simp: net_ready_def split: if_splits)
    then show "net_honest ?H ?C contract_example ?N2 u (share_request (md_ObjectID ?meta) (md_ContractID ?meta) alice_example ?m ?m ''TX'')"
      using alice_honest [of "hex_EncodeToString ?ob"] by (simp add: alice_encrypt_def)
  qed
  have count: "ef_t alice_encrypt \<le> int (length (filter (\<lambda>u. ?N2 u \<noteq> None) (share_nodes alice_encrypt)))"
  proof -
    have "N1 ''http://n1'' \<noteq> None" "N1 ''http://n2'' \<noteq> None" using ready(2) by (auto simp: alice_nodes net_ready_def)
    then show ?thesis by (simp add: alice_nodes) (simp add: alice_encrypt_def)
  qed
  from run ready(1) mfile meta honest count show thesis by (rule that)
qed

lemma alice_range: "int64_range (ef_t alice_encrypt)" "ef_meta alice_encrypt \<noteq> ef_out alice_encrypt" "write_ok (alice_client ob)"
  by (simp_all add: alice_encrypt_def int64_range_def write_ok_def)

lemma alice_flags:
  "df_file alice_decrypt = ef_out alice_encrypt" "df_meta alice_decrypt = ef_meta alice_encrypt"
  "df_file alice_decrypt \<noteq> []" "df_meta alice_decrypt \<noteq> []" "df_seed alice_decrypt \<noteq> []" "df_out alice_decrypt \<noteq> []"
  "fst (ce_WriteFile (alice_client ob) (df_out alice_decrypt) d fs1) = None"
  by (simp_all add: alice_decrypt_def alice_encrypt_def alice_example_def)

lemma alice_library:
  "stellar_ok (ce_ext (alice_client ob))" "digest_ok (ce_ext (alice_client ob))"
  "xdr_ok (ce_ext (alice_client ob)) (ce_xdr (alice_client ob))"
  "shamir_ok (ce_Split (alice_client ob)) (ce_Combine (alice_client ob))" "client_random (alice_client ob)"
  "is_allowed alice_example contract_example"
  by (simp_all add: stellar_ok_example digest_ok_example xdr_ok_example shamir_ok_example client_random_example)
    (simp add: is_allowed_def contract_example_def)

lemma alice_later: "net_later X H N1 (N1(u := None))"
  by (simp add: net_later_def)


end
