(* ===== verification/Access.thy ===== *)
theory Access
  imports End_To_End "HOL-Library.Sublist"
begin

text \<open>
  Access control over the network: what has happened at the nodes when the decrypt command has
  succeeded.
\<close>

subsection \<open>A node that answers 200\<close>

lemma rate_limit_200:
  assumes "status_of (rateLimitMiddleware E h w r s) = Some 200" and "w_code w = None"
  obtains l where "status_of (h w r (s\<lparr>globalIPLimiter := l\<rparr>)) = Some 200"
    and "rateLimitMiddleware E h w r s = h w r (s\<lparr>globalIPLimiter := l\<rparr>)"
proof (cases "globalIPLimiter s")
  case None
  then have "s = s\<lparr>globalIPLimiter := None\<rparr>" by (cases s) simp
  with None that [of None] assms(1) show thesis by (simp add: rateLimitMiddleware_def)
next
  case (Some l)
  show thesis
    using that [of "Some (snd (ip_allow (ne_rate E) (ne_Now E) (hd (split_on (CHR '':'') (r_RemoteAddr r))) l))"] assms Some
    by (auto simp: rateLimitMiddleware_def Let_def case_prod_beta status_of_def split: if_splits)
qed

text \<open>With or without an IP limiter, a retrieval answered 200 was authorised.\<close>

lemma node_retrieve_200:
  fixes s :: "('db, 'lim) node_state"
  assumes "buildMux E cfg = Ok h" and "status_of (h new_writer r s) = Some 200" and "r_Path r = ''/retrieve''"
  obtains l req where "retrieve_authorized E (inner_request cfg r) (s\<lparr>globalIPLimiter := l\<rparr>) req"
proof -
  have health: "HealthCheckPath cfg \<notin> fixed_routes" using assms(1) by (simp add: buildMux_Ok)
  obtain w1 where w1: "w_code w1 = None"
    and "status_of (rateLimitMiddleware E (mux_serve (routes E cfg)) w1 (inner_request cfg r) s) = Some 200"
  proof
    let ?id = "if header_get r ''X-Request-Id'' = [] then generateRequestID E else header_get r ''X-Request-Id''"
    let ?w = "(header_set ''X-Request-Id'' ?id new_writer)\<lparr>w_status := 200\<rparr>"
    let ?out = "rateLimitMiddleware E (mux_serve (routes E cfg)) ?w (inner_request cfg r) s"
    show "w_code ?w = None" by simp
    show "status_of ?out = Some 200"
      using assms(1,2)
      by (cases ?out) (simp_all add: buildMux_Ok loggingMiddleware_def bodySizeLimitMiddleware_def inner_request_def
          Let_def status_of_def)
  qed
  then obtain l1 where out: "status_of (mux_serve (routes E cfg) w1 (inner_request cfg r) (s\<lparr>globalIPLimiter := l1\<rparr>)) = Some 200"
    by (blast elim: rate_limit_200)
  have "mux_serve (routes E cfg) w1 (inner_request cfg r) t = rateLimitMiddleware E (mux_serve (storeMux E)) w1 (inner_request cfg r) t"
    for t :: "('db, 'lim) node_state"
    by (rule routes_serve [OF health]) (simp add: assms(3) routes_def)
  with out obtain l2 where "status_of (mux_serve (storeMux E) w1 (inner_request cfg r) (s\<lparr>globalIPLimiter := l2\<rparr>)) = Some 200"
    using w1 by (auto elim: rate_limit_200)
  then have ok: "status_of (handleRetrieveShare E w1 (inner_request cfg r) (s\<lparr>globalIPLimiter := l2\<rparr>)) = Some 200"
    using storeMux_serve(2) [of "inner_request cfg r" E w1 "s\<lparr>globalIPLimiter := l2\<rparr>"] assms(3) by simp
  show thesis
  proof (rule ccontr)
    assume "\<not> thesis"
    then have "\<nexists>req. retrieve_authorized E (inner_request cfg r) (s\<lparr>globalIPLimiter := l2\<rparr>) req" using that by blast
    from handleRetrieveShare_unauthorized [OF this, of w1] ok w1 show False
      by (cases "handleRetrieveShare E w1 (inner_request cfg r) (s\<lparr>globalIPLimiter := l2\<rparr>)") (auto simp: status_of_def)
  qed
qed

subsection \<open>The shares behind a decryption\<close>

text \<open>A node released its share: the handler authorised this request in the state it found.\<close>

definition net_released :: "(string \<Rightarrow> 'lim host) \<Rightarrow> NodeRetrieveRequest \<Rightarrow> ('db, 'lim) node_state \<Rightarrow> string \<Rightarrow> bool" where
  "net_released H q s u \<longleftrightarrow>
     retrieve_authorized (h_env (H u))
       (inner_request (h_cfg (H u)) (client_post ''/retrieve'' (h_addr (H u)) (json_print (NodeRetrieveRequest_json q)))) s
       (retrieve_request q)"

lemma retrieve_released:
  assumes "fst (retrieveShareFromNode (net_client H C) u ob c caller sig msg tx N) = Ok shareHex"
  obtains s l where "N u = Some s" and "net_released H (share_request ob c caller sig msg tx) (s\<lparr>globalIPLimiter := l\<rparr>) u"
proof -
  let ?q = "share_request ob c caller sig msg tx"
  let ?b = "json_print (NodeRetrieveRequest_json ?q)"
  obtain resp N' where call: "net_call H ''POST'' [(''Content-Type'', ''application/json'')] (u @ ''/retrieve'') ?b N = (Inr resp, N')"
    and code: "resp_StatusCode resp = 200"
    using assms by (auto simp: retrieveShareFromNode_def Let_def split: sum.splits prod.splits if_splits option.splits)
  then obtain s where s: "N u = Some s" by (cases "N u") (simp_all add: net_call_def)
  have base: "N (url_base (u @ ''/retrieve'')) = Some s" using s by simp
  show thesis
    using call base
  proof (cases rule: net_call_cases)
    case (served h out)
    have h: "buildMux (h_env (H u)) (h_cfg (H u)) = Ok h"
      and out: "out = h new_writer (client_post ''/retrieve'' (h_addr (H u)) ?b) s"
      using served(1,2) by (simp_all add: client_post_def)
    have "status_of out = Some 200" using served(4) code by (auto split: option.splits)
    moreover have "r_Path (client_post ''/retrieve'' (h_addr (H u)) ?b) = ''/retrieve''" by (simp add: client_post_def)
    ultimately show thesis
      using that [OF s] retrieve_authorized_client node_retrieve_200 [OF h, of "client_post ''/retrieve'' (h_addr (H u)) ?b" s] out
      unfolding net_released_def by metis
  qed simp
qed

text \<open>Every collected share came from a node of its own position in the list.\<close>

lemma collect_released:
  assumes "fst (collect_shares C meta caller sig msg tx nodes acc n) = shares"
  obtains us where "subseq us nodes" and "length shares = length acc + length us"
    and "\<forall>u \<in> set us. \<exists>n' shareHex. fst (retrieveShareFromNode C (trim_space u) (md_ObjectID meta) (md_ContractID meta)
          caller sig msg tx n') = Ok shareHex"
  using assms
proof (induction nodes arbitrary: acc n thesis)
  case Nil
  show ?case by (rule Nil(1) [of "[]"]) (use Nil(2) in auto)
next
  case (Cons node nodes)
  let ?ask = "retrieveShareFromNode C (trim_space node) (md_ObjectID meta) (md_ContractID meta) caller sig msg tx n"
  show ?case
  proof (cases "md_Threshold meta \<le> int (length acc)")
    case True
    then show ?thesis using Cons.prems(1) [of "[]"] Cons.prems(2) by simp
  next
    case False
    obtain res n1 where ask: "?ask = (res, n1)" by force
    have skip: ?thesis if "fst (collect_shares C meta caller sig msg tx nodes acc n1) = shares"
      by (rule Cons.IH [OF _ that]) (use Cons.prems(1) in \<open>auto intro: list_emb_Cons\<close>)
    show ?thesis
    proof (cases "\<exists>shareHex b. res = Ok shareHex \<and> hex_DecodeString shareHex = Inr b")
      case True
      then obtain shareHex b where got: "res = Ok shareHex" "hex_DecodeString shareHex = Inr b" by blast
      then have "fst (collect_shares C meta caller sig msg tx nodes (acc @ [b]) n1) = shares"
        using Cons.prems(2) False ask by simp
      then show ?thesis
      proof (rule Cons.IH [rotated], goal_cases tail)
        case (tail us)
        have "fst ?ask = Ok shareHex" using ask got by simp
        then show ?case using tail Cons.prems(1) [of "node # us"] by auto
      qed
    next
      case no: False
      then show ?thesis using skip Cons.prems(2) False ask by (auto split: result.splits sum.splits)
    qed
  qed
qed

lemma handleDecrypt_Success:
  assumes "handleDecrypt C g fs n = (Success, fs', n')" and "fs (df_meta g) = Some metaBytes"
    and "Option.bind (json_whole (string_of_bytes metaBytes)) Metadata_of_json = Some meta"
  obtains caller sig msg tx where "decrypt_request C (df_seed g) meta = Ok (caller, sig, msg, tx)"
    and "md_Threshold meta \<le> int (length (fst (collect_shares C meta caller sig msg tx (md_Nodes meta) [] n)))"
  using assms
  by (auto simp: handleDecrypt_def decrypt_request_def Let_def not_less split: if_splits option.splits result.splits prod.splits)



end
