(* ===== verification/Attacks.thy ===== *)
theory Attacks
  imports Client_Admin Access
begin

text \<open>
  What the deployed pieces do to each other beyond the two commands: the administrative client
  against a node, and a granted request used again.
\<close>

subsection \<open>The administrative client against a node\<close>

definition net_admin :: "(string \<Rightarrow> 'lim host) \<Rightarrow> (string \<Rightarrow> string \<Rightarrow> string option) \<Rightarrow> ('db, 'lim) network admin_env" where
  "net_admin H newRequest =
     \<lparr>ae_NewRequest = newRequest,
      ae_Do = (\<lambda>q N. case net_call H (aq_Method q) (aq_Header q) (aq_URL q) (case aq_Body q of None \<Rightarrow> [] | Some b \<Rightarrow> b) N of
         (Inl e, N') \<Rightarrow> (Inl e, N')
       | (Inr resp, N') \<Rightarrow> (Inr (resp_StatusCode resp, Inr (resp_Body resp)), N'))\<rparr>"

lemma shares_url [simp]:
  "url_path (u @ ''/shares'') = ''/shares''" "url_base (u @ ''/shares'') = u"
  by (rule url_parts [simplified]; simp)+

lemma shares_not_200:
  fixes s :: "('db, 'lim) node_state"
  assumes "buildMux E cfg = Ok h" and "r_Path r = ''/shares''" and "\<not> path_matches (HealthCheckPath cfg) ''/shares''"
  shows "status_of (h new_writer r s) \<noteq> Some 200" and "db (outcome_state (h new_writer r s)) = db s"
proof -
  have miss: "mux_serve (routes E cfg) w (inner_request cfg r) t = Served (http_Error ''404 page not found'' 404 w) t"
    for w and t :: "('db, 'lim) node_state"
    using assms(2,3) by (auto simp: mux_serve_def routes_def path_matches_def)
  have "status_of (rateLimitMiddleware E (mux_serve (routes E cfg)) w (inner_request cfg r) s) \<noteq> Some 200 \<and>
      db (outcome_state (rateLimitMiddleware E (mux_serve (routes E cfg)) w (inner_request cfg r) s)) = db s"
    if "w_code w = None" for w
    using that by (auto simp: rateLimitMiddleware_def miss Let_def case_prod_beta status_of_def split: option.splits)
  from this [of "(header_set ''X-Request-Id'' (if header_get r ''X-Request-Id'' = [] then generateRequestID E
      else header_get r ''X-Request-Id'') new_writer)\<lparr>w_status := 200\<rparr>"] assms(1)
  show "status_of (h new_writer r s) \<noteq> Some 200" and "db (outcome_state (h new_writer r s)) = db s"
    by (auto simp: buildMux_Ok loggingMiddleware_def bodySizeLimitMiddleware_def inner_request_def Let_def status_of_def
        split: outcome.splits)
qed



subsection \<open>A granted request, used again\<close>

text \<open>Neither the signature nor the transaction of a retrieval is bound to the object: whoever has seen one request
  granted can send it again, signature, message and transaction unchanged, with the id of any other
  object of the same contract, and the node releases that object's share.\<close>

theorem request_replay:
  assumes "retrieve_authorized E r s req"
    and "r_Method r' = ''POST''" and "Option.bind (json_Decode r') RetrieveRequest_of_json = Some (req\<lparr>rq_ObjectID := ob\<rparr>)"
    and "ob \<noteq> []" and "sorobanRPCURL s' = sorobanRPCURL s" and "fst (checkObjectRateLimit E ob s')"
  shows "retrieve_authorized E r' s' (req\<lparr>rq_ObjectID := ob\<rparr>) \<and>
    handleRetrieveShare E w r' s' = release_share E (req\<lparr>rq_ObjectID := ob\<rparr>) w (snd (checkObjectRateLimit E ob s'))"
proof -
  have "retrieve_authorized E r' s' (req\<lparr>rq_ObjectID := ob\<rparr>)"
    using assms by (simp add: retrieve_authorized_def)
  then show ?thesis using handleRetrieveShare_authorized [of E r' s' "req\<lparr>rq_ObjectID := ob\<rparr>" w] by simp
qed

theorem request_replay_witness:
  "\<exists>r req. rq_ObjectID req = ''0b'' \<and>
     retrieve_authorized (node_for alice_example alice_example) r state_example req"
proof -
  let ?E = "node_for alice_example alice_example" and ?q = "(retrieve_example alice_example)\<lparr>nr_ObjectID := ''0b''\<rparr>"
  let ?r = "client_post ''/retrieve'' ''10.0.0.1:9'' (json_print (NodeRetrieveRequest_json ?q))"
  have lims: "objectLimiters state_example = []" "length alice_example = 32" by (simp_all add: state_example_def alice_example_def)
  have q: "retrieve_request ?q = (retrieve_request (retrieve_example alice_example))\<lparr>rq_ObjectID := ''0b''\<rparr>"
    by (simp add: retrieve_request_def)
  have dec: "Option.bind (json_Decode ?r) RetrieveRequest_of_json =
      Some ((retrieve_request (retrieve_example alice_example))\<lparr>rq_ObjectID := ''0b''\<rparr>)"
    by (simp add: json_Decode_client_post RetrieveRequest_of_client q)
  have post: "r_Method ?r = ''POST''" by (simp add: client_post_def)
  have "retrieve_authorized ?E ?r state_example ((retrieve_request (retrieve_example alice_example))\<lparr>rq_ObjectID := ''0b''\<rparr>)"
    using request_replay [OF retrieve_authorized_example [OF lims(2,1)] post dec _ refl fresh_quota [OF lims(1)]] by blast
  then show ?thesis by (intro exI conjI) auto
qed

subsection \<open>A share under another name\<close>

text \<open>C21: a share is not bound to the object it was made for (\<open>BuildAAD\<close> is never used): whoever has the record a node
  keeps for one object can store a copy under any other object of any other contract, and a
  retrieval the node grants for that one returns the same plaintext, so the contract of the
  original object is not asked.\<close>

theorem share_replay:
  fixes s :: "('db, 'lim) node_state"
  assumes "db_good (db s)" and "BoltStore.content (db s) k = Some share"
    and "DecryptShare (ne_ext E') (nodePrivateKey s) (slice_bytes (sh_EphemeralPubKey share)) (slice_bytes (sh_Ciphertext share))
          (slice_bytes (sh_Nonce share)) = Ok secret"
    and "store_accepts r req share" and "store_key req \<noteq> k" and "status_of (handleStoreShare E new_writer r s) = Some 200"
    and "s1 = outcome_state (handleStoreShare E new_writer r s)"
    and "retrieve_authorized E' r' s1 req'" and "retrieve_key req' = store_key req"
  shows "status_of (handleRetrieveShare E' new_writer r' s1) = Some 200 \<and>
    w_body (outcome_writer (handleRetrieveShare E' new_writer r' s1)) =
      json_print (RetrieveResponse_json (hex_EncodeToString secret)) @ [CHR 0x0A] \<and>
    BoltStore.content (db s1) k = Some share"
proof -
  have content: "BoltStore.content (db s1) = (BoltStore.content (db s))(store_key req \<mapsto> share)"
    using handleStoreShare_outcome [OF assms(1,4) refl, of E] assms(6,7) by (auto split: if_splits)
  have "nodePrivateKey s1 = nodePrivateKey s" using handleStoreShare_frame assms(7) by blast
  moreover have "BoltStore.content (db s1) (retrieve_key req') = Some share" using content assms(9) by simp
  then have "loadShare (db s1) (retrieve_key req') = Ok (share, True)" by (simp only: BoltStore.content_eq_Some)
  ultimately show ?thesis
    using assms(2,3,5) content
    by (simp add: handleRetrieveShare_authorized [OF assms(8)] release_defs status_of_def json_Encode_code)
qed

text \<open>A node that keeps a share of an object of the contract VICTIM.\<close>

definition victim_request :: "bytes \<Rightarrow> StoreRequest" where
  "victim_request ct = (store_request (store_example (replicate 32 2) ct (replicate 12 1)))\<lparr>sq_ContractID := ''VICTIM''\<rparr>"

definition victim_share :: "bytes \<Rightarrow> StoredShareDB" where
  "victim_share ct = \<lparr>sh_EphemeralPubKey = Some (replicate 32 2), sh_Ciphertext = Some ct, sh_Nonce = Some (replicate 12 1)\<rparr>"

definition victim_state :: "bytes \<Rightarrow> (alist_db, int) node_state" where
  "victim_state ct = outcome_state (save_share node_example (store_post (replicate 32 2) ct (replicate 12 1)) (victim_request ct)
     (victim_share ct) new_writer state_example)"

theorem share_replay_witness:
  "\<exists>ct s1. w_body (outcome_writer (handleRetrieveShare (node_for alice_example alice_example) new_writer (retrieve_post alice_example) s1)) =
      json_print (RetrieveResponse_json (hex_EncodeToString [9, 8, 7])) @ [CHR 0x0A] \<and>
    BoltStore.content (db s1) (store_key (victim_request ct)) = Some (victim_share ct) \<and>
    s1 = outcome_state (handleStoreShare node_example new_writer (store_post (replicate 32 2) ct (replicate 12 1)) (victim_state ct))"
proof -
  let ?n = "replicate 12 (1 :: byte)" and ?e = "replicate 32 (2 :: byte)" and ?E = "node_for alice_example alice_example"
  have key: "p256_Valid ext_example (replicate 32 1)" "p256_Valid ext_example ?e" "length ?n = 12"
      "int (length [9, 8, 7 :: byte]) \<le> gcm_max_plain" "length ?n = gcm_NonceSize"
      "p256_PublicKey ext_example (replicate 32 1) = replicate 32 1" "p256_PublicKey ext_example ?e = ?e"
    by (simp_all add: ext_example_def gcm_max_plain_def gcm_NonceSize_def)
  obtain ct where enc0: "ECIESEncrypt ext_example (Inr ?e) (Inr ?n) (p256_PublicKey ext_example (replicate 32 1)) [9, 8, 7] =
        Ok (p256_PublicKey ext_example ?e, ct, ?n)" and len: "length ct = length [9, 8, 7 :: byte] + gcm_Overhead"
    by (rule ECIESEncrypt_ok [OF p256_ok_example key(1,2,5,4)]) blast
  note enc = enc0 [unfolded key(7)]
  have ct: "ct \<noteq> []" using len by auto
  have dec: "DecryptShare ext_example (replicate 32 1) ?e ct ?n = Ok [9, 8, 7]"
    by (rule ECIES_DecryptShare [OF p256_ok_example key(1) _ _ enc]) (use key in auto)
  let ?q = "store_request (store_example ?e ct ?n)" and ?v = "victim_request ct" and ?sh = "victim_share ct" and ?s = "victim_state ct"
  let ?r = "store_post ?e ct ?n" and ?out = "handleStoreShare node_example new_writer (store_post ?e ct ?n) (victim_state ct)"
  have acc: "store_accepts ?r ?q ?sh"
    unfolding victim_share_def by (rule store_post_accepts) (use ct in auto)
  have good: "db_good (db state_example)" by (simp add: state_example_def)
  obtain d where d: "saveShare (db state_example) (store_key ?v) ?sh = Ok (Some (alist_DB d))"
    by (simp add: state_example_def saveShare_alist share_key_def)
  have s: "db ?s = Some (alist_DB d)" using save_share_Ok(2) [OF d] by (simp add: victim_state_def)
  have sgood: "db_good (db ?s)" using BoltStore.Save_good [OF good d] s by simp
  have held: "BoltStore.content (db ?s) = (BoltStore.content (db state_example))(store_key ?v \<mapsto> ?sh)"
    using BoltStore.content_Save [OF good d] s by (simp add: victim_share_def)
  have "length (store_key ?q) \<noteq> length (store_key ?v)"
    by (simp add: victim_request_def store_request_def store_example_def share_key_def cid_example_def)
  then have diff: "store_key ?q \<noteq> store_key ?v" by metis
  have fields: "nodePrivateKey ?s = replicate 32 1" "objectLimiters ?s = []"
    using d by (simp_all add: victim_state_def save_share_def Let_def logStoreOutcome_def log_to_audit_def state_example_def)
  have "BoltStore.content (db ?s) (store_key ?q) = None" using held diff free_example by simp
  then have free: "share_exists ?r (store_key ?q) (db ?s) = Ok False" by (rule share_exists_absent [OF sgood])
  obtain d2 where d2: "saveShare (db ?s) (store_key ?q) ?sh = Ok d2"
    unfolding s by (simp add: saveShare_alist store_key_example share_key_def)
  have ok: "status_of ?out = Some 200" and lims: "objectLimiters (outcome_state ?out) = []"
    using free d2 fields(2)
    by (simp_all add: handleStoreShare_accepts [OF acc] put_share_def save_share_def Let_def logStoreOutcome_def log_to_audit_def
        status_of_def json_Encode_code)
  have auth: "retrieve_authorized ?E (retrieve_post alice_example) (outcome_state ?out) (retrieve_request (retrieve_example alice_example))"
    by (rule retrieve_authorized_example [OF _ lims]) (simp add: alice_example_def)
  have "retrieve_key (retrieve_request (retrieve_example alice_example)) = store_key ?q"
    by (simp add: retrieve_request_fields store_key_example)
  from share_replay [where E' = ?E and secret = "[9, 8, 7]", OF sgood _ _ acc diff ok refl auth this]
  have "w_body (outcome_writer (handleRetrieveShare ?E new_writer (retrieve_post alice_example) (outcome_state ?out))) =
      json_print (RetrieveResponse_json (hex_EncodeToString [9, 8, 7])) @ [CHR 0x0A] \<and>
    BoltStore.content (db (outcome_state ?out)) (store_key ?v) = Some ?sh"
    using held dec fields(1) by (simp add: node_for_fields victim_share_def slice_bytes_def)
  then show ?thesis by blast
qed

end
