(* ===== verification/Client_Objectdb.thy ===== *)
theory Client_Objectdb
  imports Node_Store
begin

text \<open>
  \<open>client/objectdb.go\<close> and \<open>client/objects_schema.go\<close>: the client's registry of encrypted objects
  in a bbolt database. A map of tags is an association list without repeated keys, in the
  order in which \<open>encoding/json\<close> writes it. The text form of a time is a parameter; \<open>time_ok\<close>
  states that it is read back.
\<close>

record time_api =
  time_String :: "go_time \<Rightarrow> string"                 \<comment> \<open>MarshalJSON\<close>
  time_Parse :: "string \<Rightarrow> go_time option"            \<comment> \<open>UnmarshalJSON\<close>
  time_Date :: "go_time \<Rightarrow> string"                   \<comment> \<open>Format("2006-01-02")\<close>

definition time_ok :: "time_api \<Rightarrow> bool" where
  "time_ok T \<longleftrightarrow> (\<forall>t. time_Parse T (time_String T t) = Some t)"

record ObjectRecord =
  or_ObjectID :: string
  or_ContractID :: string
  or_Nodes :: "string list option"
  or_Threshold :: int
  or_EncFile :: string
  or_Tags :: "(string \<times> string) list option"
  or_CreatedAt :: go_time
  or_UpdatedAt :: go_time

definition strings_json :: "string list option \<Rightarrow> json" where
  "strings_json l = (case l of None \<Rightarrow> JNull | Some xs \<Rightarrow> JArr (map JStr xs))"

text \<open>\<open>omitempty\<close>: a nil or empty map is not written.\<close>

definition object_to_json :: "time_api \<Rightarrow> ObjectRecord \<Rightarrow> json" where
  "object_to_json T rec =
     JObj ([(''object_id'', JStr (or_ObjectID rec)), (''contract_id'', JStr (or_ContractID rec)),
            (''nodes'', strings_json (or_Nodes rec)), (''threshold'', JNum (show_int (or_Threshold rec))),
            (''enc_file'', JStr (or_EncFile rec))] @
           (case or_Tags rec of None \<Rightarrow> [] | Some [] \<Rightarrow> [] | Some (t # ts) \<Rightarrow> [(''tags'', json_strings (t # ts))]) @
           [(''created_at'', JStr (time_String T (or_CreatedAt rec))),
            (''updated_at'', JStr (time_String T (or_UpdatedAt rec)))])"

fun string_elems :: "json list \<Rightarrow> string list option" where
  "string_elems [] = Some []"
| "string_elems (JStr s # vs) = map_option (Cons s) (string_elems vs)"
| "string_elems (JNull # vs) = map_option (Cons []) (string_elems vs)"
| "string_elems (_ # vs) = None"

fun set_strings :: "string list option \<Rightarrow> json list \<Rightarrow> string list option option" where
  "set_strings cur [] = Some cur"
| "set_strings cur (JNull # vs) = set_strings None vs"
| "set_strings cur (JArr es # vs) =
     (case string_elems es of None \<Rightarrow> None | Some l \<Rightarrow> set_strings (Some l) vs)"
| "set_strings cur (_ # vs) = None"

fun add_tags :: "(string \<times> string) list \<Rightarrow> (string \<times> json) list \<Rightarrow> (string \<times> string) list option" where
  "add_tags cur [] = Some cur"
| "add_tags cur ((k, JStr s) # kvs) = add_tags (AList.update k s cur) kvs"
| "add_tags cur ((k, JNull) # kvs) = add_tags (AList.update k [] cur) kvs"
| "add_tags cur (_ # kvs) = None"

fun set_tags :: "(string \<times> string) list option \<Rightarrow> json list \<Rightarrow> (string \<times> string) list option option" where
  "set_tags cur [] = Some cur"
| "set_tags cur (JNull # vs) = set_tags None vs"
| "set_tags cur (JObj kvs # vs) =
     (case add_tags (case cur of None \<Rightarrow> [] | Some l \<Rightarrow> l) kvs of
        None \<Rightarrow> None | Some l \<Rightarrow> set_tags (Some l) vs)"
| "set_tags cur (_ # vs) = None"

fun set_time :: "time_api \<Rightarrow> go_time \<Rightarrow> json list \<Rightarrow> go_time option" where
  "set_time T cur [] = Some cur"
| "set_time T cur (JNull # vs) = set_time T cur vs"
| "set_time T cur (JStr s # vs) = (case time_Parse T s of None \<Rightarrow> None | Some t \<Rightarrow> set_time T t vs)"
| "set_time T cur (_ # vs) = None"

definition zero_time :: go_time where
  "zero_time = -62135596800000000000"

definition zero_object :: ObjectRecord where
  "zero_object = \<lparr>or_ObjectID = [], or_ContractID = [], or_Nodes = None, or_Threshold = 0, or_EncFile = [],
     or_Tags = None, or_CreatedAt = zero_time, or_UpdatedAt = zero_time\<rparr>"

definition object_of_json :: "time_api \<Rightarrow> json \<Rightarrow> ObjectRecord option" where
  "object_of_json T v =
     Option.bind (json_members v) (\<lambda>ms.
     Option.bind (string_field ''object_id'' ms) (\<lambda>ob.
     Option.bind (string_field ''contract_id'' ms) (\<lambda>c.
     Option.bind (set_strings None (field_values ''nodes'' ms)) (\<lambda>ns.
     Option.bind (int_field ''threshold'' ms) (\<lambda>t.
     Option.bind (string_field ''enc_file'' ms) (\<lambda>f.
     Option.bind (set_tags None (field_values ''tags'' ms)) (\<lambda>tags.
     Option.bind (set_time T zero_time (field_values ''created_at'' ms)) (\<lambda>ca.
     Option.bind (set_time T zero_time (field_values ''updated_at'' ms)) (\<lambda>ua.
       Some \<lparr>or_ObjectID = ob, or_ContractID = c, or_Nodes = ns, or_Threshold = t, or_EncFile = f,
             or_Tags = tags, or_CreatedAt = ca, or_UpdatedAt = ua\<rparr>)))))))))"

subsection \<open>Operations\<close>

definition objBucket :: string where
  "objBucket = ''objects''"

definition initObjectDB ::
    "(string \<Rightarrow> string + 'db DB) \<Rightarrow> string \<Rightarrow> unit result \<times> 'db db_ptr" where
  "initObjectDB open_db path =
     (case open_db path of
        Inl e \<Rightarrow> (Err e, None)
      | Inr d \<Rightarrow>
          (case db_Update (Some d) (\<lambda>B x. of_sum (bolt_create B x objBucket)) of
             Ok db' \<Rightarrow> (Ok (), db')
           | Err e \<Rightarrow> (Err e, Some d)
           | Panic p \<Rightarrow> (Panic p, Some d)))"

definition saveObject :: "time_api \<Rightarrow> 'db db_ptr \<Rightarrow> ObjectRecord \<Rightarrow> 'db db_ptr result" where
  "saveObject T objDB rec =
     (let data = json_print (object_to_json T rec)
      in db_Update objDB (\<lambda>B x.
           if \<not> bolt_bucket B x objBucket then Panic nil_deref
           else of_sum (bolt_put B x objBucket (or_ObjectID rec) data)))"

definition decode_object :: "time_api \<Rightarrow> string \<Rightarrow> ObjectRecord result" where
  "decode_object T v =
     (case Option.bind (json_whole v) (object_of_json T) of
        None \<Rightarrow> Err ''json: cannot unmarshal object record''
      | Some rec \<Rightarrow> Ok rec)"

definition loadObject :: "time_api \<Rightarrow> 'db db_ptr \<Rightarrow> string \<Rightarrow> (ObjectRecord \<times> bool) result" where
  "loadObject T objDB oid =
     bind_result
       (db_View objDB (\<lambda>B x.
          if \<not> bolt_bucket B x objBucket then Panic nil_deref
          else (case bolt_get B x objBucket oid of
                  None \<Rightarrow> Ok zero_object
                | Some v \<Rightarrow> decode_object T v)))
       (\<lambda>rec. Ok (rec, or_ObjectID rec \<noteq> []))"

text \<open>A tag filter is the map given on the command line; an empty value asks for the key only.\<close>

definition matchesTags :: "ObjectRecord \<Rightarrow> (string \<times> string) list \<Rightarrow> bool" where
  "matchesTags rec flt =
     (let tags = (case or_Tags rec of None \<Rightarrow> Map.empty | Some l \<Rightarrow> map_of l)
      in list_all (\<lambda>(k, v). if v = [] then tags k \<noteq> None
                           else (case tags k of None \<Rightarrow> [] | Some x \<Rightarrow> x) = v) flt)"

fun collect_objects ::
    "time_api \<Rightarrow> (string \<times> string) list \<Rightarrow> (string \<times> string) list \<Rightarrow> ObjectRecord list result" where
  "collect_objects T flt [] = Ok []"
| "collect_objects T flt ((k, v) # kvs) =
     bind_result (decode_object T v) (\<lambda>rec.
     bind_result (collect_objects T flt kvs) (\<lambda>recs.
       Ok (if matchesTags rec flt then rec # recs else recs)))"

definition listObjects :: "time_api \<Rightarrow> 'db db_ptr \<Rightarrow> (string \<times> string) list \<Rightarrow> ObjectRecord list result" where
  "listObjects T objDB tagFilter =
     db_View objDB (\<lambda>B x.
       if \<not> bolt_bucket B x objBucket then Panic nil_deref
       else collect_objects T tagFilter (bolt_foreach B x objBucket))"

definition deleteObject :: "'db db_ptr \<Rightarrow> string \<Rightarrow> 'db db_ptr result" where
  "deleteObject objDB oid =
     db_Update objDB (\<lambda>B x.
       if \<not> bolt_bucket B x objBucket then Panic nil_deref
       else of_sum (bolt_delete B x objBucket oid))"

definition pad_right :: "nat \<Rightarrow> string \<Rightarrow> string" where
  "pad_right n s = s @ replicate (n - length s) (CHR 0x20)"

definition printObjects :: "time_api \<Rightarrow> ObjectRecord list \<Rightarrow> string list" where
  "printObjects T records =
     (if records = [] then [''No encrypted objects found.'']
      else [pad_right 36 ''OBJECT ID'' @ ''  '' @ pad_right 12 ''CREATED'' @ ''  '' @ pad_right 3 ''THR'' @ ''  '' @ ''FILE'',
            replicate 80 (CHR ''-'')] @
           map (\<lambda>r. pad_right 36 (or_ObjectID r) @ ''  '' @ pad_right 12 (time_Date T (or_CreatedAt r)) @ ''  '' @
                     pad_right 3 (show_int (or_Threshold r)) @ ''  '' @ or_EncFile r) records)"

definition closeObjectDB :: "'db db_ptr \<Rightarrow> 'db db_ptr" where
  "closeObjectDB objDB =
     (case objDB of None \<Rightarrow> None | Some d \<Rightarrow> Some (d\<lparr>bdata := snd (bolt_close (bolt d) (bdata d))\<rparr>))"

definition homeDir :: "(string \<Rightarrow> string) \<Rightarrow> string" where
  "homeDir getenv = (if getenv ''HOME'' \<noteq> [] then getenv ''HOME'' else ''.'')"

subsection \<open>The codec of a record\<close>

text \<open>
  A record the codec reads back as it was: the threshold is an int, and the tags have distinct
  keys and are nil rather than empty.
\<close>

definition object_valid :: "ObjectRecord \<Rightarrow> bool" where
  "object_valid rec \<longleftrightarrow>
     int64_range (or_Threshold rec) \<and>
     (case or_Tags rec of None \<Rightarrow> True | Some l \<Rightarrow> l \<noteq> [] \<and> distinct (map fst l))"

lemma fold_object_names:
  "fold_name ''object_id'' = ''object_id''" "fold_name ''contract_id'' = ''contract_id''"
  "fold_name ''nodes'' = ''nodes''" "fold_name ''threshold'' = ''threshold''" "fold_name ''enc_file'' = ''enc_file''"
  "fold_name ''tags'' = ''tags''" "fold_name ''created_at'' = ''created_at''" "fold_name ''updated_at'' = ''updated_at''"
  by code_simp+

lemma string_elems_JStr [simp]: "string_elems (map JStr xs) = Some xs"
  by (induction xs) simp_all

lemma set_strings_json [simp]: "set_strings cur [strings_json l] = Some l"
  by (cases l) (simp_all add: strings_json_def)

lemma AList_update_append: "k \<notin> set (map fst l) \<Longrightarrow> AList.update k v l = l @ [(k, v)]"
  by (induction l) auto

lemma add_tags_strings:
  "distinct (map fst (cur @ l)) \<Longrightarrow> add_tags cur (map (apsnd JStr) l) = Some (cur @ l)"
proof (induction l arbitrary: cur)
  case (Cons kv l)
  obtain k v where kv: "kv = (k, v)" by (cases kv)
  then have "AList.update k v cur = cur @ [(k, v)]" using Cons.prems by (intro AList_update_append) auto
  then show ?case using Cons.IH [of "cur @ [(k, v)]"] Cons.prems kv by simp
qed simp

lemma json_ok_strings: "json_ok (json_strings l)"
  by auto

interpretation object_json: json_codec "object_to_json T" "object_of_json T"
    "\<lambda>rec. time_ok T \<and> object_valid rec" for T
proof
  fix rec :: ObjectRecord
  assume ok: "time_ok T \<and> object_valid rec"
  show "json_ok (object_to_json T rec)"
    by (auto simp: object_to_json_def strings_json_def split: option.splits list.splits)
  have tags: "set_tags None [json_strings (t # ts)] = Some (Some (t # ts))" if "or_Tags rec = Some (t # ts)" for t ts
    using that ok add_tags_strings [of "[]" "t # ts"] by (auto simp: object_valid_def)
  show "object_of_json T (object_to_json T rec) = Some rec"
    using ok tags
    by (cases "or_Tags rec" rule: option.exhaust; cases "the (or_Tags rec)")
      (auto simp: object_of_json_def object_to_json_def object_valid_def time_ok_def json_members_def string_field_def
        int_field_def field_values_Cons fold_object_names)
qed

subsection \<open>The registry\<close>

text \<open>The registry is open and has its bucket.\<close>

definition obj_good :: "'db db_ptr \<Rightarrow> bool" where
  "obj_good db \<longleftrightarrow>
     (case db of
        None \<Rightarrow> False
      | Some d \<Rightarrow> bolt_ok (bolt d) \<and> (\<forall>w. bolt_begin (bolt d) (bdata d) w = None) \<and>
                  bolt_bucket (bolt d) (bdata d) objBucket)"

lemma obj_good_same:
  "obj_good (Some d) \<Longrightarrow> bolt_same (bolt d) (bdata d) y \<Longrightarrow> obj_good (Some (d\<lparr>bdata := y\<rparr>))"
  by (simp add: obj_good_def bolt_same_def)

lemma loadObject_good:
  "obj_good (Some d) \<Longrightarrow> loadObject T (Some d) k =
     (case bolt_get (bolt d) (bdata d) objBucket k of
        None \<Rightarrow> Ok (zero_object, False)
      | Some v \<Rightarrow> bind_result (decode_object T v) (\<lambda>rec. Ok (rec, or_ObjectID rec \<noteq> [])))"
  by (simp add: loadObject_def db_View_def obj_good_def zero_object_def split: option.splits)

lemma saveObject_good:
  assumes "obj_good db" and "saveObject T db rec = Ok db'"
  obtains d y where "db = Some d" and "db' = Some (d\<lparr>bdata := y\<rparr>)"
    and "bolt_put (bolt d) (bdata d) objBucket (or_ObjectID rec) (json_print (object_to_json T rec)) = Inr y"
  using assms by (cases db) (auto simp: saveObject_def db_Update_def obj_good_def split: if_splits)

lemma deleteObject_good:
  assumes "obj_good db" and "deleteObject db k = Ok db'"
  obtains d y where "db = Some d" and "db' = Some (d\<lparr>bdata := y\<rparr>)"
    and "bolt_delete (bolt d) (bdata d) objBucket k = Inr y"
  using assms by (cases db) (auto simp: deleteObject_def db_Update_def obj_good_def split: if_splits)

lemma decode_object_print:
  "time_ok T \<Longrightarrow> object_valid rec \<Longrightarrow> decode_object T (json_print (object_to_json T rec)) = Ok rec"
  using object_json.unmarshal_marshal [of T rec] by (simp add: decode_object_def)

lemma saveObject_loadObject:
  assumes "obj_good db" and "time_ok T" and "object_valid rec" and "saveObject T db rec = Ok db'"
  shows "obj_good db'"
    and "loadObject T db' k =
      (if k = or_ObjectID rec then Ok (rec, or_ObjectID rec \<noteq> []) else loadObject T db k)"
proof -
  obtain d y where d: "db = Some d" "db' = Some (d\<lparr>bdata := y\<rparr>)"
    and put: "bolt_put (bolt d) (bdata d) objBucket (or_ObjectID rec) (json_print (object_to_json T rec)) = Inr y"
    using assms(1,4) by (rule saveObject_good)
  have ok: "bolt_ok (bolt d)" using assms(1) d by (simp add: obj_good_def)
  show good: "obj_good db'" using obj_good_same bolt_putD(1) [OF ok put] assms(1) d by simp
  show "loadObject T db' k =
      (if k = or_ObjectID rec then Ok (rec, or_ObjectID rec \<noteq> []) else loadObject T db k)"
    using assms(1) good d decode_object_print [OF assms(2,3)]
    by (simp add: loadObject_good bolt_putD(2) [OF ok put])
qed

lemma deleteObject_loadObject:
  assumes "obj_good db" and "deleteObject db k = Ok db'"
  shows "loadObject T db' k' = (if k' = k then Ok (zero_object, False) else loadObject T db k')"
proof -
  obtain d y where d: "db = Some d" "db' = Some (d\<lparr>bdata := y\<rparr>)"
    and del: "bolt_delete (bolt d) (bdata d) objBucket k = Inr y"
    using assms by (rule deleteObject_good)
  have ok: "bolt_ok (bolt d)" using assms(1) d by (simp add: obj_good_def)
  have "obj_good db'" using obj_good_same bolt_deleteD(1) [OF ok del] assms(1) d by simp
  then show ?thesis using assms(1) d by (simp add: loadObject_good bolt_deleteD(2) [OF ok del])
qed

lemma collect_objects_set:
  "collect_objects T flt kvs = Ok recs \<Longrightarrow>
     set recs = {rec. \<exists>k v. (k, v) \<in> set kvs \<and> decode_object T v = Ok rec \<and> matchesTags rec flt}"
proof (induction kvs arbitrary: recs)
  case (Cons kv kvs)
  obtain k v where kv: "kv = (k, v)" by (cases kv)
  with Cons.prems obtain rec recs' where "decode_object T v = Ok rec" "collect_objects T flt kvs = Ok recs'"
      "recs = (if matchesTags rec flt then rec # recs' else recs')"
    by auto
  then show ?case using Cons.IH [of recs'] kv by auto
qed simp


text \<open>C39: listing returns exactly the registered records that carry every tag of the filter: for a filter entry
  with a value the record has that value under the key, for one without a value it has the key.\<close>

theorem listObjects_filter:
  assumes "obj_good (Some d)" and "listObjects T (Some d) flt = Ok recs"
  shows "rec \<in> set recs \<longleftrightarrow>
    (\<exists>k v. bolt_get (bolt d) (bdata d) objBucket k = Some v \<and> decode_object T v = Ok rec \<and>
       (\<forall>(t, x) \<in> set flt. \<exists>tags y. or_Tags rec = Some tags \<and> map_of tags t = Some y \<and> (x \<noteq> [] \<longrightarrow> y = x)))"
proof -
  let ?l = "bolt_foreach (bolt d) (bdata d) objBucket"
  have ok: "bolt_ok (bolt d)" using assms(1) by (simp add: obj_good_def)
  have "collect_objects T flt ?l = Ok recs"
    using assms by (simp add: listObjects_def db_View_def obj_good_def)
  moreover have "(k, v) \<in> set ?l \<longleftrightarrow> bolt_get (bolt d) (bdata d) objBucket k = Some v" for k v
    using map_of_eq_Some_iff [OF bolt_foreachD(1) [OF ok]] bolt_foreachD(2) [OF ok] by metis
  moreover have "matchesTags rec flt \<longleftrightarrow>
      (\<forall>(t, x) \<in> set flt. \<exists>tags y. or_Tags rec = Some tags \<and> map_of tags t = Some y \<and> (x \<noteq> [] \<longrightarrow> y = x))"
  proof -
    have tag: "(if x = [] then tags t \<noteq> None else (case tags t of None \<Rightarrow> [] | Some y \<Rightarrow> y) = x) \<longleftrightarrow>
        (\<exists>y. tags t = Some y \<and> (x \<noteq> [] \<longrightarrow> y = x))" for tags :: "string \<Rightarrow> string option" and t x
      by (cases "tags t") auto
    show ?thesis
      by (cases "or_Tags rec") (simp_all add: matchesTags_def list_all_iff Let_def tag)
  qed
  ultimately show ?thesis using collect_objects_set by auto
qed

subsection \<open>A concrete registry\<close>

definition parse_int :: "string \<Rightarrow> int option" where
  "parse_int s = (case s of [] \<Rightarrow> None
     | c # cs \<Rightarrow> if c = CHR ''-'' then map_option (\<lambda>n. - int n) (read_nat cs) else map_option int (read_nat s))"

lemma parse_int_show_int: "parse_int (show_int i) = Some i"
proof (cases "i < 0")
  case True
  then show ?thesis by (simp add: parse_int_def show_int_def)
next
  case False
  obtain c cs where s: "show_nat (nat i) = c # cs" by (cases "show_nat (nat i)") simp_all
  then have "is_digit c" using show_nat_is_digit [of "nat i"] by simp
  then have "c \<noteq> CHR ''-''" by (auto simp: is_digit_def digit_val_def)
  then show ?thesis using False s read_nat_show_nat [of "nat i"] by (simp add: parse_int_def show_int_def)
qed

definition time_example :: time_api where
  "time_example = \<lparr>time_String = show_int, time_Parse = parse_int, time_Date = (\<lambda>t. ''2024-01-01'')\<rparr>"

lemma time_ok_example: "time_ok time_example"
  by (simp add: time_ok_def time_example_def parse_int_show_int)

definition obj_DB :: "alist_db \<Rightarrow> alist_db db_ptr" where
  "obj_DB x = Some \<lparr>bolt = bucket_bolt objBucket, bdata = x\<rparr>"

lemma obj_good_example: "obj_good (obj_DB x)"
  by (simp add: obj_good_def obj_DB_def bolt_ok_bucket) (simp add: bucket_bolt_def)

lemma saveObject_example:
  "or_ObjectID rec \<noteq> [] \<Longrightarrow> saveObject T (obj_DB x) rec =
     Ok (obj_DB (AList.update (or_ObjectID rec) (json_print (object_to_json T rec)) x))"
  by (simp add: saveObject_def db_Update_def obj_DB_def bucket_bolt_def of_sum_def)

lemma deleteObject_example: "deleteObject (obj_DB x) k = Ok (obj_DB (AList.delete k x))"
  by (simp add: deleteObject_def db_Update_def obj_DB_def bucket_bolt_def of_sum_def)

definition object_example :: ObjectRecord where
  "object_example = \<lparr>or_ObjectID = ''o1'', or_ContractID = ''C'', or_Nodes = Some [''http://n1'', ''http://n2''],
     or_Threshold = 2, or_EncFile = ''a.enc'', or_Tags = Some [(''env'', ''prod'')], or_CreatedAt = 5, or_UpdatedAt = 7\<rparr>"

lemma object_example_ok: "object_valid object_example" "or_ObjectID object_example \<noteq> []"
  by (simp_all add: object_valid_def object_example_def int64_range_def)


theorem listObjects_filter_witness:
  "\<exists>recs. listObjects time_example (obj_DB [(''o1'', json_print (object_to_json time_example object_example))])
      [(''env'', [])] = Ok recs \<and> object_example \<in> set recs"
proof -
  let ?v = "json_print (object_to_json time_example object_example)"
  let ?d = "\<lparr>bolt = bucket_bolt objBucket, bdata = [(''o1'', ?v)]\<rparr>"
  have dec: "decode_object time_example ?v = Ok object_example"
    by (rule decode_object_print [OF time_ok_example object_example_ok(1)])
  have list: "\<exists>recs. listObjects time_example (Some ?d) [(''env'', [])] = Ok recs"
    by (simp add: listObjects_def db_View_def bucket_bolt_def dec)
  then obtain recs where recs: "listObjects time_example (Some ?d) [(''env'', [])] = Ok recs" by blast
  have "obj_good (Some ?d)" using obj_good_example [of "[(''o1'', ?v)]"] by (simp add: obj_DB_def)
  note flt = listObjects_filter [OF this recs, of object_example]
  have "bolt_get (bolt ?d) (bdata ?d) objBucket ''o1'' = Some ?v" by (simp add: bucket_bolt_def)
  moreover have "or_Tags object_example = Some [(''env'', ''prod'')]" by (simp add: object_example_def)
  ultimately have "object_example \<in> set recs" using flt dec by auto
  with recs show ?thesis by (auto simp: obj_DB_def)
qed

end
