(* ===== verification/Client_Sdk.thy ===== *)
theory Client_Sdk
  imports Go_Json
begin

text \<open>
  The package \<open>pkg/sorobanencrypt\<close>, the Go SDK, and the two programs of \<open>examples\<close> that use it.
  A program ends with what it prints, or with the error it logs and exit code 1.
\<close>

subsection \<open>Options\<close>

record clientOptions =
  co_nodes :: "string list"
  co_threshold :: int
  co_contractID :: string
  co_sorobanRPC :: string
  co_apiKey :: string

type_synonym sdk_option = "clientOptions \<Rightarrow> clientOptions"

definition WithNodes :: "string list \<Rightarrow> sdk_option" where
  "WithNodes nodes o' = o'\<lparr>co_nodes := nodes\<rparr>"

definition WithThreshold :: "int \<Rightarrow> sdk_option" where
  "WithThreshold t o' = o'\<lparr>co_threshold := t\<rparr>"

definition WithContractID :: "string \<Rightarrow> sdk_option" where
  "WithContractID i o' = o'\<lparr>co_contractID := i\<rparr>"

definition WithSorobanRPC :: "string \<Rightarrow> sdk_option" where
  "WithSorobanRPC url o' = o'\<lparr>co_sorobanRPC := url\<rparr>"

definition WithAPIKey :: "string \<Rightarrow> sdk_option" where
  "WithAPIKey key o' = o'\<lparr>co_apiKey := key\<rparr>"

definition NewClient :: "sdk_option list \<Rightarrow> clientOptions" where
  "NewClient opts =
     foldl (\<lambda>o' opt. opt o')
       \<lparr>co_nodes = [], co_threshold = 0, co_contractID = [],
        co_sorobanRPC = ''https://soroban-testnet.stellar.org:443'', co_apiKey = []\<rparr> opts"

record ObjectMetadata =
  om_ObjectID :: string
  om_ContractID :: string
  om_Nodes :: "string list"
  om_Threshold :: int
  om_Tags :: "(string \<times> string) list option"
  om_EncFile :: string
  om_CreatedAt :: go_time

record EncryptOptions =
  eo_OutputPath :: string
  eo_Tags :: "(string \<times> string) list option"
  eo_Compress :: bool

record DecryptOptions =
  do_OutputPath :: string
  do_CallerAddress :: string
  do_SeedPhrase :: string

definition generateObjectID :: "bytes \<Rightarrow> string" where
  "generateObjectID rnd = hex_EncodeToString rnd"

text \<open>
  \<open>Encrypt\<close> and \<open>Decrypt\<close> of the SDK: neither reads a file nor contacts a node. \<open>rnd\<close> is what
  \<open>rand.Read\<close> left in the 16-byte buffer and \<open>now\<close> the time.
\<close>

definition sdk_Encrypt :: "clientOptions \<Rightarrow> bytes \<Rightarrow> go_time \<Rightarrow> string \<Rightarrow> EncryptOptions \<Rightarrow> ObjectMetadata result" where
  "sdk_Encrypt c rnd now filePath opts =
     (if co_nodes c = [] then Err ''no nodes configured''
      else if co_contractID c = [] then Err ''contract_id is required''
      else Ok \<lparr>om_ObjectID = generateObjectID rnd, om_ContractID = co_contractID c, om_Nodes = co_nodes c,
               om_Threshold = co_threshold c, om_Tags = eo_Tags opts,
               om_EncFile = (if eo_OutputPath opts \<noteq> [] then eo_OutputPath opts else filePath @ ''.enc''), om_CreatedAt = now\<rparr>)"

definition sdk_Decrypt :: "clientOptions \<Rightarrow> ObjectMetadata option \<Rightarrow> DecryptOptions \<Rightarrow> unit result" where
  "sdk_Decrypt c meta opts =
     (if meta = None then Err ''metadata is required''
      else if do_CallerAddress opts = [] then Err ''caller_address is required''
      else Ok ())"

text \<open>\<open>pkg/sorobanencrypt/xdr\<close>: an empty transaction without an error.\<close>

definition xdr_BuildApproveTransaction :: "string \<Rightarrow> string \<Rightarrow> string \<Rightarrow> string result" where
  "xdr_BuildApproveTransaction rpcURL contractID callerAddress = Ok []"

subsection \<open>The examples\<close>

definition example_client :: clientOptions where
  "example_client =
     NewClient [WithNodes [''http://node1:8080'', ''http://node2:8080'', ''http://node3:8080''], WithThreshold 2,
                WithContractID ''CCONTRACT_ID_HERE'']"

definition encrypt_file_main :: "bytes \<Rightarrow> go_time \<Rightarrow> string result" where
  "encrypt_file_main rnd now =
     bind_result (sdk_Encrypt example_client rnd now ''secret.txt''
         \<lparr>eo_OutputPath = ''secret.txt.enc'', eo_Tags = Some [(''env'', ''production''), (''owner'', ''alice'')], eo_Compress = False\<rparr>)
       (\<lambda>meta. Ok (''Encrypted: object_id='' @ om_ObjectID meta @ '' enc_file='' @ om_EncFile meta @ [CHR 0x0A]))"

text \<open>\<open>now0\<close> is the zero time, which the program leaves in the metadata.\<close>

definition decrypt_file_main :: "go_time \<Rightarrow> string result" where
  "decrypt_file_main now0 =
     bind_result (sdk_Decrypt example_client
         (Some \<lparr>om_ObjectID = ''OBJECT_ID_FROM_ENCRYPT'', om_ContractID = ''CCONTRACT_ID_HERE'',
                om_Nodes = [''http://node1:8080'', ''http://node2:8080'', ''http://node3:8080''], om_Threshold = 2,
                om_Tags = None, om_EncFile = ''secret.txt.enc'', om_CreatedAt = now0\<rparr>)
         \<lparr>do_OutputPath = ''secret.txt'', do_CallerAddress = ''GCALLER_ADDRESS'', do_SeedPhrase = []\<rparr>)
       (\<lambda>_. Ok [])"

text \<open>The last option given for a field decides it.\<close>

lemma NewClient_snoc: "NewClient (opts @ [opt]) = opt (NewClient opts)"
  by (simp add: NewClient_def)

text \<open>Both programs report success although the SDK has neither read a file nor asked a node: what they print depends
  on the random bytes alone, and a decryption of an object that was never encrypted succeeds.\<close>

lemma examples_succeed:
  "encrypt_file_main rnd now =
     Ok (''Encrypted: object_id='' @ hex_EncodeToString rnd @ '' enc_file=secret.txt.enc'' @ [CHR 0x0A])"
  "decrypt_file_main now0 = Ok []"
  by (simp_all add: encrypt_file_main_def decrypt_file_main_def sdk_Encrypt_def sdk_Decrypt_def example_client_def
      NewClient_def WithNodes_def WithThreshold_def WithContractID_def generateObjectID_def)

lemma sdk_Decrypt_ignores: "do_CallerAddress opts \<noteq> [] \<Longrightarrow> sdk_Decrypt c (Some meta) opts = Ok ()"
  by (simp add: sdk_Decrypt_def)

end
