(* ===== verification/Client_Streaming.thy ===== *)
theory Client_Streaming
  imports Client_Crypto
begin

text \<open>
  \<open>client/streaming.go\<close>: the chunked \<open>.enc\<close> format (version 2), its decoder, and the decoder of
  the single-chunk version 1. The file system is a map from paths to contents; a file that
  is created and then not completed stays with what was written, as on disk. \<open>rand.Read\<close> for
  the i-th chunk delivers \<open>nonces i\<close>. Paths that cannot be opened or created are given by
  two predicates.
\<close>

type_synonym fs = "string \<Rightarrow> bytes option"

record fs_env =
  can_open :: "string \<Rightarrow> bool"
  can_create :: "string \<Rightarrow> bool"

datatype stream_error =
    OpenSource | CreateDest | CipherError string | RandError string
  | OpenEnc | ReadMagic | UnknownFormat bytes
  | V1TooShort | V1DecryptionFailed string
  | ReadChunkCount | InvalidChunkCount "32 word" | ReadChunkSize nat
  | ReadChunk nat | ChunkTooShort nat | DecryptChunk nat string | WriteFile

datatype 'a stream_result = SOk 'a | SErr stream_error | SPanic string

definition v1Magic :: bytes where
  "v1Magic = bytes_of_string ''SE01''"

definition v2Magic :: bytes where
  "v2Magic = bytes_of_string ''SE02''"

definition chunkSize :: nat where
  "chunkSize = 4 * 1024 * 1024"

subsection \<open>binary.Write and binary.Read of a little-endian uint32\<close>

definition put_u32 :: "32 word \<Rightarrow> bytes" where
  "put_u32 w = map (\<lambda>i. ucast (drop_bit (8 * i) w)) [0, 1, 2, 3]"

definition get_u32 :: "bytes \<Rightarrow> (32 word \<times> bytes) option" where
  "get_u32 r =
     (case r of
        a # b # c # d # r' \<Rightarrow>
          Some (ucast a OR push_bit 8 (ucast b) OR push_bit 16 (ucast c) OR push_bit 24 (ucast d), r')
      | _ \<Rightarrow> None)"

text \<open>\<open>io.ReadFull\<close> into a buffer of n bytes: the bytes and the rest, or end of file.\<close>

definition read_full :: "nat \<Rightarrow> bytes \<Rightarrow> (bytes \<times> bytes) option" where
  "read_full n r = (if length r < n then None else Some (take n r, drop n r))"

subsection \<open>Encrypting\<close>

text \<open>
  The chunk loop: \<open>io.ReadFull\<close> fills the buffer; a short read ends the loop after its bytes
  are sealed, an empty read ends it at once.
\<close>

function encrypt_chunks ::
    "(block \<Rightarrow> block) \<Rightarrow> (nat \<Rightarrow> string + bytes) \<Rightarrow> nat \<Rightarrow> bytes \<Rightarrow> bytes list stream_result" where
  "encrypt_chunks e nonces i src =
     (if src = [] then SOk []
      else case nonces i of
        Inl err \<Rightarrow> SErr (RandError err)
      | Inr nonce \<Rightarrow>
          (case gcm_Seal e nonce (take chunkSize src) [] of
             Panic p \<Rightarrow> SPanic p
           | Err err \<Rightarrow> SErr (CipherError err)
           | Ok ct \<Rightarrow>
               if length src < chunkSize then SOk [nonce @ ct]
               else (case encrypt_chunks e nonces (Suc i) (drop chunkSize src) of
                       SOk cs \<Rightarrow> SOk ((nonce @ ct) # cs)
                     | SErr err \<Rightarrow> SErr err
                     | SPanic p \<Rightarrow> SPanic p)))"
  by pat_completeness auto
termination
  by (relation "measure (\<lambda>(e, nonces, i, src). length src)") (auto simp: chunkSize_def)

declare encrypt_chunks.simps [simp del]

definition EncryptFileStreaming ::
    "ext \<Rightarrow> fs_env \<Rightarrow> (nat \<Rightarrow> string + bytes) \<Rightarrow> string \<Rightarrow> string \<Rightarrow> bytes \<Rightarrow> bool \<Rightarrow>
     fs \<Rightarrow> unit stream_result \<times> fs" where
  "EncryptFileStreaming X env nonces srcPath dstPath key compress fs =
     (if \<not> can_open env srcPath \<or> fs srcPath = None then (SErr OpenSource, fs)
      else if \<not> can_create env dstPath then (SErr CreateDest, fs)
      else
        let fs1 = fs(dstPath \<mapsto> v2Magic);
            src = the (if srcPath = dstPath then fs1 srcPath else fs srcPath)
        in case aes_NewCipher (aes X) key of
             Panic p \<Rightarrow> (SPanic p, fs1)
           | Err err \<Rightarrow> (SErr (CipherError err), fs1)
           | Ok e \<Rightarrow>
               (case encrypt_chunks e nonces 0 src of
                  SErr err \<Rightarrow> (SErr err, fs1)
                | SPanic p \<Rightarrow> (SPanic p, fs1)
                | SOk chunks \<Rightarrow>
                    (SOk (), fs1(dstPath \<mapsto> v2Magic @ put_u32 (word_of_nat (length chunks)) @
                       concat (map (\<lambda>c. put_u32 (word_of_nat (length c))) chunks) @
                       concat chunks))))"

subsection \<open>Decrypting\<close>

text \<open>
  Both decoders drop the error of \<open>aes.NewCipher\<close>; for a key of a wrong length \<open>cipher.NewGCM\<close>
  then calls a method of a nil block.
\<close>

definition decryptV1 ::
    "ext \<Rightarrow> fs_env \<Rightarrow> bytes \<Rightarrow> string \<Rightarrow> bytes \<Rightarrow> fs \<Rightarrow> unit stream_result \<times> fs" where
  "decryptV1 X env r dstPath key fs =
     (if \<not> aes_key_ok key then (SPanic nil_deref, fs)
      else if length r < gcm_NonceSize then (SErr V1TooShort, fs)
      else case gcm_Open (aes X key) (take gcm_NonceSize r) (drop gcm_NonceSize r) [] of
             Panic p \<Rightarrow> (SPanic p, fs)
           | Err err \<Rightarrow> (SErr (V1DecryptionFailed err), fs)
           | Ok pt \<Rightarrow> if can_create env dstPath then (SOk (), fs(dstPath \<mapsto> pt))
                     else (SErr WriteFile, fs))"

fun read_sizes :: "nat \<Rightarrow> nat \<Rightarrow> bytes \<Rightarrow> stream_error + (32 word list \<times> bytes)" where
  "read_sizes i 0 r = Inr ([], r)"
| "read_sizes i (Suc n) r =
     (case get_u32 r of
        None \<Rightarrow> Inl (ReadChunkSize i)
      | Some (sz, r') \<Rightarrow>
          (case read_sizes (Suc i) n r' of
             Inl err \<Rightarrow> Inl err
           | Inr (szs, r'') \<Rightarrow> Inr (sz # szs, r'')))"

text \<open>The loop over the chunks; the last argument is what has been written to the destination.\<close>

fun decrypt_chunks ::
    "(block \<Rightarrow> block) \<Rightarrow> nat \<Rightarrow> 32 word list \<Rightarrow> bytes \<Rightarrow> bytes \<Rightarrow> unit stream_result \<times> bytes" where
  "decrypt_chunks e i [] r out = (SOk (), out)"
| "decrypt_chunks e i (sz # szs) r out =
     (case read_full (unat sz) r of
        None \<Rightarrow> (SErr (ReadChunk i), out)
      | Some (ct, r') \<Rightarrow>
          if length ct < gcm_NonceSize then (SErr (ChunkTooShort i), out)
          else (case gcm_Open e (take gcm_NonceSize ct) (drop gcm_NonceSize ct) [] of
                  Panic p \<Rightarrow> (SPanic p, out)
                | Err err \<Rightarrow> (SErr (DecryptChunk i err), out)
                | Ok pt \<Rightarrow> decrypt_chunks e (Suc i) szs r' (out @ pt)))"

text \<open>
  \<open>aliased\<close> says that the destination is the file being read: creating it then empties the
  part of the source that has not been read.
\<close>

definition decryptV2 ::
    "ext \<Rightarrow> fs_env \<Rightarrow> bool \<Rightarrow> bytes \<Rightarrow> string \<Rightarrow> bytes \<Rightarrow> fs \<Rightarrow> unit stream_result \<times> fs" where
  "decryptV2 X env aliased r dstPath key fs =
     (case get_u32 r of
        None \<Rightarrow> (SErr ReadChunkCount, fs)
      | Some (chunkCount, r1) \<Rightarrow>
          if chunkCount = 0 \<or> 10000 < chunkCount then (SErr (InvalidChunkCount chunkCount), fs)
          else (case read_sizes 0 (unat chunkCount) r1 of
                  Inl err \<Rightarrow> (SErr err, fs)
                | Inr (sizes, r2) \<Rightarrow>
                    if \<not> can_create env dstPath then (SErr CreateDest, fs)
                    else if \<not> aes_key_ok key then (SPanic nil_deref, fs(dstPath \<mapsto> []))
                    else let (res, out) = decrypt_chunks (aes X key) 0 sizes (if aliased then [] else r2) []
                         in (res, fs(dstPath \<mapsto> out))))"

definition DecryptFileStreaming ::
    "ext \<Rightarrow> fs_env \<Rightarrow> string \<Rightarrow> string \<Rightarrow> bytes \<Rightarrow> fs \<Rightarrow> unit stream_result \<times> fs" where
  "DecryptFileStreaming X env srcPath dstPath key fs =
     (if \<not> can_open env srcPath \<or> fs srcPath = None then (SErr OpenEnc, fs)
      else case read_full 4 (the (fs srcPath)) of
             None \<Rightarrow> (SErr ReadMagic, fs)
           | Some (magic, r) \<Rightarrow>
               if magic = v1Magic then decryptV1 X env r dstPath key fs
               else if magic = v2Magic then decryptV2 X env (srcPath = dstPath) r dstPath key fs
               else (SErr (UnknownFormat magic), fs))"

definition ChecksumFile :: "ext \<Rightarrow> fs_env \<Rightarrow> string \<Rightarrow> fs \<Rightarrow> bytes stream_result" where
  "ChecksumFile X env path fs =
     (if \<not> can_open env path \<or> fs path = None then SErr OpenSource
      else SOk (sha256_Sum256 X (the (fs path))))"

subsection \<open>The header\<close>

lemma bytes_of_u32:
  fixes w :: "32 word"
  shows "ucast (ucast w :: byte) OR push_bit 8 (ucast (ucast (drop_bit 8 w) :: byte)) OR
        push_bit 16 (ucast (ucast (drop_bit 16 w) :: byte)) OR
        push_bit 24 (ucast (ucast (drop_bit 24 w) :: byte)) = w" (is "?l = w")
proof (rule bit_word_eqI)
  fix n
  assume "n < LENGTH(32)"
  then consider "n < 8" | "8 \<le> n" "n < 16" | "16 \<le> n" "n < 24" | "24 \<le> n" "n < 32"
    by fastforce
  then show "bit ?l n = bit w n"
    by cases (auto simp: bit_or_iff bit_push_bit_iff bit_drop_bit_eq bit_ucast_iff)
qed

lemma get_put_u32 [simp, codec]: "get_u32 (put_u32 w @ r) = Some (w, r)"
  by (simp add: put_u32_def get_u32_def bytes_of_u32)

lemma length_put_u32 [simp]: "length (put_u32 w) = 4"
  by (simp add: put_u32_def)

lemma get_u32_short: "length r < 4 \<Longrightarrow> get_u32 r = None"
  by (auto simp: get_u32_def split: list.splits)

lemma read_sizes_put:
  "read_sizes i (length ws) (concat (map put_u32 ws) @ r) = Inr (ws, r)"
  by (induction ws arbitrary: i) simp_all

lemma read_sizes_length: "read_sizes i n r = Inr (ws, r') \<Longrightarrow> length ws = n"
  by (induction i n r arbitrary: ws rule: read_sizes.induct)
    (auto split: option.splits sum.splits prod.splits)

subsection \<open>The chunks\<close>

definition good_nonces :: "(nat \<Rightarrow> string + bytes) \<Rightarrow> bool" where
  "good_nonces nonces \<longleftrightarrow> (\<forall>i. \<exists>n. nonces i = Inr n \<and> length n = gcm_NonceSize)"

lemma unat_u32: "k < 2 ^ 32 \<Longrightarrow> unat (word_of_nat k :: 32 word) = k"
  by (simp add: unat_of_nat take_bit_nat_eq_self)

lemma chunk_fits: "int chunkSize \<le> gcm_max_plain"
  by (simp add: chunkSize_def gcm_max_plain_def)

lemma chunkSize_pos [simp]: "0 < chunkSize" "chunkSize \<noteq> 0"
  by (simp_all add: chunkSize_def)

lemma encrypt_chunks_total:
  "good_nonces nonces \<Longrightarrow> \<exists>cs. encrypt_chunks e nonces i src = SOk cs"
proof (induction e nonces i src rule: encrypt_chunks.induct)
  case (1 e nonces i src)
  show ?case
  proof (cases "src = []")
    case True
    then show ?thesis by (simp add: encrypt_chunks.simps)
  next
    case False
    obtain n where n: "nonces i = Inr n" "length n = gcm_NonceSize"
      using 1(2) by (auto simp: good_nonces_def)
    have "int (length (take chunkSize src)) \<le> gcm_max_plain" using chunk_fits by simp
    then obtain ct where ct: "gcm_Seal e n (take chunkSize src) [] = Ok ct"
      using gcm_Seal_total n(2) by blast
    show ?thesis
    proof (cases "length src < chunkSize")
      case True
      then show ?thesis using False n ct by (subst encrypt_chunks.simps) simp
    next
      case long: False
      then obtain cs where "encrypt_chunks e nonces (Suc i) (drop chunkSize src) = SOk cs"
        using 1(1) [OF False n(1) ct long 1(2)] by blast
      then show ?thesis using False n ct long by (subst encrypt_chunks.simps) simp
    qed
  qed
qed

text \<open>One step of a successful run of the chunk loop.\<close>

lemma encrypt_chunks_step:
  assumes "encrypt_chunks e nonces i src = SOk cs" and "src \<noteq> []" and "good_nonces nonces"
  obtains n ct cs' where "nonces i = Inr n" and "length n = gcm_NonceSize"
    and "gcm_Seal e n (take chunkSize src) [] = Ok ct" and "cs = (n @ ct) # cs'"
    and "encrypt_chunks e nonces (Suc i) (drop chunkSize src) = SOk cs'"
proof -
  obtain n where n: "nonces i = Inr n" "length n = gcm_NonceSize"
    using assms(3) by (auto simp: good_nonces_def)
  have nil: "length src < chunkSize \<Longrightarrow>
      encrypt_chunks e nonces (Suc i) (drop chunkSize src) = SOk []"
    by (simp add: encrypt_chunks.simps)
  obtain ct where ct: "gcm_Seal e n (take chunkSize src) [] = Ok ct"
    using assms(1,2) n by (subst (asm) encrypt_chunks.simps) (auto split: result.splits)
  obtain cs' where "cs = (n @ ct) # cs'"
      "encrypt_chunks e nonces (Suc i) (drop chunkSize src) = SOk cs'"
    using assms(1,2) n ct nil
    by (subst (asm) encrypt_chunks.simps) (auto split: if_splits stream_result.splits)
  then show ?thesis using that n ct by blast
qed

lemma chunk_length:
  assumes "length n = gcm_NonceSize" and "gcm_Seal e n (take chunkSize src) [] = Ok ct"
  shows "length (n @ ct) \<le> chunkSize + 28"
proof -
  have "int (length (take chunkSize src)) \<le> gcm_max_plain" using chunk_fits by simp
  then have "length ct = length (take chunkSize src) + gcm_Overhead"
    using gcm_Seal_total [OF assms(1), of "take chunkSize src" e "[]"] assms(2) by auto
  then show ?thesis using assms(1) by (simp add: gcm_NonceSize_def gcm_Overhead_def)
qed

lemma encrypt_chunks_count:
  "encrypt_chunks e nonces i src = SOk cs \<Longrightarrow> good_nonces nonces \<Longrightarrow>
   length cs * chunkSize < length src + chunkSize \<and> (cs = [] \<longleftrightarrow> src = [])"
proof (induction "length src" arbitrary: i src cs rule: less_induct)
  case less
  show ?case
  proof (cases "src = []")
    case True
    with less show ?thesis by (simp add: encrypt_chunks.simps)
  next
    case False
    then obtain n ct cs' where cs: "cs = (n @ ct) # cs'"
      and rest: "encrypt_chunks e nonces (Suc i) (drop chunkSize src) = SOk cs'"
      using encrypt_chunks_step [OF less(2) False less(3)] by metis
    have "length cs' * chunkSize < length (drop chunkSize src) + chunkSize \<and>
        (cs' = [] \<longleftrightarrow> drop chunkSize src = [])"
      using less(1) [OF _ rest less(3)] False by simp
    then show ?thesis using cs False by (cases "length src \<le> chunkSize") auto
  qed
qed

lemma decrypt_encrypt_chunks:
  "encrypt_chunks e nonces i src = SOk cs \<Longrightarrow> good_nonces nonces \<Longrightarrow>
   decrypt_chunks e j (map (\<lambda>c. word_of_nat (length c)) cs) (concat cs @ r) out = (SOk (), out @ src)"
proof (induction "length src" arbitrary: i j src cs out rule: less_induct)
  case less
  show ?case
  proof (cases "src = []")
    case True
    with less show ?thesis by (simp add: encrypt_chunks.simps)
  next
    case False
    obtain n ct cs' where n: "length n = gcm_NonceSize"
      and ct: "gcm_Seal e n (take chunkSize src) [] = Ok ct" and cs: "cs = (n @ ct) # cs'"
      and rest: "encrypt_chunks e nonces (Suc i) (drop chunkSize src) = SOk cs'"
      using encrypt_chunks_step [OF less(2) False less(3)] by metis
    have "length (n @ ct) < 2 ^ 32"
      using chunk_length [OF n ct] by (simp add: chunkSize_def)
    then have size: "unat (word_of_nat (length (n @ ct)) :: 32 word) = length (n @ ct)"
      by (rule unat_u32)
    have opened: "gcm_Open e n ct [] = Ok (take chunkSize src)" using n ct by (rule gcm.open_seal)
    have "decrypt_chunks e (Suc j) (map (\<lambda>c. word_of_nat (length c)) cs') (concat cs' @ r)
        (out @ take chunkSize src) = (SOk (), (out @ take chunkSize src) @ drop chunkSize src)"
      using less(1) [OF _ rest less(3)] False by simp
    then show ?thesis using cs size opened n by (simp add: read_full_def del: of_nat_add)
  qed
qed

lemma encrypt_chunks_count_ge:
  "encrypt_chunks e nonces i src = SOk cs \<Longrightarrow> good_nonces nonces \<Longrightarrow>
   length src \<le> length cs * chunkSize"
proof (induction "length src" arbitrary: i src cs rule: less_induct)
  case less
  show ?case
  proof (cases "src = []")
    case False
    then obtain n ct cs' where cs: "cs = (n @ ct) # cs'"
      and rest: "encrypt_chunks e nonces (Suc i) (drop chunkSize src) = SOk cs'"
      using encrypt_chunks_step [OF less(2) False less(3)] by metis
    have "length (drop chunkSize src) \<le> length cs' * chunkSize"
      using less(1) [OF _ rest less(3)] False by simp
    then show ?thesis using cs by simp
  qed simp
qed

text \<open>The file the encoder writes, for chunks of the sizes it makes.\<close>

definition v2_file :: "bytes list \<Rightarrow> bytes" where
  "v2_file cs = v2Magic @ put_u32 (word_of_nat (length cs)) @
     concat (map (\<lambda>c. put_u32 (word_of_nat (length c))) cs) @ concat cs"

lemma length_magic [simp]: "length v2Magic = 4" "length v1Magic = 4" "v2Magic \<noteq> v1Magic"
  by (simp_all add: v1Magic_def v2Magic_def)

lemma EncryptFileStreaming_ok:
  assumes "aes_key_ok key" and "good_nonces nonces"
    and "can_open env src" and "can_create env enc" and "fs src = Some plain" and "src \<noteq> enc"
  obtains cs where "encrypt_chunks (aes X key) nonces 0 plain = SOk cs"
    and "EncryptFileStreaming X env nonces src enc key z fs = (SOk (), fs(enc \<mapsto> v2_file cs))"
proof -
  obtain cs where "encrypt_chunks (aes X key) nonces 0 plain = SOk cs"
    using encrypt_chunks_total [OF assms(2)] by blast
  then show ?thesis
    using that assms by (simp add: EncryptFileStreaming_def aes_NewCipher_def v2_file_def)
qed

lemma DecryptFileStreaming_v2:
  assumes "can_open env enc" and "fs enc = Some (v2Magic @ r)" and "enc \<noteq> out"
  shows "DecryptFileStreaming X env enc out key fs = decryptV2 X env False r out key fs"
  using assms by (simp add: DecryptFileStreaming_def read_full_def)

lemma concat_sizes:
  "concat (map (\<lambda>c. put_u32 (word_of_nat (length c))) cs) =
   concat (map put_u32 (map (\<lambda>c. word_of_nat (length c)) cs))"
  by (simp add: comp_def)

lemma decryptV2_file:
  assumes "0 < length cs" and "length cs \<le> 10000" and "can_create env out" and "aes_key_ok key"
  shows "decryptV2 X env False (drop 4 (v2_file cs)) out key fs =
    (let (res, o') = decrypt_chunks (aes X key) 0 (map (\<lambda>c. word_of_nat (length c)) cs) (concat cs) []
     in (res, fs(out \<mapsto> o')))"
proof -
  let ?n = "word_of_nat (length cs) :: 32 word"
  have n: "unat ?n = length cs" using assms(2) by (intro unat_u32) simp
  have "?n \<noteq> 0" using n assms(1) by (metis neq0_conv unat_eq_zero)
  moreover have "\<not> 10000 < ?n" using n assms(2) by (simp add: word_less_nat_alt)
  moreover have "read_sizes 0 (length cs) (concat (map (\<lambda>c. put_u32 (word_of_nat (length c))) cs) @ concat cs) =
      Inr (map (\<lambda>c. word_of_nat (length c)) cs, concat cs)"
    using read_sizes_put [of 0 "map (\<lambda>c. word_of_nat (length c)) cs" "concat cs"]
    by (simp only: concat_sizes length_map)
  ultimately show ?thesis
    using n assms(3,4) by (simp add: decryptV2_def v2_file_def split: prod.splits)
qed

lemma gcm_Open_not_Panic: "length n = gcm_NonceSize \<Longrightarrow> gcm_Open e n c a \<noteq> Panic p"
  using gcm_Open_no_panic by (metis is_panic_iff)

lemma decrypt_chunks_not_Panic: "decrypt_chunks e i szs r out \<noteq> (SPanic p, out')"
  by (induction e i szs r out rule: decrypt_chunks.induct)
    (auto simp: gcm_Open_not_Panic split: option.splits result.splits)

subsection \<open>Properties\<close>

text \<open>C12: a streamed file comes back: for a key of a valid length, distinct paths that can be
  opened and created, and a source of at least one byte and at most 10000 chunks, encrypting
  succeeds and decrypting the result writes exactly the source, whatever \<open>compress\<close> says.
\<close>

theorem streaming_roundtrip:
  assumes "aes_key_ok key" and "good_nonces nonces"
    and "can_open env src" and "can_create env enc" and "can_open env enc" and "can_create env out"
    and "fs src = Some plain" and "src \<noteq> enc" and "enc \<noteq> out"
    and "plain \<noteq> []" and "length plain \<le> 10000 * chunkSize"
  shows "\<exists>fs1. EncryptFileStreaming X env nonces src enc key compress fs = (SOk (), fs1) \<and>
    DecryptFileStreaming X env enc out key fs1 = (SOk (), fs1(out \<mapsto> plain))"
proof -
  obtain cs where cs: "encrypt_chunks (aes X key) nonces 0 plain = SOk cs"
    and enc: "EncryptFileStreaming X env nonces src enc key compress fs = (SOk (), fs(enc \<mapsto> v2_file cs))"
    using EncryptFileStreaming_ok assms by metis
  have count: "length cs * chunkSize < length plain + chunkSize" and "cs \<noteq> []"
    using encrypt_chunks_count [OF cs assms(2)] assms(10) by auto
  have "length cs * chunkSize < 10001 * chunkSize" using count assms(11) by linarith
  then have "length cs \<le> 10000" by simp
  moreover have "0 < length cs" using \<open>cs \<noteq> []\<close> by simp
  moreover have "v2_file cs = v2Magic @ drop 4 (v2_file cs)" by (simp add: v2_file_def)
  moreover note decrypt_encrypt_chunks [OF cs assms(2), of 0 "[]" "[]"]
  ultimately have "DecryptFileStreaming X env enc out key (fs(enc \<mapsto> v2_file cs)) =
      (SOk (), fs(enc \<mapsto> v2_file cs, out \<mapsto> plain))"
    using DecryptFileStreaming_v2 [OF assms(5) _ assms(9)] assms(1,6)
    by (simp add: decryptV2_file)
  then show ?thesis using enc by simp
qed

theorem streaming_roundtrip_witness:
  "\<exists>fs1. EncryptFileStreaming ext_example \<lparr>can_open = \<lambda>_. True, can_create = \<lambda>_. True\<rparr>
      (\<lambda>_. Inr (replicate 12 0)) ''plain'' ''enc'' (replicate 32 7) False [''plain'' \<mapsto> [1, 2, 3]] = (SOk (), fs1) \<and>
    DecryptFileStreaming ext_example \<lparr>can_open = \<lambda>_. True, can_create = \<lambda>_. True\<rparr> ''enc'' ''out''
      (replicate 32 7) fs1 = (SOk (), fs1(''out'' \<mapsto> [1, 2, 3]))"
  by (rule streaming_roundtrip)
    (simp_all add: aes_key_ok_def good_nonces_def gcm_NonceSize_def chunkSize_def)

text \<open>C26: a decoder that is given a key of a valid length never panics, whatever the file holds
  (the property the fuzz test states).\<close>

theorem decrypt_never_panics:
  assumes "aes_key_ok key"
  shows "\<nexists>p fs'. DecryptFileStreaming X env src dst key fs = (SPanic p, fs')"
proof -
  have "decryptV1 X env r dst key fs \<noteq> (SPanic p, fs')" for r p fs'
    using assms by (auto simp: decryptV1_def gcm_Open_not_Panic split: result.splits)
  moreover have "decryptV2 X env al r dst key fs \<noteq> (SPanic p, fs')" for al r p fs'
    using assms by (auto simp: decryptV2_def decrypt_chunks_not_Panic
        split: option.splits sum.splits prod.splits)
  ultimately show ?thesis by (auto simp: DecryptFileStreaming_def split: option.splits if_splits)
qed

theorem decrypt_never_panics_witness:
  "\<nexists>p fs'. DecryptFileStreaming ext_example \<lparr>can_open = \<lambda>_. True, can_create = \<lambda>_. True\<rparr>
     ''a'' ''b'' (replicate 16 0) [''a'' \<mapsto> v2Magic @ [255, 255]] = (SPanic p, fs')"
  by (rule decrypt_never_panics) (simp add: aes_key_ok_def)

text \<open>An empty file is encrypted without an error into a file that the decoder rejects, since
  the chunk count 0 it writes is invalid for the decoder.\<close>

theorem streaming_empty_file:
  assumes "aes_key_ok key" and "good_nonces nonces"
    and "can_open env src" and "can_create env enc" and "can_open env enc"
    and "fs src = Some []" and "src \<noteq> enc" and "enc \<noteq> out"
  shows "\<exists>fs1. EncryptFileStreaming X env nonces src enc key compress fs = (SOk (), fs1) \<and>
    DecryptFileStreaming X env enc out key fs1 = (SErr (InvalidChunkCount 0), fs1)"
proof -
  obtain cs where "encrypt_chunks (aes X key) nonces 0 [] = SOk cs"
    and enc: "EncryptFileStreaming X env nonces src enc key compress fs = (SOk (), fs(enc \<mapsto> v2_file cs))"
    using EncryptFileStreaming_ok assms by metis
  then have "v2_file cs = v2Magic @ put_u32 0" by (simp add: v2_file_def encrypt_chunks.simps)
  moreover have "get_u32 (put_u32 0) = Some (0, [])" using get_put_u32 [of 0 "[]"] by simp
  ultimately show ?thesis
    using enc DecryptFileStreaming_v2 [OF assms(5) _ assms(8)] by (simp add: decryptV2_def)
qed

theorem streaming_empty_file_witness:
  "\<exists>fs1. EncryptFileStreaming ext_example \<lparr>can_open = \<lambda>_. True, can_create = \<lambda>_. True\<rparr>
      (\<lambda>_. Inr (replicate 12 0)) ''plain'' ''enc'' (replicate 32 7) False [''plain'' \<mapsto> []] = (SOk (), fs1) \<and>
    DecryptFileStreaming ext_example \<lparr>can_open = \<lambda>_. True, can_create = \<lambda>_. True\<rparr> ''enc'' ''out''
      (replicate 32 7) fs1 = (SErr (InvalidChunkCount 0), fs1)"
  by (rule streaming_empty_file) (simp_all add: aes_key_ok_def good_nonces_def gcm_NonceSize_def)

text \<open>For a key of an invalid length the encoder returns the error of \<open>aes.NewCipher\<close>, while
  the decoder, which drops that error, panics on every file of version 1.\<close>

theorem decrypt_bad_key_panics:
  assumes "\<not> aes_key_ok key" and "can_open env src" and "can_create env dst"
    and "fs src = Some (v1Magic @ r)"
  shows "DecryptFileStreaming X env src dst key fs = (SPanic nil_deref, fs) \<and>
    fst (EncryptFileStreaming X env nonces src dst key compress fs) =
      SErr (CipherError (''crypto/aes: invalid key size '' @ show_nat (length key)))"
  using assms
  by (simp add: DecryptFileStreaming_def EncryptFileStreaming_def read_full_def decryptV1_def
      aes_NewCipher_def)

theorem decrypt_bad_key_panics_witness:
  "DecryptFileStreaming ext_example \<lparr>can_open = \<lambda>_. True, can_create = \<lambda>_. True\<rparr>
      ''a'' ''b'' [1, 2] [''a'' \<mapsto> v1Magic @ []] = (SPanic nil_deref, [''a'' \<mapsto> v1Magic @ []]) \<and>
    fst (EncryptFileStreaming ext_example \<lparr>can_open = \<lambda>_. True, can_create = \<lambda>_. True\<rparr>
      (\<lambda>_. Inr []) ''a'' ''b'' [1, 2] False [''a'' \<mapsto> v1Magic @ []]) =
      SErr (CipherError (''crypto/aes: invalid key size '' @ show_nat (length [1, 2 :: byte])))"
  by (rule decrypt_bad_key_panics) (simp_all add: aes_key_ok_def)

subsection \<open>Truncation and size limits\<close>

lemma decrypt_chunks_consumes:
  "decrypt_chunks e i szs r out = (SOk (), out') \<Longrightarrow> sum_list (map unat szs) \<le> length r"
proof (induction e i szs r out rule: decrypt_chunks.induct)
  case (2 e i sz szs r out)
  then have "\<not> length r < unat sz" by (auto simp: read_full_def split: if_splits)
  with 2 show ?case
    by (fastforce simp: read_full_def split: if_splits result.splits)
qed simp

lemma get_u32_prefix:
  assumes "get_u32 (take k (put_u32 w @ r)) = Some (v, r')"
  shows "4 \<le> k \<and> v = w \<and> r' = take (k - 4) r"
proof -
  have "\<not> length (take k (put_u32 w @ r)) < 4" using assms get_u32_short by fastforce
  then have "4 \<le> k" by simp
  then have "take k (put_u32 w @ r) = put_u32 w @ take (k - 4) r" by simp
  then show ?thesis using assms \<open>4 \<le> k\<close> by (metis get_put_u32 option.inject prod.inject)
qed

lemma read_sizes_prefix:
  "read_sizes i (length ws) (take k (concat (map put_u32 ws) @ r)) = Inr (vs, r') \<Longrightarrow>
   4 * length ws \<le> k \<and> vs = ws \<and> r' = take (k - 4 * length ws) r"
proof (induction ws arbitrary: i k vs)
  case (Cons w ws)
  then obtain v q vs' where head: "get_u32 (take k (put_u32 w @ concat (map put_u32 ws) @ r)) = Some (v, q)"
    and tail: "read_sizes (Suc i) (length ws) q = Inr (vs', r')" and vs: "vs = v # vs'"
    by (auto split: option.splits sum.splits)
  note front = get_u32_prefix [OF head]
  with tail have "read_sizes (Suc i) (length ws) (take (k - 4) (concat (map put_u32 ws) @ r)) = Inr (vs', r')"
    by simp
  from Cons.IH [OF this] front vs show ?case by (auto simp: diff_diff_add)
qed simp

lemma encrypt_chunks_sizes:
  "encrypt_chunks e nonces i src = SOk cs \<Longrightarrow> good_nonces nonces \<Longrightarrow>
   \<forall>c \<in> set cs. length c \<le> chunkSize + 28"
proof (induction "length src" arbitrary: i src cs rule: less_induct)
  case less
  show ?case
  proof (cases "src = []")
    case True
    with less show ?thesis by (simp add: encrypt_chunks.simps)
  next
    case False
    obtain n ct cs' where n: "length n = gcm_NonceSize"
      and ct: "gcm_Seal e n (take chunkSize src) [] = Ok ct" and cs: "cs = (n @ ct) # cs'"
      and rest: "encrypt_chunks e nonces (Suc i) (drop chunkSize src) = SOk cs'"
      using encrypt_chunks_step [OF less(2) False less(3)] by metis
    have "\<forall>c \<in> set cs'. length c \<le> chunkSize + 28"
      using less(1) [OF _ rest less(3)] False by simp
    then show ?thesis using cs chunk_length [OF n ct] by simp
  qed
qed

text \<open>A proper prefix of a file the encoder wrote is never decrypted successfully.\<close>

lemma decryptV2_prefix:
  assumes "\<forall>c \<in> set cs. length c < 2 ^ 32" and "length cs < 2 ^ 32"
    and "decryptV2 X env al (take k (drop 4 (v2_file cs))) out key fs = (SOk (), fs')"
  shows "length (v2_file cs) \<le> k + 4"
proof -
  let ?ws = "map (\<lambda>c. word_of_nat (length c)) cs :: 32 word list"
  have layout: "drop 4 (v2_file cs) = put_u32 (word_of_nat (length cs)) @ concat (map put_u32 ?ws) @ concat cs"
    by (simp add: v2_file_def comp_def)
  obtain n r1 where n: "get_u32 (take k (drop 4 (v2_file cs))) = Some (n, r1)"
    using assms(3) by (auto simp: decryptV2_def split: option.splits)
  then have front: "4 \<le> k" "n = word_of_nat (length cs)" "r1 = take (k - 4) (concat (map put_u32 ?ws) @ concat cs)"
    using get_u32_prefix [of k "word_of_nat (length cs)" "concat (map put_u32 ?ws) @ concat cs"] layout by simp_all
  have un: "unat n = length ?ws" using front(2) assms(2) by (simp add: unat_u32)
  obtain vs r2 where rs: "read_sizes 0 (length ?ws) r1 = Inr (vs, r2)"
    using assms(3) n un by (auto simp: decryptV2_def split: sum.splits if_splits)
  then have mid: "4 * length ?ws \<le> k - 4" "vs = ?ws" "r2 = take (k - 4 - 4 * length ?ws) (concat cs)"
    using read_sizes_prefix [of 0 ?ws "k - 4" "concat cs"] front(3) by simp_all
  obtain o' where "decrypt_chunks (aes X key) 0 ?ws (if al then [] else r2) [] = (SOk (), o')"
    using assms(3) n un rs mid(2) by (auto simp: decryptV2_def split: if_splits prod.splits)
  then have "sum_list (map unat ?ws) \<le> length (if al then [] else r2)" by (rule decrypt_chunks_consumes)
  also have "\<dots> \<le> k - 4 - 4 * length ?ws" using mid(3) by simp
  also have "map unat ?ws = map length cs" using assms(1) by (simp add: unat_u32)
  finally have "length (concat cs) \<le> k - 4 - 4 * length ?ws" by (simp only: length_concat)
  moreover have "length (v2_file cs) = 8 + 4 * length cs + length (concat cs)"
    by (simp add: v2_file_def length_concat comp_def sum_list_triv)
  ultimately show ?thesis using mid(1) front(1) by simp
qed

text \<open>C25: a truncated file is rejected: if a file written by the encoder loses any of its last
  bytes, decrypting it does not succeed.\<close>

theorem streaming_truncated_rejected:
  assumes "aes_key_ok key" and "good_nonces nonces"
    and "can_open env src" and "can_create env enc"
    and "fs src = Some plain" and "src \<noteq> enc" and "length plain \<le> 10000 * chunkSize"
    and "EncryptFileStreaming X env nonces src enc key compress fs = (SOk (), fs1)"
    and "fs1 enc = Some content" and "k < length content"
  shows "fst (DecryptFileStreaming X env enc out key (fs1(enc \<mapsto> take k content))) \<noteq> SOk ()"
proof
  assume ok: "fst (DecryptFileStreaming X env enc out key (fs1(enc \<mapsto> take k content))) = SOk ()"
  obtain cs where cs: "encrypt_chunks (aes X key) nonces 0 plain = SOk cs"
    and "EncryptFileStreaming X env nonces src enc key compress fs = (SOk (), fs(enc \<mapsto> v2_file cs))"
    using EncryptFileStreaming_ok assms by metis
  then have content: "content = v2_file cs" using assms(8,9) by auto
  have "length cs * chunkSize < length plain + chunkSize"
    using encrypt_chunks_count [OF cs assms(2)] by simp
  also have "\<dots> \<le> 10001 * chunkSize" using assms(7) by simp
  finally have few: "length cs < 2 ^ 32" by simp
  have small: "\<forall>c \<in> set cs. length c < 2 ^ 32"
    using encrypt_chunks_sizes [OF cs assms(2)] by (auto simp: chunkSize_def)
  have "4 \<le> k"
  proof (rule ccontr)
    assume "\<not> 4 \<le> k"
    then show False using ok by (simp add: DecryptFileStreaming_def read_full_def split: if_splits)
  qed
  then have "take k content = v2Magic @ take (k - 4) (drop 4 (v2_file cs))"
    by (simp add: content v2_file_def)
  then obtain al fs' where
    "decryptV2 X env al (take (k - 4) (drop 4 (v2_file cs))) out key (fs1(enc \<mapsto> take k content)) = (SOk (), fs')"
    using ok by (auto simp: DecryptFileStreaming_def read_full_def split: if_splits) (metis prod.collapse)+
  then have "length (v2_file cs) \<le> k - 4 + 4" by (rule decryptV2_prefix [OF small few])
  then show False using \<open>4 \<le> k\<close> assms(10) content by simp
qed

theorem streaming_truncated_rejected_witness:
  "\<exists>fs1 content. EncryptFileStreaming ext_example \<lparr>can_open = \<lambda>_. True, can_create = \<lambda>_. True\<rparr>
      (\<lambda>_. Inr (replicate 12 0)) ''plain'' ''enc'' (replicate 32 7) False [''plain'' \<mapsto> [1, 2, 3]] = (SOk (), fs1) \<and>
    fs1 ''enc'' = Some content \<and>
    fst (DecryptFileStreaming ext_example \<lparr>can_open = \<lambda>_. True, can_create = \<lambda>_. True\<rparr> ''enc'' ''out''
      (replicate 32 7) (fs1(''enc'' \<mapsto> take 7 content))) \<noteq> SOk ()"
proof -
  let ?env = "\<lparr>can_open = \<lambda>_. True, can_create = \<lambda>_. True\<rparr>"
  have key: "aes_key_ok (replicate 32 7)" and nonces: "good_nonces (\<lambda>_. Inr (replicate 12 0))"
    by (simp_all add: aes_key_ok_def good_nonces_def gcm_NonceSize_def)
  have small: "length [1, 2, 3 :: byte] \<le> 10000 * chunkSize" by (simp add: chunkSize_def)
  obtain cs where run: "EncryptFileStreaming ext_example ?env (\<lambda>_. Inr (replicate 12 0)) ''plain'' ''enc''
      (replicate 32 7) False [''plain'' \<mapsto> [1, 2, 3]] = (SOk (), [''plain'' \<mapsto> [1, 2, 3]](''enc'' \<mapsto> v2_file cs))"
    by (rule EncryptFileStreaming_ok [OF key nonces, of ?env "''plain''" "''enc''" "[''plain'' \<mapsto> [1, 2, 3]]"
        "[1, 2, 3]" ext_example False]) simp_all
  moreover have "fst (DecryptFileStreaming ext_example ?env ''enc'' ''out'' (replicate 32 7)
      ([''plain'' \<mapsto> [1, 2, 3]](''enc'' \<mapsto> v2_file cs, ''enc'' \<mapsto> take 7 (v2_file cs)))) \<noteq> SOk ()"
    by (rule streaming_truncated_rejected [OF key nonces _ _ _ _ small run])
      (simp_all add: v2_file_def)
  ultimately show ?thesis by (intro exI conjI) (assumption | simp)+
qed

text \<open>C40: the encoder accepts files of more than 10000 chunks (about 42 GB) without an error, and
  the decoder rejects what it wrote by its chunk count.\<close>

theorem streaming_large_rejected:
  assumes "aes_key_ok key" and "good_nonces nonces"
    and "can_open env src" and "can_create env enc" and "can_open env enc"
    and "fs src = Some plain" and "src \<noteq> enc" and "enc \<noteq> out"
    and "10000 * chunkSize < length plain" and "length plain < (2 ^ 32 - 1) * chunkSize"
  shows "\<exists>fs1 n. EncryptFileStreaming X env nonces src enc key compress fs = (SOk (), fs1) \<and>
    DecryptFileStreaming X env enc out key fs1 = (SErr (InvalidChunkCount n), fs1) \<and> 10000 < n"
proof -
  obtain cs where cs: "encrypt_chunks (aes X key) nonces 0 plain = SOk cs"
    and enc: "EncryptFileStreaming X env nonces src enc key compress fs = (SOk (), fs(enc \<mapsto> v2_file cs))"
    using EncryptFileStreaming_ok assms by metis
  have "10000 * chunkSize < length cs * chunkSize"
    using encrypt_chunks_count_ge [OF cs assms(2)] assms(9) by linarith
  then have many: "10000 < length cs" by simp
  have "length cs * chunkSize < length plain + chunkSize"
    using encrypt_chunks_count [OF cs assms(2)] by simp
  moreover have "length plain < 4294967295 * chunkSize" using assms(10) by simp
  ultimately have "length cs * chunkSize < 4294967296 * chunkSize" by linarith
  then have "length cs < 2 ^ 32" by simp
  then have "unat (word_of_nat (length cs) :: 32 word) = length cs" by (rule unat_u32)
  then have n: "(10000 :: 32 word) < word_of_nat (length cs)"
    using many by (simp add: word_less_nat_alt)
  have "v2_file cs = v2Magic @ drop 4 (v2_file cs)" by (simp add: v2_file_def)
  then have "DecryptFileStreaming X env enc out key (fs(enc \<mapsto> v2_file cs)) =
      decryptV2 X env False (drop 4 (v2_file cs)) out key (fs(enc \<mapsto> v2_file cs))"
    using DecryptFileStreaming_v2 [OF assms(5) _ assms(8)] by simp
  also have "\<dots> = (SErr (InvalidChunkCount (word_of_nat (length cs))), fs(enc \<mapsto> v2_file cs))"
    using n by (simp add: decryptV2_def v2_file_def)
  finally show ?thesis using enc n by blast
qed

theorem streaming_large_rejected_witness:
  "\<exists>fs1 n. EncryptFileStreaming ext_example \<lparr>can_open = \<lambda>_. True, can_create = \<lambda>_. True\<rparr>
      (\<lambda>_. Inr (replicate 12 0)) ''plain'' ''enc'' (replicate 32 7) False
      [''plain'' \<mapsto> replicate (10001 * chunkSize) 0] = (SOk (), fs1) \<and>
    DecryptFileStreaming ext_example \<lparr>can_open = \<lambda>_. True, can_create = \<lambda>_. True\<rparr> ''enc'' ''out''
      (replicate 32 7) fs1 = (SErr (InvalidChunkCount n), fs1) \<and> 10000 < n"
  by (rule streaming_large_rejected [where plain = "replicate (10001 * chunkSize) 0"])
    (simp_all add: aes_key_ok_def good_nonces_def gcm_NonceSize_def)

end
