(* ===== verification/Node_Audit.thy ===== *)
theory Node_Audit
  imports Node_Handlers
begin

text \<open>What the audit log says of store and retrieval requests, and what it does not.\<close>

text \<open>An event of a level reaches the audit log.\<close>

definition audited :: "'lim node_env \<Rightarrow> log_level \<Rightarrow> ('db, 'lim) node_state \<Rightarrow> bool" where
  "audited E lvl s \<longleftrightarrow> log_on s \<and> ne_Enabled E (log_global s) lvl"

definition granted_entry :: "RetrieveRequest \<Rightarrow> log_entry" where
  "granted_entry req = \<lparr>le_level = InfoLevel, le_msg = ''retrieve_audit'',
     le_fields = [(''caller_address'', rq_CallerAddress req), (''object_id'', rq_ObjectID req),
                  (''contract_id'', rq_ContractID req), (''outcome'', ''granted'')]\<rparr>"

definition denied_entry :: "RetrieveRequest \<Rightarrow> log_entry" where
  "denied_entry req = \<lparr>le_level = WarnLevel, le_msg = ''access_denied'',
     le_fields = [(''caller'', rq_CallerAddress req), (''object_id'', rq_ObjectID req), (''outcome'', ''denied'')]\<rparr>"

definition stored_entry :: "StoreRequest \<Rightarrow> http_request \<Rightarrow> log_entry" where
  "stored_entry req r = \<lparr>le_level = InfoLevel, le_msg = ''store_audit'',
     le_fields = [(''object_id'', sq_ObjectID req), (''contract_id'', sq_ContractID req),
                  (''remote'', r_RemoteAddr r), (''outcome'', ''stored'')]\<rparr>"

lemma audit_log_to_audit:
  "audit (log_to_audit E lvl msg fs s) =
     audit s @ (if audited E lvl s then [\<lparr>le_level = lvl, le_msg = msg, le_fields = fs\<rparr>] else [])"
  by (simp add: log_to_audit_def audited_def)

lemma audited_quota [simp]: "audited E lvl (snd (checkObjectRateLimit E ob s)) = audited E lvl s"
  by (simp add: audited_def)

lemma release_share_audit:
  "audit (outcome_state (release_share E req new_writer s)) = audit s @
     (if status_of (release_share E req new_writer s) = Some 200 \<and> audited E InfoLevel s then [granted_entry req] else []) \<and>
   status_of (release_share E req new_writer s) \<noteq> Some 403"
  by (auto simp: release_defs logRetrieveOutcome_def audit_log_to_audit granted_entry_def status_of_def json_Encode_code
      split: result.splits bool.splits)

text \<open>C34: the audit trail of retrievals is exact: a retrieval appends one entry with the caller, the object and the
  contract when it is answered 200, one entry when the contract denied it (403), and nothing in every
  other case, a bad signature and a rejected transaction included; and neither entry is written
  when the global log level suppresses it.\<close>

theorem retrieve_audited:
  "case Option.bind (json_Decode r) RetrieveRequest_of_json of
     None \<Rightarrow> audit (outcome_state (handleRetrieveShare E new_writer r s)) = audit s
   | Some req \<Rightarrow>
       audit (outcome_state (handleRetrieveShare E new_writer r s)) = audit s @
         (if status_of (handleRetrieveShare E new_writer r s) = Some 200 \<and> audited E InfoLevel s then [granted_entry req]
          else if status_of (handleRetrieveShare E new_writer r s) = Some 403 \<and> audited E WarnLevel s then [denied_entry req]
          else [])"
proof (cases "Option.bind (json_Decode r) RetrieveRequest_of_json")
  case None
  then show ?thesis by (simp add: retrieve_defs)
next
  case (Some req)
  note rel = release_share_audit [of E req "snd (checkObjectRateLimit E (rq_ObjectID req) s)"]
  show ?thesis
    using Some rel
    by (auto simp: retrieve_defs case_prod_beta audit_log_to_audit denied_entry_def status_of_def
        split: sum.splits result.splits bool.splits)
qed

text \<open>A store request is audited when, and only when, the share was saved.\<close>

lemma store_audited:
  assumes "store_accepts r req share"
  shows "audit (outcome_state (handleStoreShare E new_writer r s)) = audit s @
    (if \<exists>d. share_exists r (store_key req) (db s) = Ok False \<and> saveShare (db s) (store_key req) share = Ok d
     then (if audited E InfoLevel s then [stored_entry req r] else []) else [])"
  by (auto simp: handleStoreShare_accepts [OF assms] put_share_def save_share_def Let_def logStoreOutcome_def audit_log_to_audit
      audited_def stored_entry_def split: result.splits bool.splits)

end
