(* ===== verification/Node_Interleaving.thy ===== *)
theory Node_Interleaving
  imports Node_Race
begin

text \<open>
  Any number of store requests and retrievals, interleaved in any way with one another and with key
  rotations, as a step relation. A store request moves in the two steps of \<open>thread_step\<close>, a retrieval
  in three: deciding on the request, loading the share, and decrypting it with the private key the
  node has by then. A rotation is one step: it holds a lock, and although readers do not take it, a
  request reads only one of the private and the public key, so no request sees a rotation half done.
\<close>

datatype retrieve_pc =
    Arrived
  | Admitted RetrieveRequest
  | Loaded RetrieveRequest StoredShareDB
  | Answered "http_writer option"

record retrieve_thread =
  rt_r :: http_request
  rt_pc :: retrieve_pc

definition answer_of :: "'s outcome \<Rightarrow> http_writer option" where
  "answer_of out = (if served out then Some (outcome_writer out) else None)"

definition retrieve_step ::
    "'lim node_env \<Rightarrow> retrieve_thread \<Rightarrow> ('db, 'lim) node_state \<Rightarrow> retrieve_thread \<times> ('db, 'lim) node_state" where
  "retrieve_step E rt s =
     (case rt_pc rt of
        Arrived \<Rightarrow>
          (case retrieve_guard E new_writer (rt_r rt) s of
             Inl out \<Rightarrow> (rt\<lparr>rt_pc := Answered (answer_of out)\<rparr>, outcome_state out)
           | Inr (req, s1) \<Rightarrow> (rt\<lparr>rt_pc := Admitted req\<rparr>, s1))
      | Admitted req \<Rightarrow>
          (case retrieve_load req new_writer s of
             Inl out \<Rightarrow> (rt\<lparr>rt_pc := Answered (answer_of out)\<rparr>, outcome_state out)
           | Inr stored \<Rightarrow> (rt\<lparr>rt_pc := Loaded req stored\<rparr>, s))
      | Loaded req stored \<Rightarrow>
          (let out = release_stored E req stored new_writer s
           in (rt\<lparr>rt_pc := Answered (answer_of out)\<rparr>, outcome_state out))
      | Answered a \<Rightarrow> (rt, s))"

text \<open>Run without interruption, a retrieval does what the handler does.\<close>

lemma retrieve_thread_is_handler:
  assumes "(rt1, s1) = retrieve_step E \<lparr>rt_r = r, rt_pc = Arrived\<rparr> s" and "(rt2, s2) = retrieve_step E rt1 s1"
    and "out = handleRetrieveShare E new_writer r s"
  shows "retrieve_step E rt2 s2 = (\<lparr>rt_r = r, rt_pc = Answered (answer_of out)\<rparr>, outcome_state out)"
  using assms
  by (auto simp: retrieve_step_def handleRetrieveShare_def release_share_def Let_def retrieve_load_def
      split: sum.splits prod.splits result.splits bool.splits)

type_synonym ('db, 'lim) node_conf = "store_thread list \<times> retrieve_thread list \<times> ('db, 'lim) node_state"

text \<open>The cryptography \<open>X\<close> is fixed; the rest of the environment may differ from step to step.\<close>

inductive conc_step :: "ext \<Rightarrow> ('db, 'lim) node_conf \<Rightarrow> ('db, 'lim) node_conf \<Rightarrow> bool" for X where
  store: "i < length ths \<Longrightarrow> thread_step E (ths ! i) s = (th', s') \<Longrightarrow> conc_step X (ths, rts, s) (ths[i := th'], rts, s')"
| retrieve: "j < length rts \<Longrightarrow> ne_ext E = X \<Longrightarrow> retrieve_step E (rts ! j) s = (rt', s') \<Longrightarrow>
    conc_step X (ths, rts, s) (ths, rts[j := rt'], s')"
| rotate: "conc_step X (ths, rts, s) (ths, rts, outcome_state (handleRotateKey E w r s))"

text \<open>A store request that has been answered with 200.\<close>

definition acknowledged :: "string \<Rightarrow> store_thread \<Rightarrow> bool" where
  "acknowledged k th \<longleftrightarrow> store_key (th_req th) = k \<and> th_pc th = Finished (Some 200)"

text \<open>What a store holds for a key: what it held at first, or the share of an acknowledged request.\<close>

definition explained :: "('db db_ptr) \<Rightarrow> store_thread list \<Rightarrow> 'db db_ptr \<Rightarrow> string \<Rightarrow> bool" where
  "explained d0 ths d k \<longleftrightarrow>
     (if \<exists>th \<in> set ths. acknowledged k th
      then \<exists>th \<in> set ths. acknowledged k th \<and> BoltStore.content d k = Some (th_share th)
      else BoltStore.content d k = BoltStore.content d0 k)"

definition conf_ok :: "'db db_ptr \<Rightarrow> store_thread list \<Rightarrow> 'db db_ptr \<Rightarrow> bool" where
  "conf_ok d0 ths d \<longleftrightarrow>
     db_good d \<and> (\<forall>th \<in> set ths. sh_Ciphertext (th_share th) \<noteq> None) \<and> (\<forall>k. explained d0 ths d k)"

lemma share_exists_not_Err: "share_exists r k d \<noteq> Err e"
  by (auto simp: share_exists_def split: result.splits)

text \<open>A step of a store request acknowledges it and writes its share, or does neither.\<close>

lemma thread_step_cases:
  assumes "thread_step E th s = (th', s')" and "db_good (db s)" and "sh_Ciphertext (th_share th) \<noteq> None"
  obtains (silent) "db s' = db s" and "th_share th' = th_share th" and "\<And>k. acknowledged k th' = acknowledged k th"
  | (saved) d where "db s' = d" and "saveShare (db s) (store_key (th_req th)) (th_share th) = Ok d"
      and "th' = th\<lparr>th_pc := Finished (Some 200)\<rparr>"
proof (cases "th_pc th")
  case Checking
  then show thesis
    using assms(1) silent share_exists_not_Err
    by (auto simp: thread_step_def acknowledged_def split: result.splits bool.splits)
next
  case Saving
  show thesis
  proof (cases "saveShare (db s) (store_key (th_req th)) (th_share th)")
    case (Ok d)
    note ok = save_share_Ok [OF Ok, of E "th_r th"]
    show thesis using assms(1) saved [OF _ Ok] ok Saving by (auto simp: thread_step_def Let_def)
  next
    case (Err e)
    then show thesis
      using assms(1) silent Saving
      by (auto simp: thread_step_def Let_def save_share_def acknowledged_def status_of_def)
  next
    case (Panic p)
    then show thesis using saveShare_no_panic [OF assms(2), of "store_key (th_req th)" "th_share th"] by simp
  qed
next
  case (Finished c)
  then show thesis using assms(1) silent by (simp add: thread_step_def)
qed

lemma thread_conf_ok:
  assumes "i < length ths" and "thread_step E (ths ! i) s = (th', s')" and "conf_ok d0 ths (db s)"
  shows "conf_ok d0 (ths[i := th']) (db s')"
proof -
  have th: "ths ! i \<in> set ths" and good: "db_good (db s)" and ct: "sh_Ciphertext (th_share (ths ! i)) \<noteq> None"
    and ex: "\<And>k. explained d0 ths (db s) k"
    using assms by (auto simp: conf_ok_def)
  have ths': "set (ths[i := th']) \<subseteq> insert th' (set ths)" "th' \<in> set (ths[i := th'])"
    using assms(1) set_update_subset_insert [of ths i th'] by (auto intro: set_update_memI)
  show ?thesis
    using assms(2) good ct
  proof (cases rule: thread_step_cases)
    case silent
    have "explained d0 (ths[i := th']) (db s') k" for k
    proof -
      have nth: "(\<exists>th \<in> set (ths[i := th']). acknowledged k th \<and> P (th_share th)) \<longleftrightarrow>
          (\<exists>th \<in> set ths. acknowledged k th \<and> P (th_share th))" for P
        using silent(2,3) assms(1) by (auto simp: set_conv_nth nth_list_update) metis+
      show ?thesis
        using ex [of k] nth [of "\<lambda>_. True"] nth [of "\<lambda>sh. BoltStore.content (db s) k = Some sh"] silent(1)
        by (simp add: explained_def)
    qed
    then show ?thesis using assms good silent(1,2) ths' by (auto simp: conf_ok_def)
  next
    case (saved d)
    let ?k = "store_key (th_req (ths ! i))"
    have content: "BoltStore.content d = (BoltStore.content (db s))(?k \<mapsto> th_share (ths ! i))"
      using BoltStore.content_Save [OF good saved(2) ct] by simp
    have "explained d0 (ths[i := th']) d k" for k
    proof (cases "k = ?k")
      case True
      have "acknowledged k th'" "th_share th' = th_share (ths ! i)" using saved(3) True by (simp_all add: acknowledged_def)
      then show ?thesis using content ths'(2) True by (auto simp: explained_def)
    next
      case False
      then have no: "\<not> acknowledged k th'" "\<not> acknowledged k (ths ! i)" using saved(3) by (simp_all add: acknowledged_def)
      have "(\<exists>th \<in> set (ths[i := th']). acknowledged k th \<and> P (th_share th)) \<longleftrightarrow>
          (\<exists>th \<in> set ths. acknowledged k th \<and> P (th_share th))" for P
        using no assms(1) by (auto simp: set_conv_nth nth_list_update)
      from this [of "\<lambda>_. True"] this [of "\<lambda>sh. BoltStore.content (db s) k = Some sh"] show ?thesis
        using ex [of k] content False by (simp add: explained_def)
    qed
    moreover have "db_good d" by (rule BoltStore.Save_good [OF good saved(2)])
    ultimately show ?thesis using assms saved(1,3) ths' by (auto simp: conf_ok_def)
  qed
qed

lemma retrieve_guard_keeps:
  "case retrieve_guard E w r s of Inl out \<Rightarrow> db (outcome_state out) = db s
    | Inr (req, s1) \<Rightarrow> db s1 = db s \<and> retrieve_authorized E r s req"
  by (auto simp: retrieve_guard_def retrieve_authorized_def case_prod_beta
      split: option.splits sum.splits result.splits bool.splits)

lemma retrieve_step_db: "retrieve_step E rt s = (rt', s') \<Longrightarrow> db s' = db s"
  using retrieve_guard_keeps [where E = E and w = new_writer and r = "rt_r rt" and s = s]
  by (auto simp: retrieve_step_def retrieve_load_def release_stored_def logRetrieveOutcome_def Let_def
      split: retrieve_pc.splits sum.splits prod.splits result.splits bool.splits)

lemma conc_step_conf_ok:
  assumes "conc_step X (ths, rts, s) (ths', rts', s')" and "conf_ok d0 ths (db s)"
  shows "conf_ok d0 ths' (db s')"
  using assms(1)
proof cases
  case (store i E th')
  then show ?thesis using thread_conf_ok assms(2) by blast
next
  case (retrieve j E rt')
  then show ?thesis using retrieve_step_db [of E "rts ! j" s rt' s'] assms(2) by simp
next
  case (rotate E w r)
  then show ?thesis using handleRotateKey_frame(1) [of E w r s] assms(2) by simp
qed

lemma fresh_conf_ok:
  assumes "db_good d" and "\<forall>th \<in> set ths. th_pc th = Checking \<and> sh_Ciphertext (th_share th) \<noteq> None"
  shows "conf_ok d ths d"
  using assms by (auto simp: conf_ok_def explained_def acknowledged_def)

lemma reach_conf_ok:
  assumes "(conc_step X)\<^sup>*\<^sup>* (ths0, rts0, s0) (ths, rts, s)" and "db_good (db s0)"
    and "\<forall>th \<in> set ths0. th_pc th = Checking \<and> sh_Ciphertext (th_share th) \<noteq> None"
  shows "conf_ok (db s0) ths (db s)"
  using assms(1)
proof (induction "(ths, rts, s)" arbitrary: ths rts s rule: rtranclp_induct)
  case base
  show ?case by (rule fresh_conf_ok [OF assms(2,3)])
next
  case (step c)
  obtain ths1 rts1 s1 where c: "c = (ths1, rts1, s1)" by (cases c)
  show ?case using conc_step_conf_ok step.hyps(2,3) unfolding c by blast
qed

text \<open>C6: whatever the interleaving of any number of store requests and retrievals with one another and with key
  rotations, the database stays usable and every key is accounted for: if no store request for the key
  has been acknowledged its content is what it was, and otherwise it is the share of one of the
  acknowledged requests for the key. So an acknowledged share can only be lost to another
  acknowledged request for the same key.\<close>

theorem concurrent_stores:
  assumes "(conc_step X)\<^sup>*\<^sup>* (ths0, rts0, s0) (ths, rts, s)" and "db_good (db s0)"
    and "\<forall>th \<in> set ths0. th_pc th = Checking \<and> sh_Ciphertext (th_share th) \<noteq> None"
  shows "db_good (db s) \<and>
    (if \<exists>th \<in> set ths. acknowledged k th
     then \<exists>th \<in> set ths. acknowledged k th \<and> BoltStore.content (db s) k = Some (th_share th)
     else BoltStore.content (db s) k = BoltStore.content (db s0) k)"
  using reach_conf_ok [OF assms] unfolding conf_ok_def explained_def by blast

subsection \<open>A concrete interleaving\<close>

text \<open>The schedules of \<open>Node_Race\<close> are interleavings.\<close>

lemma run_threads_reachable:
  "run_threads E is (ths, s) = (ths', s') \<Longrightarrow> (conc_step X)\<^sup>*\<^sup>* (ths, rts, s) (ths', rts, s')"
proof (induction E "is" "(ths, s)" arbitrary: ths s rule: run_threads.induct)
  case (2 E i "is" ths s)
  show ?case
  proof (cases "i < length ths")
    case True
    obtain th1 s1 where th1: "thread_step E (ths ! i) s = (th1, s1)" by force
    then have "conc_step X (ths, rts, s) (ths[i := th1], rts, s1)" by (rule conc_step.store [OF True])
    moreover have "(conc_step X)\<^sup>*\<^sup>* (ths[i := th1], rts, s1) (ths', rts, s')"
      using 2(1) [OF True th1 [symmetric]] 2(3) True th1 by simp
    ultimately show ?thesis by simp
  qed (use 2 in simp)
qed simp

definition race_thread :: "string \<Rightarrow> byte \<Rightarrow> store_thread" where
  "race_thread ct c = new_thread (post_example (store_json_example ct)) (store_req_example ct)
     \<lparr>sh_EphemeralPubKey = Some [4], sh_Ciphertext = Some [c], sh_Nonce = Some [9]\<rparr>"

lemma share_exists_example: "share_exists r ''C_o'' (db state_example) = Ok False"
  by (rule share_exists_absent)
    (simp add: state_example_def, simp add: BoltStore.content_def state_example_def loadShare_good,
     simp add: alist_DB_def alist_bolt_def bucket_bolt_def)

lemma race_example:
  "\<exists>s. run_threads node_example [0, 1, 0, 1] ([race_thread ''01'' 1, race_thread ''02'' 2], state_example) =
     ([(race_thread ''01'' 1)\<lparr>th_pc := Finished (Some 200)\<rparr>, (race_thread ''02'' 2)\<lparr>th_pc := Finished (Some 200)\<rparr>], s)"
proof -
  have key: "store_key (store_req_example ct) = ''C_o''" for ct by (simp add: share_key_def store_req_example_def)
  have save: "\<exists>d. saveShare (db s) ''C_o'' sh = Ok (Some (alist_DB d))" if "db s = Some (alist_DB x)" for s :: "(alist_db, int) node_state" and x sh
    using that saveShare_alist by auto
  obtain x where x: "db state_example = Some (alist_DB x)" by (simp add: state_example_def)
  obtain d1 where d1: "saveShare (db state_example) ''C_o'' \<lparr>sh_EphemeralPubKey = Some [4], sh_Ciphertext = Some [1], sh_Nonce = Some [9]\<rparr> =
      Ok (Some (alist_DB d1))" using save [OF x] by blast
  have step1: "status_of (save_share node_example r (store_req_example ct)
        \<lparr>sh_EphemeralPubKey = Some [4], sh_Ciphertext = Some [1], sh_Nonce = Some [9]\<rparr> new_writer state_example) = Some 200 \<and>
      db (outcome_state (save_share node_example r (store_req_example ct)
        \<lparr>sh_EphemeralPubKey = Some [4], sh_Ciphertext = Some [1], sh_Nonce = Some [9]\<rparr> new_writer state_example)) = Some (alist_DB d1)" for r ct
    using save_share_Ok [OF d1 [folded key [of ct]]] by blast
  have step2: "status_of (save_share node_example r (store_req_example ct)
        \<lparr>sh_EphemeralPubKey = Some [4], sh_Ciphertext = Some [2], sh_Nonce = Some [9]\<rparr> new_writer s) = Some 200"
    if "db s = Some (alist_DB d1)" for r ct and s :: "(alist_db, int) node_state"
    using save [OF that, of "\<lparr>sh_EphemeralPubKey = Some [4], sh_Ciphertext = Some [2], sh_Nonce = Some [9]\<rparr>"]
      save_share_Ok(1) [of s "store_req_example ct"] key by metis
  show ?thesis
    using step1 step2 by (simp add: race_thread_def new_thread_def thread_step_def key share_exists_example Let_def)
qed

theorem concurrent_stores_witness:
  "\<exists>ths s. (conc_step ext_example)\<^sup>*\<^sup>* ([race_thread ''01'' 1, race_thread ''02'' 2], [], state_example)
      (ths, [], s :: (alist_db, int) node_state) \<and>
    (\<exists>th \<in> {race_thread ''01'' 1, race_thread ''02'' 2}. BoltStore.content (db s) ''C_o'' = Some (th_share th))"
proof -
  let ?ths = "[race_thread ''01'' 1, race_thread ''02'' 2]"
  obtain s where s: "run_threads node_example [0, 1, 0, 1] (?ths, state_example) =
     ([(race_thread ''01'' 1)\<lparr>th_pc := Finished (Some 200)\<rparr>, (race_thread ''02'' 2)\<lparr>th_pc := Finished (Some 200)\<rparr>], s)"
    using race_example by blast
  then have reach: "(conc_step ext_example)\<^sup>*\<^sup>* (?ths, [], state_example)
     ([(race_thread ''01'' 1)\<lparr>th_pc := Finished (Some 200)\<rparr>, (race_thread ''02'' 2)\<lparr>th_pc := Finished (Some 200)\<rparr>], [], s)"
    by (rule run_threads_reachable)
  have good: "db_good (db state_example)" by (simp add: state_example_def)
  have fresh: "\<forall>th \<in> set ?ths. th_pc th = Checking \<and> sh_Ciphertext (th_share th) \<noteq> None"
    by (simp add: race_thread_def new_thread_def)
  have ack: "acknowledged ''C_o'' ((race_thread ct c)\<lparr>th_pc := Finished (Some 200)\<rparr>)" for ct c
    by (simp add: acknowledged_def race_thread_def new_thread_def store_req_example_def share_key_def)
  have last: "\<exists>th \<in> {race_thread ''01'' 1, race_thread ''02'' 2}. BoltStore.content (db s) ''C_o'' = Some (th_share th)"
    using concurrent_stores [OF reach good fresh, of "''C_o''"] ack by auto
  show ?thesis by (intro exI conjI, rule reach) (use last in simp)
qed

end
