(* ===== verification/Node_Logger.thy ===== *)
theory Node_Logger
  imports Node_Server
begin

text \<open>
  The set-up of the loggers (\<open>node/logger.go\<close>): the level, the audit file and the writers of the
  two loggers; and the redirect server of \<open>node/server.go\<close>. What is written to the loggers is
  in the node state (\<open>Node_State\<close>); here is where it goes.
\<close>

subsection \<open>The audit file\<close>

text \<open>\<open>os.MkdirAll\<close>, \<open>os.OpenFile\<close> (append, create) and the clock, as the set-up finds them.\<close>

record log_env =
  lg_MkdirAll :: "string \<Rightarrow> string option"
  lg_OpenFile :: "string \<Rightarrow> string option"
  lg_date :: string                               \<comment> \<open>time.Now().Format("2006-01-02")\<close>

definition openAuditFile :: "log_env \<Rightarrow> environ \<Rightarrow> string result" where
  "openAuditFile L env =
     (let dir = (if env ''DATA_DIR'' = [] then ''./data'' else env ''DATA_DIR'')
      in case lg_MkdirAll L dir of
           Some e \<Rightarrow> Err e
         | None \<Rightarrow>
             (let path = dir @ ''/audit-'' @ lg_date L @ ''.log''
              in case lg_OpenFile L path of Some e \<Rightarrow> Err e | None \<Rightarrow> Ok path))"

text \<open>Where events go: standard output or a file.\<close>

datatype log_sink = Stdout | LogFile string

record log_setup =
  ls_level :: log_level
  ls_done :: bool                                 \<comment> \<open>loggerOnce\<close>
  ls_logger :: "log_sink list"
  ls_audit :: "log_sink list"

definition log_unset :: log_setup where
  "log_unset = \<lparr>ls_level = TraceLevel, ls_done = False, ls_logger = [], ls_audit = []\<rparr>"

definition InitLogger_setup :: "log_env \<Rightarrow> environ \<Rightarrow> (string \<Rightarrow> string + log_level) \<Rightarrow> string \<Rightarrow> log_setup \<Rightarrow> log_setup" where
  "InitLogger_setup L env parse level s =
     (let s1 = s\<lparr>ls_level := parseLogLevel parse level\<rparr>
      in if ls_done s1 then s1
         else s1\<lparr>ls_done := True, ls_logger := [Stdout],
                 ls_audit := (case openAuditFile L env of Ok af \<Rightarrow> [Stdout, LogFile af] | _ \<Rightarrow> [Stdout])\<rparr>)"

definition logStartup :: "'lim node_env \<Rightarrow> Config \<Rightarrow> ('db, 'lim) node_state \<Rightarrow> ('db, 'lim) node_state" where
  "logStartup E cfg =
     log_to_logger E InfoLevel ''node_startup'' [(''port'', Port cfg), (''tls'', TLSMode cfg), (''data_dir'', DataDir cfg)]"

text \<open>The loggers of the node state are on from the first call.\<close>

lemma InitLogger_agrees:
  "log_global s = ls_level l \<and> log_on s = (ls_logger l \<noteq> []) \<and> ls_done l = (ls_logger l \<noteq> []) \<Longrightarrow>
   log_global (InitLogger parse level s) = ls_level (InitLogger_setup L env parse level l) \<and>
   log_on (InitLogger parse level s) = (ls_logger (InitLogger_setup L env parse level l) \<noteq> [])"
  by (simp add: InitLogger_def InitLogger_setup_def Let_def)

text \<open>The audit file is opened once: however often the logger is initialised again, on whatever later day and
  in whatever environment, the audit log goes where the first call sent it (the file of that day,
  or only standard output if it could not be opened), and the level is that of the last call.\<close>

theorem audit_file_once:
  "foldl (\<lambda>s (L, env, level). InitLogger_setup L env parse level s) log_unset ((L0, env0, level0) # calls) =
     \<lparr>ls_level = parseLogLevel parse (last (level0 # map (\<lambda>(L, env, level). level) calls)), ls_done = True, ls_logger = [Stdout],
      ls_audit = (case openAuditFile L0 env0 of Ok af \<Rightarrow> [Stdout, LogFile af] | _ \<Rightarrow> [Stdout])\<rparr>"
proof (induction calls rule: rev_induct)
  case Nil
  show ?case by (simp add: InitLogger_setup_def log_unset_def)
next
  case (snoc call calls)
  then show ?case by (cases call) (simp add: InitLogger_setup_def)
qed

subsection \<open>The redirect to HTTPS\<close>

text \<open>\<open>http.Redirect\<close> to a URL with a scheme: the two escapings of net/http, and the short body of a GET.\<close>

definition html_char :: "char \<Rightarrow> string" where
  "html_char c =
     (if c = CHR ''&'' then ''&amp;'' else if c = CHR ''<'' then ''&lt;'' else if c = CHR ''>'' then ''&gt;''
      else if c = CHR 0x22 then ''&#34;'' else if c = CHR 0x27 then ''&#39;'' else [c])"

definition htmlEscape :: "string \<Rightarrow> string" where
  "htmlEscape s = concat (map html_char s)"

definition hexEscapeNonASCII :: "string \<Rightarrow> string" where
  "hexEscapeNonASCII s =
     concat (map (\<lambda>c. if (of_char c :: nat) < 128 then [c] else CHR ''%'' # hex_EncodeToString [byte_of_char c]) s)"

definition http_Redirect :: "string \<Rightarrow> nat \<Rightarrow> string \<Rightarrow> http_request \<Rightarrow> http_writer \<Rightarrow> http_writer" where
  "http_Redirect url code status_text r w =
     (let hadCT = (''Content-Type'' \<in> set (map fst (w_header w)));
          w1 = header_set ''Location'' (hexEscapeNonASCII url) w;
          w2 = (if \<not> hadCT \<and> (r_Method r = ''GET'' \<or> r_Method r = ''HEAD'')
                then header_set ''Content-Type'' ''text/html; charset=utf-8'' w1 else w1);
          w3 = write_header code w2
      in if \<not> hadCT \<and> r_Method r = ''GET'' then
           write_body (''<a href='' @ [CHR 0x22] @ htmlEscape url @ [CHR 0x22] @ ''>'' @ status_text @ ''</a>.'' @
             [CHR 0x0A, CHR 0x0A]) w3
         else w3)"

text \<open>The handler of \<open>startHTTPRedirect\<close>; the host and the request URI are those of the request.\<close>

definition redirect_handler :: "string \<Rightarrow> string \<Rightarrow> 's handler" where
  "redirect_handler host uri w r s =
     Served (http_Redirect (''https://'' @ host @ uri) 301 ''Moved Permanently'' r w) s"

definition redirect_server :: http_Server where
  "redirect_server =
     \<lparr>srv_Addr = '':80'', srv_ReadTimeout = 0, srv_WriteTimeout = 0, srv_IdleTimeout = 0,
      srv_ReadHeaderTimeout = 3 * time_Second, srv_TLS = None, srv_redirect = False\<rparr>"

text \<open>\<open>listen\<close> is what \<open>ListenAndServe\<close> of a server returns.\<close>

definition startHTTPRedirect ::
    "'lim node_env \<Rightarrow> (http_Server \<Rightarrow> string option) \<Rightarrow> ('db, 'lim) node_state \<Rightarrow> ('db, 'lim) node_state" where
  "startHTTPRedirect E listen s =
     (let s1 = log_to_logger E InfoLevel ''http_redirect_starting'' [(''addr'', '':80'')] s
      in case listen redirect_server of
           None \<Rightarrow> s1
         | Some err \<Rightarrow> log_to_logger E ErrorLevel ''http_redirect_failed'' [(''error'', err)] s1)"

lemma htmlEscape_safe: "set (htmlEscape s) \<inter> {CHR ''<'', CHR ''>'', CHR 0x22, CHR 0x27} = {}"
  by (induction s) (auto simp: htmlEscape_def html_char_def)

lemma hexEscapeNonASCII_id: "\<forall>c \<in> set s. (of_char c :: nat) < 128 \<Longrightarrow> hexEscapeNonASCII s = s"
  by (induction s) (simp_all add: hexEscapeNonASCII_def)

lemma http_Redirect_page:
  "w_code (http_Redirect url code t r new_writer) = Some code"
  "map_of (w_header (http_Redirect url code t r new_writer)) ''Location'' = Some (hexEscapeNonASCII url)"
  "w_body (http_Redirect url code t r new_writer) = (if r_Method r = ''GET'' then
     ''<a href='' @ [CHR 0x22] @ htmlEscape url @ [CHR 0x22] @ ''>'' @ t @ ''</a>.'' @ [CHR 0x0A, CHR 0x0A] else [])"
  by (simp_all add: http_Redirect_def Let_def new_writer_def header_set_def write_header_def write_body_def)

text \<open>The redirect server sends every request to the same host and URI over https, permanently and without
  touching the node, and what it echoes of the request into the page of a GET is escaped: between the
  quotes of the link there is no quote and no angle bracket.\<close>

theorem redirect_to_https:
  assumes "\<forall>c \<in> set (host @ uri). (of_char c :: nat) < 128"
  shows "\<exists>w link. redirect_handler host uri new_writer r s = Served w s \<and> w_code w = Some 301 \<and>
    map_of (w_header w) ''Location'' = Some (''https://'' @ host @ uri) \<and>
    w_body w = (if r_Method r = ''GET'' then
       ''<a href='' @ [CHR 0x22] @ link @ [CHR 0x22] @ ''>Moved Permanently</a>.'' @ [CHR 0x0A, CHR 0x0A] else []) \<and>
    set link \<inter> {CHR ''<'', CHR ''>'', CHR 0x22, CHR 0x27} = {}"
proof -
  have "hexEscapeNonASCII (''https://'' @ host @ uri) = ''https://'' @ host @ uri"
    by (rule hexEscapeNonASCII_id) (use assms in auto)
  then show ?thesis
    unfolding redirect_handler_def using htmlEscape_safe http_Redirect_page [of "''https://'' @ host @ uri" 301 "''Moved Permanently''" r]
    by (intro exI conjI) (rule refl | assumption | simp only: append_assoc append.simps)+
qed

theorem redirect_to_https_witness:
  "\<exists>w. redirect_handler ''node.example'' ''/status?<b>'' new_writer (req_from ''10.0.0.1:9'') () = Served w () \<and>
    map_of (w_header w) ''Location'' = Some ''https://node.example/status?<b>''"
  using redirect_to_https [of "''node.example''" "''/status?<b>''" "req_from ''10.0.0.1:9''" "()"] by auto

end
