(* ===== verification/Node_Metrics.thy ===== *)
theory Node_Metrics
  imports Node_Handlers
begin

text \<open>
  The Prometheus collectors of \<open>node/metrics.go\<close> and the functions that update them. A counter
  is a number, a histogram the list of its observations (the client library sorts them into
  buckets). The gauge of stored shares is part of the node state, and the key check of the
  metrics endpoint is in \<open>Node_Middleware\<close>.
\<close>

record metrics =
  serverUptime :: nat
  requestsTotal :: "string \<Rightarrow> string \<Rightarrow> nat"             \<comment> \<open>by endpoint and status\<close>
  requestDuration :: "string \<Rightarrow> float64 list"           \<comment> \<open>by endpoint\<close>
  sharesStored :: nat
  simulationDuration :: "float64 list"
  accessGranted :: nat
  accessDenied :: nat

definition metrics_init :: metrics where
  "metrics_init = \<lparr>serverUptime = 0, requestsTotal = (\<lambda>e c. 0), requestDuration = (\<lambda>e. []), sharesStored = 0,
     simulationDuration = [], accessGranted = 0, accessDenied = 0\<rparr>"

text \<open>The goroutine of \<open>StartUptimeTicker\<close>, for the ticks it has received so far.\<close>

fun StartUptimeTicker :: "go_time list \<Rightarrow> metrics \<Rightarrow> metrics" where
  "StartUptimeTicker [] m = m"
| "StartUptimeTicker (tick # ticks) m = StartUptimeTicker ticks (m\<lparr>serverUptime := serverUptime m + 1\<rparr>)"

text \<open>
  The request middleware, with the time the request took. The deferred observation also
  happens when the next handler panics; the counter is only reached when it returns.
\<close>

definition count_request :: "string \<Rightarrow> string \<Rightarrow> metrics \<Rightarrow> metrics" where
  "count_request endpoint status m =
     m\<lparr>requestsTotal := (requestsTotal m)(endpoint := (requestsTotal m endpoint)(status := requestsTotal m endpoint status + 1))\<rparr>"

definition observe_request :: "string \<Rightarrow> float64 \<Rightarrow> metrics \<Rightarrow> metrics" where
  "observe_request endpoint d m =
     m\<lparr>requestDuration := (requestDuration m)(endpoint := requestDuration m endpoint @ [d])\<rparr>"

definition prometheusMiddleware :: "(http_request \<Rightarrow> float64) \<Rightarrow> string \<Rightarrow> ('s \<times> metrics) handler \<Rightarrow> ('s \<times> metrics) handler" where
  "prometheusMiddleware elapsed endpoint next w r sm =
     (case next (w\<lparr>w_status := 200\<rparr>) r sm of
        Panicked p w1 (s1, m1) \<Rightarrow> Panicked p w1 (s1, observe_request endpoint (elapsed r) m1)
      | Served w1 (s1, m1) \<Rightarrow>
          Served w1 (s1, observe_request endpoint (elapsed r) (count_request endpoint (show_nat (w_status w1)) m1)))"

definition observeSimulationDuration :: "float64 \<Rightarrow> metrics \<Rightarrow> metrics" where
  "observeSimulationDuration d m = m\<lparr>simulationDuration := simulationDuration m @ [d]\<rparr>"

definition observeSimulationRPC :: "float64 \<Rightarrow> metrics \<Rightarrow> metrics" where
  "observeSimulationRPC durationSecs m = m\<lparr>simulationDuration := simulationDuration m @ [durationSecs]\<rparr>"

definition recordAccessDecision :: "bool \<Rightarrow> metrics \<Rightarrow> metrics" where
  "recordAccessDecision granted m =
     (if granted then m\<lparr>accessGranted := accessGranted m + 1\<rparr> else m\<lparr>accessDenied := accessDenied m + 1\<rparr>)"

subsection \<open>What the middleware counts\<close>

text \<open>A node handler, which knows nothing of the metrics, beside them.\<close>

definition beside :: "'s handler \<Rightarrow> ('s \<times> metrics) handler" where
  "beside h w r sm =
     (case h w r (fst sm) of Served w1 s1 \<Rightarrow> Served w1 (s1, snd sm) | Panicked p w1 s1 \<Rightarrow> Panicked p w1 (s1, snd sm))"

definition served_with :: "string \<Rightarrow> 's outcome \<Rightarrow> bool" where
  "served_with status out \<longleftrightarrow> served out \<and> show_nat (w_status (outcome_writer out)) = status"

text \<open>Serving a sequence of requests up to the final state.\<close>

fun serve_run :: "'s handler \<Rightarrow> http_request list \<Rightarrow> 's \<Rightarrow> 's" where
  "serve_run h [] s = s"
| "serve_run h (r # rs) s = serve_run h rs (outcome_state (h new_writer r s))"

lemma beside_eq:
  "outcome_state (beside h w r (s, m)) = (outcome_state (h w r s), m)"
  "outcome_writer (beside h w r (s, m)) = outcome_writer (h w r s)"
  "served (beside h w r (s, m)) = served (h w r s)"
  by (cases "h w r s"; simp add: beside_def)+

lemma new_writer_200 [simp]: "new_writer\<lparr>w_status := 200\<rparr> = new_writer"
  by (simp add: new_writer_def)

lemma prometheus_step:
  "outcome_state (prometheusMiddleware elapsed ep (beside h) new_writer r (s, m)) =
     (outcome_state (h new_writer r s),
      observe_request ep (elapsed r)
        (if served (h new_writer r s) then count_request ep (show_nat (w_status (outcome_writer (h new_writer r s)))) m else m))"
  "outcome_writer (prometheusMiddleware elapsed ep (beside h) new_writer r (s, m)) = outcome_writer (h new_writer r s)"
  by (cases "h new_writer r s"; simp add: prometheusMiddleware_def beside_def)+

text \<open>The request metrics are exact: for every sequence of requests to an instrumented handler, the histogram of the
  endpoint gets one observation for each request, panics included, the counter of a status grows by the
  number of requests answered with it, nothing else changes, and the node state and the
  responses are those of the bare handler.\<close>

theorem prometheus_counts:
  "map outcome_writer (serve_seq (prometheusMiddleware elapsed ep (beside h)) rs (s, m)) = map outcome_writer (serve_seq h rs s) \<and>
    (\<exists>m'. serve_run (prometheusMiddleware elapsed ep (beside h)) rs (s, m) = (serve_run h rs s, m') \<and>
       requestDuration m' ep = requestDuration m ep @ map elapsed rs \<and>
       (\<forall>c. requestsTotal m' ep c = requestsTotal m ep c + length (filter (served_with c) (serve_seq h rs s))) \<and>
       m'\<lparr>requestDuration := requestDuration m, requestsTotal := requestsTotal m\<rparr> = m)"
proof (induction rs arbitrary: s m)
  case (Cons r rs)
  let ?out = "h new_writer r s"
  let ?m = "observe_request ep (elapsed r)
        (if served ?out then count_request ep (show_nat (w_status (outcome_writer ?out))) m else m)"
  have m: "requestDuration ?m ep = requestDuration m ep @ [elapsed r]"
      "\<And>c. requestsTotal ?m ep c = requestsTotal m ep c + (if served_with c ?out then 1 else 0)"
      "?m\<lparr>requestDuration := requestDuration m, requestsTotal := requestsTotal m\<rparr> = m"
    by (auto simp: observe_request_def count_request_def served_with_def)
  obtain m' where IH: "serve_run (prometheusMiddleware elapsed ep (beside h)) rs (outcome_state ?out, ?m) =
        (serve_run h rs (outcome_state ?out), m')"
      "requestDuration m' ep = requestDuration ?m ep @ map elapsed rs"
      "\<forall>c. requestsTotal m' ep c = requestsTotal ?m ep c + length (filter (served_with c) (serve_seq h rs (outcome_state ?out)))"
      "m'\<lparr>requestDuration := requestDuration ?m, requestsTotal := requestsTotal ?m\<rparr> = ?m"
    using Cons by blast
  have "m'\<lparr>requestDuration := requestDuration m, requestsTotal := requestsTotal m\<rparr> =
      (m'\<lparr>requestDuration := requestDuration ?m, requestsTotal := requestsTotal ?m\<rparr>)
        \<lparr>requestDuration := requestDuration m, requestsTotal := requestsTotal m\<rparr>" by simp
  also have "\<dots> = m" unfolding IH(4) by (rule m(3))
  finally have "m'\<lparr>requestDuration := requestDuration m, requestsTotal := requestsTotal m\<rparr> = m" .
  with IH m(1,2) Cons show ?case by (auto simp: prometheus_step Let_def)
qed simp

text \<open>The access counters add up to the decisions recorded.\<close>

lemma recordAccessDecision_total:
  "accessGranted (fold recordAccessDecision ds m) = accessGranted m + length (filter (\<lambda>d. d) ds)"
  "accessDenied (fold recordAccessDecision ds m) = accessDenied m + length (filter Not ds)"
  by (induction ds arbitrary: m) (simp_all add: recordAccessDecision_def)

lemma StartUptimeTicker_counts: "serverUptime (StartUptimeTicker ticks m) = serverUptime m + length ticks"
  by (induction ticks arbitrary: m) simp_all

text \<open>Every endpoint keeps its own counters.\<close>

lemma prometheus_other_endpoint:
  "e \<noteq> ep \<Longrightarrow> requestsTotal (observe_request ep d (count_request ep c m)) e = requestsTotal m e"
  by (simp add: observe_request_def count_request_def)

end
