(* ===== verification/Node_Surface.thy ===== *)
theory Node_Surface
  imports Node_Server
begin

text \<open>
  What a client sees of a node: which status codes there are, and that the private keys show in
  nothing but the answers to retrievals.
\<close>

subsection \<open>Relations between two runs\<close>

text \<open>
  Two runs of the same requests on related states. What a relation has to offer: the middleware
  touches only the log and the IP limiter, and the handlers take related states to the same
  response and related states. \<open>rel_outcome\<close> relates two outcomes with equal writers.
\<close>

locale related_runs =
  fixes R :: "('db, 'lim) node_state \<Rightarrow> ('db, 'lim) node_state \<Rightarrow> bool"
    and Q :: "http_request \<Rightarrow> bool"
    and E :: "'lim node_env"
  assumes Q_body: "Q (r\<lparr>r_Body := b, r_MaxBytes := m\<rparr>) = Q r"
    and R_logger: "R s s' \<Longrightarrow> R (log_to_logger E l msg fs s) (log_to_logger E l msg fs s')"
    and R_limiter: "R s s' \<Longrightarrow> globalIPLimiter s' = globalIPLimiter s"
    and R_limited: "R s s' \<Longrightarrow> R (s\<lparr>globalIPLimiter := lim\<rparr>) (s'\<lparr>globalIPLimiter := lim\<rparr>)"
    and R_probes: "R s s' \<Longrightarrow> rel_outcome R (handleHealth E w r s) (handleHealth E w r s')"
      "R s s' \<Longrightarrow> rel_outcome R (handleReady w r s) (handleReady w r s')"
      "R s s' \<Longrightarrow> rel_outcome R (handleStatus E w r s) (handleStatus E w r s')"
      "R s s' \<Longrightarrow> rel_outcome R (handleGetPublicKey w r s) (handleGetPublicKey w r s')"
      "R s s' \<Longrightarrow> rel_outcome R (handleSync w r s) (handleSync w r s')"
    and R_store: "R s s' \<Longrightarrow> rel_outcome R (handleStoreShare E w r s) (handleStoreShare E w r s')"
    and R_rotate: "R s s' \<Longrightarrow> rel_outcome R (handleRotateKey E w r s) (handleRotateKey E w r s')"
    and R_retrieve: "Q r \<Longrightarrow> r_Path r = ''/retrieve'' \<Longrightarrow> R s s' \<Longrightarrow>
        rel_outcome R (handleRetrieveShare E w r s) (handleRetrieveShare E w r s')"
begin

definition agrees :: "('db, 'lim) node_handler \<Rightarrow> http_request \<Rightarrow> bool" where
  "agrees h r \<longleftrightarrow> (\<forall>w s s'. R s s' \<longrightarrow> rel_outcome R (h w r s) (h w r s'))"

lemma agrees_logging:
  assumes "agrees h (r\<lparr>r_Body := body_seen r, r_MaxBytes := None\<rparr>)"
  shows "agrees (loggingMiddleware E h) r"
proof (unfold agrees_def, intro allI impI)
  fix w and s s' :: "('db, 'lim) node_state"
  assume "R s s'"
  let ?r = "r\<lparr>r_Body := body_seen r, r_MaxBytes := None\<rparr>"
  have "rel_outcome R (h w' ?r s) (h w' ?r s')" for w' using assms \<open>R s s'\<close> by (simp add: agrees_def)
  then show "rel_outcome R (loggingMiddleware E h w r s) (loggingMiddleware E h w r s')"
    by (auto simp: loggingMiddleware_def Let_def split: outcome.splits)
      (metis R_logger outcome.rel_inject outcome.rel_distinct)+
qed

lemma agrees_body_limit:
  "(\<And>m. agrees h (r\<lparr>r_MaxBytes := m\<rparr>)) \<Longrightarrow> agrees (bodySizeLimitMiddleware n h) r"
  by (simp add: agrees_def bodySizeLimitMiddleware_def)

lemma agrees_rate_limit: "agrees h r \<Longrightarrow> agrees (rateLimitMiddleware E h) r"
  by (auto simp: agrees_def rateLimitMiddleware_def Let_def case_prod_beta R_limiter R_limited split: option.splits)

lemma agrees_api_key: "agrees h r \<Longrightarrow> agrees (apiKeyMiddleware E key h) r"
  by (simp add: agrees_def apiKeyMiddleware_def R_logger)

lemma best_match_matches: "best_match p m = Some (pat, h) \<Longrightarrow> (pat, h) \<in> set m \<and> path_matches pat p"
  by (induction p m arbitrary: pat h rule: best_match.induct)
    (auto simp: Let_def split: if_splits option.splits prod.splits)

lemma agrees_mux:
  "(\<And>pat h. (pat, h) \<in> set m \<Longrightarrow> path_matches pat (r_Path r) \<Longrightarrow> agrees h r) \<Longrightarrow> agrees (mux_serve m) r"
  by (auto simp: agrees_def mux_serve_def split: option.splits dest!: best_match_matches)

lemma agrees_buildMux:
  assumes "buildMux E cfg = Ok h" and "Q r"
  shows "agrees h r"
proof -
  let ?r = "\<lambda>m. r\<lparr>r_Body := body_seen r, r_MaxBytes := m\<rparr>"
  have Q: "Q (?r m)" for m using assms(2) Q_body by simp
  have probes: "agrees (handleHealth E) r'" "agrees handleReady r'" "agrees (handleStatus E) r'"
      "agrees handleGetPublicKey r'" "agrees handleSync r'" "agrees (handleStoreShare E) r'" "agrees (handleRotateKey E) r'" for r'
    using R_probes R_store R_rotate by (auto simp: agrees_def)
  have exact: "path_matches ''/retrieve'' p \<longleftrightarrow> p = ''/retrieve''" for p by (simp add: path_matches_def)
  have "agrees (handleRetrieveShare E) (?r m)" if "r_Path r = ''/retrieve''" for m
    using R_retrieve [OF Q] that by (simp add: agrees_def)
  then have "agrees (mux_serve (storeMux E)) (?r m)" for m
    using probes by (intro agrees_mux) (auto simp: storeMux_def exact)
  then have "agrees (mux_serve (routes E cfg)) (?r m)" for m
    using probes agrees_api_key agrees_rate_limit by (intro agrees_mux) (auto simp: routes_def)
  then show ?thesis
    using assms(1) by (auto simp: buildMux_Ok intro!: agrees_logging agrees_body_limit agrees_rate_limit)
qed

end

subsection \<open>Secrecy of the private keys\<close>

text \<open>The same state with other private keys: the active one and those of the key manager.\<close>

definition rekey :: "bytes \<Rightarrow> (64 word \<times> bytes) list \<Rightarrow> ('db, 'lim) node_state \<Rightarrow> ('db, 'lim) node_state" where
  "rekey k ks s = s\<lparr>nodePrivateKey := k, globalKeyManager := map_option (\<lambda>km. km\<lparr>km_keys := ks\<rparr>) (globalKeyManager s)\<rparr>"

definition same_but_keys :: "('db, 'lim) node_state \<Rightarrow> ('db, 'lim) node_state \<Rightarrow> bool" where
  "same_but_keys s s' \<longleftrightarrow> (\<exists>k ks. s' = rekey k ks s)"

lemma rekey_fields [simp]:
  "db (rekey k ks s) = db s" "nodePublicKey (rekey k ks s) = nodePublicKey s"
  "globalIPLimiter (rekey k ks s) = globalIPLimiter s" "nodeStartTime (rekey k ks s) = nodeStartTime s"
  "nodeVersion (rekey k ks s) = nodeVersion s"
  "globalKeyManager (rekey k ks s) = map_option (\<lambda>km. km\<lparr>km_keys := ks\<rparr>) (globalKeyManager s)"
  by (simp_all add: rekey_def)

lemma rekey_updates:
  "rekey k ks (s\<lparr>db := d\<rparr>) = (rekey k ks s)\<lparr>db := d\<rparr>"
  "rekey k ks (s\<lparr>globalIPLimiter := lim\<rparr>) = (rekey k ks s)\<lparr>globalIPLimiter := lim\<rparr>"
  "rekey k ks (log_to_logger E l m f s) = log_to_logger E l m f (rekey k ks s)"
  "rekey k ks (log_to_audit E l m f s) = log_to_audit E l m f (rekey k ks s)"
  by (simp_all add: rekey_def log_to_logger_def log_to_audit_def)

lemma same_but_keys_iff: "same_but_keys s s' \<longleftrightarrow> s' \<in> {t. \<exists>k ks. t = rekey k ks s}"
  by (simp add: same_but_keys_def)

lemma rekeyed: "same_but_keys s (rekey k ks s)"
  by (auto simp: same_but_keys_def)

lemma store_rekey:
  "handleStoreShare E w r (rekey k ks s) = map_outcome (rekey k ks) (handleStoreShare E w r s)"
  by (simp add: handleStoreShare_def put_share_def save_share_def share_exists_def logStoreOutcome_def Let_def rekey_updates
      split: option.splits sum.splits result.splits bool.splits)

lemma probes_rekey:
  "handleHealth E w r (rekey k ks s) = map_outcome (rekey k ks) (handleHealth E w r s)"
  "handleReady w r (rekey k ks s) = map_outcome (rekey k ks) (handleReady w r s)"
  "handleStatus E w r (rekey k ks s) = map_outcome (rekey k ks) (handleStatus E w r s)"
  "handleGetPublicKey w r (rekey k ks s) = map_outcome (rekey k ks) (handleGetPublicKey w r s)"
  "handleSync w r (rekey k ks s) = map_outcome (rekey k ks) (handleSync w r s)"
  by (simp_all add: handleHealth_def handleReady_def handleStatus_def handleGetPublicKey_def handleSync_def Let_def
      split: result.splits)

lemma rel_map_outcome: "rel_outcome same_but_keys out (map_outcome (rekey k ks) out)"
  by (cases out) (simp_all add: rekeyed)

lemma rotate_rekey:
  "rel_outcome same_but_keys (handleRotateKey E w r s) (handleRotateKey E w r (rekey k ks s))"
proof (cases "globalKeyManager s")
  case None
  then show ?thesis by (simp add: handleRotateKey_def rekeyed)
next
  case (Some km)
  show ?thesis
  proof (cases "ne_GenerateKey E")
    case (Inl e)
    then show ?thesis using Some by (simp add: handleRotateKey_def Rotate_def rekeyed rekey_updates [symmetric])
  next
    case (Inr newKey)
    let ?ks = "AList.update (km_currentVersion km + 1) newKey ks"
    have "snd (Rotate E (rekey k ks s)) = rekey newKey ?ks (snd (Rotate E s))"
      using Some Inr by (cases s; cases km) (simp add: Rotate_def Let_def reencryptShares_def rekey_updates, simp add: rekey_def)
    moreover have "fst (Rotate E (rekey k ks s)) = Ok ()" "fst (Rotate E s) = Ok ()"
      using Some Inr by (simp_all add: Rotate_def Let_def)
    moreover have "\<exists>km'. globalKeyManager (snd (Rotate E s)) = Some km'"
      using Some Inr by (simp add: Rotate_def Let_def reencryptShares_def)
    ultimately show ?thesis
      using Some rekeyed by (cases "Rotate E s"; cases "Rotate E (rekey k ks s)") (auto simp: handleRotateKey_def CurrentVersion_def)
  qed
qed

text \<open>The runs agree on every request but those for /retrieve.\<close>

interpretation other_keys: related_runs same_but_keys "\<lambda>r. r_Path r \<noteq> ''/retrieve''" E for E
proof (unfold_locales, goal_cases Q logger limiter limited health ready status key sync store rotate retrieve)
  case logger
  then show ?case unfolding same_but_keys_def by (metis rekey_updates(3))
next
  case limited
  then show ?case unfolding same_but_keys_def by (metis rekey_updates(2))
next
  case (store s s' w r)
  then obtain k ks where "s' = rekey k ks s" by (auto simp: same_but_keys_def)
  then show ?case by (simp only: store_rekey rel_map_outcome)
next
  case (rotate s s' w r)
  then obtain k ks where "s' = rekey k ks s" by (auto simp: same_but_keys_def)
  then show ?case by (simp only: rotate_rekey)
qed (auto simp: same_but_keys_iff probes_rekey rel_map_outcome)

text \<open>C9: the private keys of a node show in nothing but the answers to /retrieve: for any configuration, and any
  sequence of requests for other paths, two nodes that differ only in their private keys answer every
  request alike, byte for byte in status, headers and body, panic alike, and still differ only in their
  private keys afterwards.\<close>

theorem private_key_hidden:
  assumes "buildMux E cfg = Ok h" and "\<forall>r \<in> set rs. r_Path r \<noteq> ''/retrieve''"
    and "s' = s\<lparr>nodePrivateKey := k, globalKeyManager := map_option (\<lambda>km. km\<lparr>km_keys := ks\<rparr>) (globalKeyManager s)\<rparr>"
  shows "list_all2 (rel_outcome same_but_keys) (serve_seq h rs s) (serve_seq h rs s')"
proof -
  have "same_but_keys s s'" using assms(3) by (auto simp: same_but_keys_def rekey_def)
  then show ?thesis
    using assms(2)
  proof (induction rs arbitrary: s s')
    case (Cons r rs)
    have "other_keys.agrees h r" using other_keys.agrees_buildMux [OF assms(1)] Cons.prems(2) by simp
    then have out: "rel_outcome same_but_keys (h new_writer r s) (h new_writer r s')"
      using Cons.prems(1) by (simp add: other_keys.agrees_def)
    then have "same_but_keys (outcome_state (h new_writer r s)) (outcome_state (h new_writer r s'))"
      by (cases "h new_writer r s"; cases "h new_writer r s'") simp_all
    then show ?case using Cons out by (simp add: Let_def)
  qed simp
qed

theorem private_key_hidden_witness:
  "\<exists>h. buildMux node_example config_example = Ok h \<and>
    list_all2 (rel_outcome same_but_keys) (serve_seq h [(req_from ''10.0.0.1:9'')\<lparr>r_Path := ''/status''\<rparr>] state_example)
      (serve_seq h [(req_from ''10.0.0.1:9'')\<lparr>r_Path := ''/status''\<rparr>] (state_example\<lparr>nodePrivateKey := replicate 32 9\<rparr>))"
proof -
  obtain h :: "(alist_db, int) node_handler" where h: "buildMux node_example config_example = Ok h"
    using buildMux_example by blast
  have "state_example\<lparr>nodePrivateKey := replicate 32 9\<rparr> = state_example\<lparr>nodePrivateKey := replicate 32 9,
      globalKeyManager := map_option (\<lambda>km. km\<lparr>km_keys := []\<rparr>) (globalKeyManager state_example)\<rparr>"
    by (simp add: state_example_def)
  from private_key_hidden [OF h _ this, of "[(req_from ''10.0.0.1:9'')\<lparr>r_Path := ''/status''\<rparr>]"] h show ?thesis by auto
qed

subsection \<open>Status codes and the request log\<close>

definition node_codes :: "nat set" where
  "node_codes = {200, 400, 401, 403, 404, 405, 409, 429, 500, 503, 508}"

text \<open>A fresh writer, and one that a handler is done with: nothing was sent, or one of the codes, which is also the
  code the \<open>statusWriter\<close> has seen.\<close>

definition fresh :: "http_writer \<Rightarrow> bool" where
  "fresh w \<longleftrightarrow> w_code w = None \<and> w_status w = 200"

definition answered :: "http_writer \<Rightarrow> bool" where
  "answered w \<longleftrightarrow> w_status w \<in> node_codes \<and> (case w_code w of None \<Rightarrow> w_status w = 200 | Some c \<Rightarrow> c = w_status w)"

definition answers :: "('db, 'lim) node_handler \<Rightarrow> bool" where
  "answers h \<longleftrightarrow> (\<forall>w r s w' s'. fresh w \<longrightarrow> h w r s = Served w' s' \<longrightarrow> answered w')"

lemma answersI: "(\<And>w r s w' s'. fresh w \<Longrightarrow> h w r s = Served w' s' \<Longrightarrow> answered w') \<Longrightarrow> answers h"
  by (auto simp: answers_def)

lemma answered_Error [simp]: "fresh w \<Longrightarrow> answered (http_Error m c w) \<longleftrightarrow> c \<in> node_codes"
  by (simp add: answered_def fresh_def http_Error_def write_header_def write_body_def header_set_def)

lemma answered_Encode [simp]: "fresh w \<Longrightarrow> answered (json_Encode v w)"
  by (simp add: answered_def fresh_def json_Encode_def write_body_def node_codes_def)

lemma answered_Encode_header [simp]: "fresh w \<Longrightarrow> answered (json_Encode v (write_header c w)) \<longleftrightarrow> c \<in> node_codes"
  by (simp add: answered_def fresh_def json_Encode_def write_header_def write_body_def)

lemma fresh_header_set [simp]: "fresh (header_set k v w) \<longleftrightarrow> fresh w"
  by (simp add: fresh_def header_set_def)

lemma answers_probes:
  "answers (handleHealth E)" "answers handleReady" "answers (handleStatus E)" "answers handleGetPublicKey" "answers handleSync"
  by (auto intro!: answersI simp: handleHealth_def handleReady_def handleStatus_def handleGetPublicKey_def handleSync_def
      node_codes_def Let_def
      split: if_splits result.splits)

lemma share_exists_no_Err: "share_exists r k d \<noteq> Err e"
  by (simp add: share_exists_def split: result.splits)

lemma answers_store: "answers (handleStoreShare E)"
  by (rule answersI) (auto simp: share_exists_no_Err handleStoreShare_def put_share_def save_share_def node_codes_def Let_def
      split: if_splits option.splits sum.splits result.splits bool.splits)

lemma answers_retrieve: "answers (handleRetrieveShare E)"
  by (rule answersI) (auto simp: retrieve_defs release_defs node_codes_def Let_def
      split: if_splits option.splits sum.splits result.splits bool.splits prod.splits)

lemma answers_rotate: "answers (handleRotateKey E)"
  by (rule answersI) (auto simp: handleRotateKey_def node_codes_def split: if_splits result.splits prod.splits option.splits)

lemma answered_unauthorized [simp]: "fresh w \<Longrightarrow> answered (unauthorizedResponse m w)"
  by (simp add: answered_def fresh_def unauthorizedResponse_def write_header_def write_body_def header_set_def node_codes_def)

lemma answersD: "answers h \<Longrightarrow> fresh w \<Longrightarrow> h w r s = Served w' s' \<Longrightarrow> answered w'"
  unfolding answers_def by blast

lemma answers_guarded:
  "answers h \<Longrightarrow> answers (rateLimitMiddleware E h)" "answers h \<Longrightarrow> answers (apiKeyMiddleware E key h)"
  by (rule answersI; auto simp: rateLimitMiddleware_def apiKeyMiddleware_def Let_def case_prod_beta node_codes_def
      dest: answersD split: if_splits option.splits)+

lemma answers_mux: "(\<And>p h. (p, h) \<in> set m \<Longrightarrow> answers h) \<Longrightarrow> answers (mux_serve m)"
  by (rule answersI) (auto simp: mux_serve_def node_codes_def split: option.splits
      dest!: other_keys.best_match_matches dest: answersD)

lemma answers_routes: "answers (rateLimitMiddleware E (mux_serve (routes E cfg)))"
proof -
  have "answers (mux_serve (storeMux E))"
    using answers_store answers_retrieve answers_rotate answers_probes by (intro answers_mux) (auto simp: storeMux_def)
  then have "answers (mux_serve (routes E cfg))"
    using answers_probes answers_guarded by (intro answers_mux) (auto simp: routes_def)
  then show ?thesis by (rule answers_guarded)
qed

text \<open>What \<open>loggingMiddleware\<close>, the outermost handler, makes of a request.\<close>

lemma buildMux_served:
  assumes "buildMux E cfg = Ok h" and "h new_writer r s = Served w' s'"
  obtains s1 rest where "answered w'" and "s' = log_to_logger E InfoLevel ''http_request''
    ([(''method'', r_Method r), (''path'', r_Path r), (''remote_addr'', r_RemoteAddr r),
      (''status'', show_nat (w_status w'))] @ rest) s1"
proof -
  let ?id = "if header_get r ''X-Request-Id'' = [] then generateRequestID E else header_get r ''X-Request-Id''"
  let ?w = "(header_set ''X-Request-Id'' ?id new_writer)\<lparr>w_status := 200\<rparr>"
  let ?out = "rateLimitMiddleware E (mux_serve (routes E cfg)) ?w (inner_request cfg r) s"
  obtain s1 where out: "?out = Served w' s1"
    and s': "s' = log_to_logger E InfoLevel ''http_request''
      ([(''method'', r_Method r), (''path'', r_Path r), (''remote_addr'', r_RemoteAddr r), (''status'', show_nat (w_status w'))] @
       [(''body_size'', show_nat (length (body_seen r))), (''req_id'', ?id), (''duration_us'', show_int (ne_Micros E))]) s1"
    using assms by (cases ?out) (simp_all add: buildMux_Ok loggingMiddleware_def bodySizeLimitMiddleware_def inner_request_def Let_def)
  have "fresh ?w" by (simp add: fresh_def)
  then have "answered w'" using answersD [OF answers_routes _ out] by blast
  then show ?thesis using that s' by blast
qed

interpretation log_inv: state_invariant "\<lambda>s. log_on s \<and> log_global s = l" "\<lambda>r. True" E for l E
proof (unfold_locales, goal_cases body logger limiter store retrieve rotate)
  case (store s r w)
  then show ?case
    by (auto simp: handleStoreShare_def put_share_def save_share_def logStoreOutcome_def Let_def
        split: option.splits sum.splits result.splits bool.splits)
next
  case (retrieve s r w)
  then show ?case
    by (auto simp: retrieve_defs release_defs checkObjectRateLimit_def logRetrieveOutcome_def case_prod_beta Let_def
        split: option.splits sum.splits result.splits bool.splits)
next
  case (rotate s r w)
  then show ?case
    by (auto simp: handleRotateKey_def Rotate_def reencryptShares_def Let_def split: option.splits sum.splits)
qed simp_all



text \<open>C32: the request log tells what the clients saw: while logging is on at level info, every request that is
  answered, rejected ones included, adds as the last entry its method, its path and the very status code the
  client gets.\<close>

theorem requests_logged:
  assumes "buildMux E cfg = Ok h" and "h new_writer r s = Served w' s'"
    and "log_on s" and "ne_Enabled E (log_global s) InfoLevel"
  shows "\<exists>before flds c. logs s' = before @ [\<lparr>le_level = InfoLevel, le_msg = ''http_request'', le_fields = flds\<rparr>] \<and>
    status_of (Served w' s') = Some c \<and>
    map_of flds ''status'' = Some (show_nat c) \<and> map_of flds ''method'' = Some (r_Method r) \<and> map_of flds ''path'' = Some (r_Path r)"
proof -
  obtain s1 rest where ans: "answered w'" and s': "s' = log_to_logger E InfoLevel ''http_request''
    ([(''method'', r_Method r), (''path'', r_Path r), (''remote_addr'', r_RemoteAddr r),
      (''status'', show_nat (w_status w'))] @ rest) s1"
    by (rule buildMux_served [OF assms(1,2)])
  have "log_on s' \<and> log_global s' = log_global s"
    using log_inv.keeps_buildMux [OF assms(1), where l = "log_global s"] assms(2,3)
    unfolding log_inv.keeps_def by (metis outcome_state.simps(1))
  then have "log_on s1" "ne_Enabled E (log_global s1) InfoLevel" using s' assms(4) by simp_all
  then have logs: "logs s' = logs s1 @ [\<lparr>le_level = InfoLevel, le_msg = ''http_request'',
      le_fields = [(''method'', r_Method r), (''path'', r_Path r), (''remote_addr'', r_RemoteAddr r),
        (''status'', show_nat (w_status w'))] @ rest\<rparr>]"
    using s' by (simp add: log_to_logger_def)
  have "status_of (Served w' s') = Some (w_status w')"
    using ans by (auto simp: answered_def status_of_def split: option.splits)
  then show ?thesis by - (intro exI conjI, rule logs, simp_all)
qed

theorem requests_logged_witness:
  "\<exists>h. buildMux node_example config_example = Ok h \<and>
    (case h new_writer ((req_from ''10.0.0.1:9'')\<lparr>r_Path := ''/ready''\<rparr>) state_example of
       Panicked p w' s' \<Rightarrow> False
     | Served w' s' \<Rightarrow> map_of (le_fields (last (logs s'))) ''path'' = Some ''/ready'')"
proof -
  let ?r = "(req_from ''10.0.0.1:9'')\<lparr>r_Path := ''/ready''\<rparr>"
  obtain h :: "(alist_db, int) node_handler" where h: "buildMux node_example config_example = Ok h"
    using buildMux_example by blast
  have ready: "mux_serve (routes node_example config_example) w (inner_request config_example ?r) s = handleReady w
      (inner_request config_example ?r) s" for w and s :: "(alist_db, int) node_state"
    by (rule routes_serve) (simp_all add: config_example_fields fixed_routes_def routes_def)
  have "globalIPLimiter state_example = None" by (simp add: state_example_def)
  from buildMux_status [OF h this, of ?r] have "served (h new_writer ?r state_example)"
    unfolding ready by (metis served.simps(1) handleReady_def)
  then obtain w' s' where out: "h new_writer ?r state_example = Served w' s'"
    by (cases "h new_writer ?r state_example") auto
  have "ne_Enabled node_example (log_global state_example) InfoLevel" "log_on state_example"
    by (simp_all add: node_example_def env_example_def state_example_def)
  with requests_logged [OF h out] have "map_of (le_fields (last (logs s'))) ''path'' = Some ''/ready''" by auto
  with h out show ?thesis by auto
qed

end
