(* ===== verification/Node_Retrievals.thy ===== *)
theory Node_Retrievals
  imports Node_Interleaving Protocol
begin

text \<open>What a retrieval can release when it is interleaved with store requests, other retrievals and rotations.\<close>

subsection \<open>Justified answers\<close>

lemma acknowledged_stays:
  assumes "conc_step X (ths, rts, s) (ths', rts', s')" and "th \<in> set ths" and "acknowledged k th"
  shows "th \<in> set ths'"
  using assms(1)
proof cases
  case (store i E th')
  obtain m where m: "m < length ths" "ths ! m = th" using assms(2) by (auto simp: in_set_conv_nth)
  have "thread_step E th s = (th, s)" using assms(3) by (simp add: thread_step_def acknowledged_def)
  then have "ths[i := th'] ! m = th" using store m by (cases "m = i") auto
  then show ?thesis using store m by (metis length_list_update nth_mem)
qed (use assms(2) in simp_all)

text \<open>A share a key held at first or was given by an acknowledged request.\<close>

definition has_source :: "'db db_ptr \<Rightarrow> store_thread list \<Rightarrow> string \<Rightarrow> StoredShareDB \<Rightarrow> bool" where
  "has_source d0 ths k share \<longleftrightarrow>
     BoltStore.content d0 k = Some share \<or> (\<exists>th \<in> set ths. acknowledged k th \<and> th_share th = share)"

lemma has_source_stays:
  "conc_step X (ths, rts, s) (ths', rts', s') \<Longrightarrow> has_source d0 ths k share \<Longrightarrow> has_source d0 ths' k share"
  unfolding has_source_def using acknowledged_stays by blast

lemma conf_ok_source: "conf_ok d0 ths d \<Longrightarrow> BoltStore.content d k = Some share \<Longrightarrow> has_source d0 ths k share"
  unfolding conf_ok_def explained_def has_source_def by (metis option.inject)

definition admitted :: "ext \<Rightarrow> ('db, 'lim) node_conf \<Rightarrow> http_request \<Rightarrow> RetrieveRequest \<Rightarrow> bool" where
  "admitted X c0 r req \<longleftrightarrow>
     (\<exists>ths rts s E. (conc_step X)\<^sup>*\<^sup>* c0 (ths, rts, s) \<and> ne_ext E = X \<and> retrieve_authorized E r s req)"

definition held_key :: "ext \<Rightarrow> ('db, 'lim) node_conf \<Rightarrow> bytes \<Rightarrow> bool" where
  "held_key X c0 key \<longleftrightarrow> (\<exists>ths rts s. (conc_step X)\<^sup>*\<^sup>* c0 (ths, rts, s) \<and> nodePrivateKey s = key)"

definition released :: "ext \<Rightarrow> ('db, 'lim) node_conf \<Rightarrow> store_thread list \<Rightarrow> http_request \<Rightarrow> http_writer \<Rightarrow> bool" where
  "released X c0 ths r w \<longleftrightarrow>
     (\<exists>req share key pt. admitted X c0 r req \<and> has_source (db (snd (snd c0))) ths (retrieve_key req) share \<and> held_key X c0 key \<and>
        DecryptShare X key (slice_bytes (sh_EphemeralPubKey share)) (slice_bytes (sh_Ciphertext share))
          (slice_bytes (sh_Nonce share)) = Ok pt \<and>
        w_body w = json_print (RetrieveResponse_json (hex_EncodeToString pt)) @ [CHR 0x0A])"

primrec justified ::
    "ext \<Rightarrow> ('db, 'lim) node_conf \<Rightarrow> store_thread list \<Rightarrow> http_request \<Rightarrow> retrieve_pc \<Rightarrow> bool" where
  "justified X c0 ths r Arrived = True"
| "justified X c0 ths r (Admitted req) = admitted X c0 r req"
| "justified X c0 ths r (Loaded req share) =
     (admitted X c0 r req \<and> has_source (db (snd (snd c0))) ths (retrieve_key req) share)"
| "justified X c0 ths r (Answered a) =
     (case a of None \<Rightarrow> True | Some w \<Rightarrow> w_code w = Some 200 \<longrightarrow> released X c0 ths r w)"

lemma justified_stays:
  assumes "conc_step X (ths, rts, s) (ths', rts', s')" and "justified X c0 ths r pc"
  shows "justified X c0 ths' r pc"
  using assms(2) has_source_stays [OF assms(1)]
  by (cases pc) (auto simp: released_def split: option.splits, blast)

lemma retrieve_guard_cases:
  "case retrieve_guard E new_writer r s of
     Inl out \<Rightarrow> (case out of Served w s' \<Rightarrow> w_code w \<noteq> Some 200 | Panicked p w s' \<Rightarrow> True)
   | Inr (req, s1) \<Rightarrow> retrieve_authorized E r s req"
  by (auto simp: retrieve_guard_def retrieve_authorized_def case_prod_beta
      split: option.splits sum.splits result.splits bool.splits)

text \<open>A step keeps a retrieval justified.\<close>

lemma retrieve_step_justified:
  assumes step: "retrieve_step E rt s = (rt', s')" and X: "ne_ext E = X" and reach: "(conc_step X)\<^sup>*\<^sup>* c0 (ths, rts, s)"
    and ok: "conf_ok (db (snd (snd c0))) ths (db s)" and just: "justified X c0 ths (rt_r rt) (rt_pc rt)"
  shows "rt_r rt' = rt_r rt \<and> justified X c0 ths (rt_r rt) (rt_pc rt')"
proof (cases "rt_pc rt")
  case Arrived
  have adm: "retrieve_authorized E (rt_r rt) s req \<Longrightarrow> admitted X c0 (rt_r rt) req" for req
    using reach X unfolding admitted_def by blast
  show ?thesis
  proof (cases "retrieve_guard E new_writer (rt_r rt) s")
    case (Inl out)
    then show ?thesis
      using step Arrived retrieve_guard_cases [where E = E and r = "rt_r rt" and s = s]
      by (auto simp: retrieve_step_def answer_of_def split: outcome.splits)
  next
    case (Inr p)
    then show ?thesis
      using step Arrived adm retrieve_guard_cases [where E = E and r = "rt_r rt" and s = s]
      by (auto simp: retrieve_step_def split: prod.splits)
  qed
next
  case (Admitted req)
  have "BoltStore.content (db s) (retrieve_key req) = Some share \<Longrightarrow> has_source (db (snd (snd c0))) ths (retrieve_key req) share"
    for share using conf_ok_source [OF ok] .
  then show ?thesis
    using step Admitted just
    by (auto simp: retrieve_step_def retrieve_load_def answer_of_def BoltStore.content_eq_Some
        split: result.splits bool.splits prod.splits)
next
  case (Loaded req share)
  have "held_key X c0 (nodePrivateKey s)" using reach unfolding held_key_def by blast
  then have "released X c0 ths (rt_r rt) w"
    if "DecryptShare X (nodePrivateKey s) (slice_bytes (sh_EphemeralPubKey share)) (slice_bytes (sh_Ciphertext share))
        (slice_bytes (sh_Nonce share)) = Ok pt" "w_body w = json_print (RetrieveResponse_json (hex_EncodeToString pt)) @ [CHR 0x0A]"
    for pt w using that just Loaded unfolding released_def by (simp, blast)
  then show ?thesis
    using step Loaded X
    by (auto simp: retrieve_step_def release_stored_def answer_of_def Let_def json_Encode_def write_body_def header_set_def new_writer_def
        split: result.splits)
next
  case (Answered a)
  then show ?thesis using step just by (simp add: retrieve_step_def)
qed

lemma reach_justified:
  assumes "(conc_step X)\<^sup>*\<^sup>* (ths0, rts0, s0) (ths, rts, s)" and "db_good (db s0)"
    and "\<forall>th \<in> set ths0. th_pc th = Checking \<and> sh_Ciphertext (th_share th) \<noteq> None"
    and "\<forall>rt \<in> set rts0. rt_pc rt = Arrived"
  shows "\<forall>rt \<in> set rts. justified X (ths0, rts0, s0) ths (rt_r rt) (rt_pc rt)"
  using assms(1)
proof (induction "(ths, rts, s)" arbitrary: ths rts s rule: rtranclp_induct)
  case base
  show ?case using assms(4) by simp
next
  case (step c)
  obtain ths1 rts1 s1 where c: "c = (ths1, rts1, s1)" by (cases c)
  note reach = step.hyps(1) [unfolded c] and move = step.hyps(2) [unfolded c]
  have just: "\<forall>rt \<in> set rts1. justified X (ths0, rts0, s0) ths1 (rt_r rt) (rt_pc rt)" using step.hyps(3) c by blast
  have ok: "conf_ok (db s0) ths1 (db s1)" by (rule reach_conf_ok [OF reach assms(2,3)])
  from move show ?case
  proof cases
    case (retrieve j E rt')
    have rt: "rts1 ! j \<in> set rts1" using retrieve by simp
    have "rt_r rt' = rt_r (rts1 ! j) \<and> justified X (ths0, rts0, s0) ths1 (rt_r (rts1 ! j)) (rt_pc rt')"
      by (rule retrieve_step_justified [OF retrieve(5,4) reach]) (use ok just rt in simp_all)
    then show ?thesis using just set_update_subset_insert [of rts1 j rt'] retrieve by auto
  qed (use just justified_stays [OF move] in blast)+
qed

text \<open>C7: whatever the interleaving, a retrieval that is answered with 200 was authorised at some moment of the run, and
  the answer is the plaintext of a share that its key held at the beginning or was given by an acknowledged
  store request, under a private key the node has had. A share that was looked up but not yet
  acknowledged is never released.\<close>

theorem concurrent_retrievals:
  assumes "(conc_step X)\<^sup>*\<^sup>* (ths0, rts0, s0) (ths, rts, s)" and "db_good (db s0)"
    and "\<forall>th \<in> set ths0. th_pc th = Checking \<and> sh_Ciphertext (th_share th) \<noteq> None"
    and "\<forall>rt \<in> set rts0. rt_pc rt = Arrived"
    and "rt \<in> set rts" and "rt_pc rt = Answered (Some w)" and "w_code w = Some 200"
  shows "\<exists>req share key pt.
    (\<exists>ths1 rts1 s1 E. (conc_step X)\<^sup>*\<^sup>* (ths0, rts0, s0) (ths1, rts1, s1) \<and> ne_ext E = X \<and> retrieve_authorized E (rt_r rt) s1 req) \<and>
    (BoltStore.content (db s0) (retrieve_key req) = Some share \<or>
       (\<exists>th \<in> set ths. acknowledged (retrieve_key req) th \<and> th_share th = share)) \<and>
    (\<exists>ths2 rts2 s2. (conc_step X)\<^sup>*\<^sup>* (ths0, rts0, s0) (ths2, rts2, s2) \<and> nodePrivateKey s2 = key) \<and>
    DecryptShare X key (slice_bytes (sh_EphemeralPubKey share)) (slice_bytes (sh_Ciphertext share))
      (slice_bytes (sh_Nonce share)) = Ok pt \<and>
    w_body w = json_print (RetrieveResponse_json (hex_EncodeToString pt)) @ [CHR 0x0A]"
proof -
  have "justified X (ths0, rts0, s0) ths (rt_r rt) (Answered (Some w))"
    using reach_justified [OF assms(1-4)] assms(5,6) by metis
  then have "released X (ths0, rts0, s0) ths (rt_r rt) w" using assms(7) by simp
  then show ?thesis unfolding released_def admitted_def has_source_def held_key_def snd_conv .
qed

text \<open>A retrieval that runs alone.\<close>

lemma retrieve_run:
  assumes "ne_ext E = X" and "out = handleRetrieveShare E new_writer r s"
  shows "(conc_step X)\<^sup>*\<^sup>* (ths, [\<lparr>rt_r = r, rt_pc = Arrived\<rparr>], s)
    (ths, [\<lparr>rt_r = r, rt_pc = Answered (answer_of out)\<rparr>], outcome_state out)"
proof -
  have step: "conc_step X (ths, [rt], t) (ths, [fst (retrieve_step E rt t)], snd (retrieve_step E rt t))" for rt t
    using conc_step.retrieve [where j = 0 and rts = "[rt]" and E = E and s = t] assms(1) by simp
  let ?c1 = "retrieve_step E \<lparr>rt_r = r, rt_pc = Arrived\<rparr> s"
  let ?c2 = "retrieve_step E (fst ?c1) (snd ?c1)"
  have "retrieve_step E (fst ?c2) (snd ?c2) = (\<lparr>rt_r = r, rt_pc = Answered (answer_of out)\<rparr>, outcome_state out)"
    by (rule retrieve_thread_is_handler [OF _ _ assms(2)]) simp_all
  then have "conc_step X (ths, [fst ?c2], snd ?c2) (ths, [\<lparr>rt_r = r, rt_pc = Answered (answer_of out)\<rparr>], outcome_state out)"
    using step [of "fst ?c2" "snd ?c2"] by simp
  then show ?thesis
    using step [of "\<lparr>rt_r = r, rt_pc = Arrived\<rparr>" s] step [of "fst ?c1" "snd ?c1"]
    by (meson converse_rtranclp_into_rtranclp r_into_rtranclp)
qed

theorem concurrent_retrievals_witness:
  "\<exists>s0 s w req share key pt.
    (conc_step ext_example)\<^sup>*\<^sup>* ([], [\<lparr>rt_r = retrieve_post alice_example, rt_pc = Arrived\<rparr>], s0 :: (alist_db, int) node_state)
      ([], [\<lparr>rt_r = retrieve_post alice_example, rt_pc = Answered (Some w)\<rparr>], s) \<and>
    BoltStore.content (db s0) (retrieve_key req) = Some share \<and>
    DecryptShare ext_example key (slice_bytes (sh_EphemeralPubKey share)) (slice_bytes (sh_Ciphertext share))
      (slice_bytes (sh_Nonce share)) = Ok pt \<and>
    w_body w = json_print (RetrieveResponse_json (hex_EncodeToString pt)) @ [CHR 0x0A]"
proof -
  let ?n = "replicate 12 (1 :: byte)" and ?e = "replicate 32 (2 :: byte)" and ?E = "node_for alice_example alice_example"
  let ?rq = "retrieve_request (retrieve_example alice_example)" and ?r = "retrieve_post alice_example"
  have key: "p256_Valid ext_example (replicate 32 1)" "p256_Valid ext_example ?e" "length ?n = 12"
      "int (length [9, 8, 7 :: byte]) \<le> gcm_max_plain" "length ?n = gcm_NonceSize"
      "p256_PublicKey ext_example (replicate 32 1) = replicate 32 1" "p256_PublicKey ext_example ?e = ?e"
    by (simp_all add: ext_example_def gcm_max_plain_def gcm_NonceSize_def)
  obtain ct where enc0: "ECIESEncrypt ext_example (Inr ?e) (Inr ?n) (p256_PublicKey ext_example (replicate 32 1)) [9, 8, 7] =
        Ok (p256_PublicKey ext_example ?e, ct, ?n)"
    by (rule ECIESEncrypt_ok [OF p256_ok_example key(1,2,5,4)]) blast
  note enc = enc0 [unfolded key(7)]
  have dec: "DecryptShare ext_example (replicate 32 1) ?e ct ?n = Ok [9, 8, 7]"
    by (rule ECIES_DecryptShare [OF p256_ok_example key(1) _ _ enc]) (use key in auto)
  let ?sh = "\<lparr>sh_EphemeralPubKey = Some ?e, sh_Ciphertext = Some ct, sh_Nonce = Some ?n\<rparr>"
  have good0: "db_good (db state_example)" by (simp add: state_example_def)
  obtain d where d: "saveShare (db state_example) (retrieve_key ?rq) ?sh = Ok d" using save_example by blast
  let ?s = "state_example\<lparr>db := d\<rparr>"
  have good: "db_good (db ?s)" using BoltStore.Save_good [OF good0 d] by simp
  have held: "BoltStore.content (db ?s) (retrieve_key ?rq) = Some ?sh" using BoltStore.content_Save [OF good0 d] by simp
  have auth: "retrieve_authorized ?E ?r ?s ?rq"
    by (rule retrieve_authorized_example) (simp_all add: alice_example_def state_example_def)
  let ?out = "handleRetrieveShare ?E new_writer ?r ?s"
  let ?w = "json_Encode (RetrieveResponse_json (hex_EncodeToString [9, 8, 7])) (header_set ''Content-Type'' ''application/json'' new_writer)"
  have w: "answer_of ?out = Some ?w"
    using held dec unfolding handleRetrieveShare_authorized [OF auth] BoltStore.content_eq_Some
    by (simp add: release_defs slice_bytes_def node_for_fields state_example_def answer_of_def)
  have reach: "(conc_step ext_example)\<^sup>*\<^sup>* ([], [\<lparr>rt_r = ?r, rt_pc = Arrived\<rparr>], ?s)
      ([], [\<lparr>rt_r = ?r, rt_pc = Answered (Some ?w)\<rparr>], outcome_state ?out)"
    using retrieve_run [of ?E ext_example _ ?r ?s "[]", OF _ refl] unfolding w by (simp add: node_for_fields)
  from concurrent_retrievals [OF reach good, of "\<lparr>rt_r = ?r, rt_pc = Answered (Some ?w)\<rparr>" ?w]
  obtain req share key pt where "BoltStore.content (db ?s) (retrieve_key req) = Some share"
      "DecryptShare ext_example key (slice_bytes (sh_EphemeralPubKey share)) (slice_bytes (sh_Ciphertext share))
        (slice_bytes (sh_Nonce share)) = Ok pt"
      "w_body ?w = json_print (RetrieveResponse_json (hex_EncodeToString pt)) @ [CHR 0x0A]"
    by (auto simp: json_Encode_code)
  with reach show ?thesis by blast
qed

end
