(* ===== verification/Contract_Modules.thy ===== *)
theory Contract_Modules
  imports Contract "HOL-Library.Word"
begin

text \<open>
  The functions of the contract crate that are not entry points of the allowlist contract:
  \<open>contract/src/multi_admin.rs\<close>, \<open>contract/src/per_object.rs\<close> and \<open>upgrade\<close> of \<open>contract/src/lib.rs\<close>. Addresses and
  symbols are in text form. Of the persistent storage the record holds the entry of \<open>ADMINS_KEY\<close>, the
  entries under an object and an account, and those under ''delegate'', an object and an account; the
  three kinds of keys are different types, so no two of them meet. \<open>x_Sequence\<close> is the sequence number of
  the ledger and \<open>x_Wasm\<close> the hash of the deployed code. A function that traps is a \<open>Panic\<close>, and changes nothing.
\<close>

record ObjectAccess =
  granted :: bool
  expiry_ledger :: "32 word option"
  delegated_from :: "string option"

datatype crate_event =
    AccessGranted string string
  | AccessDenied string string
  | ContractUpgraded bytes

record crate_state =
  x_Admins :: "string list option"
  x_Objects :: "string \<times> string \<Rightarrow> ObjectAccess option"
  x_Delegates :: "string \<times> string \<Rightarrow> string option"
  x_Sequence :: "32 word"
  x_Wasm :: bytes
  x_Events :: "crate_event list"

subsection \<open>Administrators\<close>

definition get_admins :: "crate_state \<Rightarrow> string list" where
  "get_admins x = (case x_Admins x of None \<Rightarrow> [] | Some as \<Rightarrow> as)"

primrec admin_loop :: "string set \<Rightarrow> string \<Rightarrow> string list \<Rightarrow> unit result" where
  "admin_loop auths caller [] = Panic ''ENotAdmin''"
| "admin_loop auths caller (admin # as) =
     (if admin = caller then require_auth auths caller else admin_loop auths caller as)"

definition require_any_admin :: "string set \<Rightarrow> string \<Rightarrow> crate_state \<Rightarrow> unit result" where
  "require_any_admin auths caller x = admin_loop auths caller (get_admins x)"

definition add_admin :: "string set \<Rightarrow> string \<Rightarrow> string \<Rightarrow> crate_state \<Rightarrow> crate_state result" where
  "add_admin auths caller new_admin x =
     bind_result (require_any_admin auths caller x) (\<lambda>_.
       let admins = get_admins x in
       Ok (if new_admin \<notin> set admins then x\<lparr>x_Admins := Some (admins @ [new_admin])\<rparr> else x))"

definition remove_admin :: "string set \<Rightarrow> string \<Rightarrow> string \<Rightarrow> crate_state \<Rightarrow> crate_state result" where
  "remove_admin auths caller target x =
     bind_result (require_any_admin auths caller x) (\<lambda>_.
       Ok (x\<lparr>x_Admins := Some (filter (\<lambda>a. a \<noteq> target) (get_admins x))\<rparr>))"

definition delegate :: "string set \<Rightarrow> string \<Rightarrow> string \<Rightarrow> string \<Rightarrow> crate_state \<Rightarrow> crate_state result" where
  "delegate auths delegator to object_id x =
     bind_result (require_auth auths delegator) (\<lambda>_.
       Ok (x\<lparr>x_Delegates := (x_Delegates x)((object_id, to) \<mapsto> delegator)\<rparr>))"

subsection \<open>Access to single objects\<close>

definition grant_object_access ::
  "string set \<Rightarrow> string \<Rightarrow> string \<Rightarrow> string \<Rightarrow> 32 word option \<Rightarrow> crate_state \<Rightarrow> crate_state result" where
  "grant_object_access auths admin object_id account expiry x =
     bind_result (require_auth auths admin) (\<lambda>_.
       Ok (x\<lparr>x_Objects := (x_Objects x)((object_id, account) \<mapsto>
         \<lparr>granted = True, expiry_ledger = expiry, delegated_from = None\<rparr>)\<rparr>))"

definition revoke_object_access :: "string set \<Rightarrow> string \<Rightarrow> string \<Rightarrow> string \<Rightarrow> crate_state \<Rightarrow> crate_state result" where
  "revoke_object_access auths admin object_id account x =
     bind_result (require_auth auths admin) (\<lambda>_.
       Ok (x\<lparr>x_Objects := (x_Objects x)((object_id, account) := None)\<rparr>))"

definition check_object_access :: "string \<Rightarrow> string \<Rightarrow> crate_state \<Rightarrow> bool" where
  "check_object_access object_id account x =
     (case x_Objects x (object_id, account) of
        Some access \<Rightarrow>
          (case expiry_ledger access of
             Some expiry \<Rightarrow> if x_Sequence x > expiry then False else granted access
           | None \<Rightarrow> granted access)
      | None \<Rightarrow> False)"

definition emit_access_granted :: "string \<Rightarrow> string \<Rightarrow> crate_state \<Rightarrow> crate_state" where
  "emit_access_granted caller object_id x = x\<lparr>x_Events := x_Events x @ [AccessGranted caller object_id]\<rparr>"

definition emit_access_denied :: "string \<Rightarrow> string \<Rightarrow> crate_state \<Rightarrow> crate_state" where
  "emit_access_denied caller object_id x = x\<lparr>x_Events := x_Events x @ [AccessDenied caller object_id]\<rparr>"

subsection \<open>Upgrade\<close>

definition upgrade :: "string set \<Rightarrow> string \<Rightarrow> bytes \<Rightarrow> crate_state \<Rightarrow> crate_state result" where
  "upgrade auths caller new_wasm_hash x =
     bind_result (require_auth auths caller) (\<lambda>_.
       Ok (x\<lparr>x_Wasm := new_wasm_hash, x_Events := x_Events x @ [ContractUpgraded new_wasm_hash]\<rparr>))"

subsection \<open>Sequences of calls\<close>

text \<open>Calls of the functions, with ledgers closing in between; \<open>auths\<close> are the addresses that authorise them.\<close>

inductive crate_step :: "string set \<Rightarrow> crate_state \<Rightarrow> crate_state \<Rightarrow> bool" for auths where
  add_admin: "add_admin auths caller a x = Ok x' \<Longrightarrow> crate_step auths x x'"
| remove_admin: "remove_admin auths caller a x = Ok x' \<Longrightarrow> crate_step auths x x'"
| delegate: "delegate auths a b obj x = Ok x' \<Longrightarrow> crate_step auths x x'"
| grant: "grant_object_access auths a obj b e x = Ok x' \<Longrightarrow> crate_step auths x x'"
| revoke: "revoke_object_access auths a obj b x = Ok x' \<Longrightarrow> crate_step auths x x'"
| upgrade: "upgrade auths a h x = Ok x' \<Longrightarrow> crate_step auths x x'"
| event_granted: "crate_step auths x (emit_access_granted a obj x)"
| event_denied: "crate_step auths x (emit_access_denied a obj x)"
| ledger: "x_Sequence x \<le> n \<Longrightarrow> crate_step auths x (x\<lparr>x_Sequence := n\<rparr>)"

lemma admin_loop_Ok [simp]: "admin_loop auths caller as = Ok () \<longleftrightarrow> caller \<in> set as \<and> caller \<in> auths"
  by (induction as) (auto simp: require_auth_def)

lemma admin_loop_cases: "admin_loop auths caller as =
    (if caller \<notin> set as then Panic ''ENotAdmin'' else require_auth auths caller)"
  by (induction as) auto

lemma require_any_admin_Ok [simp]: "require_any_admin auths caller x = Ok u \<longleftrightarrow> caller \<in> set (get_admins x) \<and> caller \<in> auths"
  by (simp add: require_any_admin_def)

lemma require_auth_Ok [simp]: "require_auth auths a = Ok u \<longleftrightarrow> a \<in> auths"
  by (simp add: require_auth_def)

lemmas crate_defs = add_admin_def remove_admin_def delegate_def grant_object_access_def revoke_object_access_def upgrade_def
  emit_access_granted_def emit_access_denied_def Let_def

text \<open>Only calls an administrator has authorised touch the list, and the list keeps its elements distinct.\<close>

lemma crate_step_admins:
  assumes "crate_step auths x x'"
  shows "get_admins x' = get_admins x \<or> set (get_admins x) \<inter> auths \<noteq> {}"
  using assms by cases (auto simp: crate_defs get_admins_def split: if_splits)

lemma crate_step_distinct:
  assumes "crate_step auths x x'" and "distinct (get_admins x)"
  shows "distinct (get_admins x')"
  using assms by cases (auto simp: crate_defs get_admins_def split: if_splits)

text \<open>Calls that no current administrator has authorised do not change who is an administrator. In particular,
  on a contract that has no administrator, as every contract is after its deployment, there will never be one.\<close>

theorem admins_only:
  assumes "(crate_step auths)\<^sup>*\<^sup>* x x'" and "set (get_admins x) \<inter> auths = {}"
  shows "get_admins x' = get_admins x"
  using assms
proof (induction rule: rtranclp_induct)
  case (step x1 x2)
  with crate_step_admins [OF step.hyps(2)] show ?case by simp
qed simp

corollary admins_bootstrap:
  assumes "(crate_step auths)\<^sup>*\<^sup>* x x'" and "x_Admins x = None"
  shows "is_panic (add_admin auths caller a x')"
proof -
  have "get_admins x' = []" using admins_only [OF assms(1)] assms(2) by (simp add: get_admins_def)
  then show ?thesis by (simp add: add_admin_def require_any_admin_def)
qed

text \<open>A grant lasts up to its expiry ledger, included. A delegation gives no access: nothing reads it.\<close>

lemma grant_lifetime:
  assumes "grant_object_access auths a obj acc e x = Ok x'"
  shows "check_object_access obj acc (x'\<lparr>x_Sequence := n\<rparr>) \<longleftrightarrow> (case e of None \<Rightarrow> True | Some l \<Rightarrow> n \<le> l)"
  using assms by (auto simp: crate_defs check_object_access_def not_less split: option.splits)

lemma check_object_access_cong:
  "x_Objects x = x_Objects y \<Longrightarrow> x_Sequence x = x_Sequence y \<Longrightarrow> check_object_access obj acc x = check_object_access obj acc y"
  by (simp add: check_object_access_def split: option.splits)

lemma delegate_no_access:
  "delegate auths a b obj x = Ok x' \<Longrightarrow> check_object_access obj' acc x' = check_object_access obj' acc x"
  by (rule check_object_access_cong) (auto simp: crate_defs)

lemma revoked: "revoke_object_access auths a obj acc x = Ok x' \<Longrightarrow> \<not> check_object_access obj acc x'"
  by (auto simp: crate_defs check_object_access_def)

text \<open>The functions ask for the authorisation of the address they are given as the caller or the admin, not of
  an administrator: from every state, whoever the administrators are, an account that authorises only its own
  calls gets access to any object, for every later ledger, and replaces the code of the contract.\<close>

theorem crate_takeover:
  "\<exists>x'. (crate_step {mallory})\<^sup>*\<^sup>* x x' \<and> get_admins x' = get_admins x \<and>
     (\<forall>n. check_object_access obj mallory (x'\<lparr>x_Sequence := n\<rparr>)) \<and> x_Wasm x' = new_wasm_hash"
proof -
  obtain x1 where grant: "grant_object_access {mallory} mallory obj mallory None x = Ok x1"
    by (simp add: crate_defs require_auth_def)
  obtain x2 where up: "upgrade {mallory} mallory new_wasm_hash x1 = Ok x2"
    by (simp add: crate_defs require_auth_def)
  have "(crate_step {mallory})\<^sup>*\<^sup>* x x2"
    using crate_step.grant [OF grant] crate_step.upgrade [OF up] by (meson r_into_rtranclp rtranclp_trans)
  moreover have "get_admins x2 = get_admins x" "x_Wasm x2 = new_wasm_hash" "x_Objects x2 = x_Objects x1"
    using grant up by (auto simp: crate_defs get_admins_def)
  moreover have "check_object_access obj mallory (x2\<lparr>x_Sequence := n\<rparr>)" for n
    using check_object_access_cong [of "x2\<lparr>x_Sequence := n\<rparr>" "x1\<lparr>x_Sequence := n\<rparr>" obj mallory]
      grant_lifetime [OF grant] \<open>x_Objects x2 = x_Objects x1\<close> by simp
  ultimately show ?thesis by blast
qed

end
