(* ===== verification/Go_Json_Fuel.thy ===== *)
theory Go_Json_Fuel
  imports Go_Json
begin

text \<open>
  The fuel of the JSON reader never decides: a successful reading needs no more of it than it
  consumes characters, so the length of the text is as good as any larger amount.
\<close>

lemma skip_ws_length: "skip_ws s = t \<Longrightarrow> length t \<le> length s"
  using length_dropWhile_le by blast

lemma p_string_shorter: "p_string s = Some (t, r) \<Longrightarrow> length r < length s"
proof (induction s arbitrary: t rule: p_string.induct)
  case (2 c cs)
  show ?case
  proof (cases "c = CHR 0x5C")
    case True
    then obtain d ds where cs: "cs = d # ds" using 2(4) by (cases cs) simp_all
    show ?thesis
    proof (cases "d = CHR ''u''")
      case u: True
      obtain w x y z q n t' where q: "ds = w # x # y # z # q" "hex4 w x y z = Some n"
          "p_string (snd (decode_rune n q)) = Some (t', r)"
        using 2(4) True cs u by (auto split: list.splits option.splits)
      have "length r < length (snd (decode_rune n q))"
        using 2(1) [OF _ True cs u q(1) refl refl refl q(2)] True q(3) by simp
      then show ?thesis using decode_rune_length [of n q] cs q(1) by simp
    next
      case False
      then obtain e t' where e: "simple_escape d = Some e" "p_string ds = Some (t', r)"
        using 2(4) True cs by (auto split: option.splits)
      have "length r < length ds" using 2(2) [OF _ True cs False e(1)] True e(2) by simp
      then show ?thesis using cs by simp
    qed
  next
    case False
    then show ?thesis using 2(3,4) by (auto split: if_splits)
  qed
qed simp

lemma p_literal_shorter: "p_literal w v s = Some (u, r) \<Longrightarrow> w \<noteq> [] \<Longrightarrow> length r < length s"
  by (cases s) (auto simp: p_literal_def split: if_splits)

lemma p_digits_length: "p_digits s = (d, r) \<Longrightarrow> length d + length r = length s"
  unfolding p_digits_def by (metis Pair_inject length_append takeWhile_dropWhile_id)

lemma p_frac_length: "p_frac s = Some (d, r) \<Longrightarrow> length r \<le> length s"
  by (auto simp: p_frac_def dest: p_digits_length split: list.splits if_splits prod.splits)

lemma p_exp_length: "p_exp s = Some (d, r) \<Longrightarrow> length r \<le> length s"
  by (auto simp: p_exp_def dest: p_digits_length split: list.splits if_splits prod.splits)

lemma p_number_shorter:
  assumes "p_number s = Some (d, r)"
  shows "length r < length s"
proof -
  obtain sg s1 where s1: "(case s of c # cs \<Rightarrow> if c = CHR ''-'' then ([c], cs) else ([], s) | [] \<Rightarrow> ([], s)) = (sg, s1)"
    by force
  obtain ip s2 where s2: "(case s1 of c # cs \<Rightarrow> if c = CHR ''0'' then ([c], cs) else p_digits s1 | [] \<Rightarrow> p_digits s1) = (ip, s2)"
    by force
  obtain fp s3 ep where s3: "ip \<noteq> []" "p_frac s2 = Some (fp, s3)" "p_exp s3 = Some (ep, r)"
    using assms unfolding p_number_def s1 Let_def prod.case s2 by (auto split: if_splits option.splits)
  have "length s1 \<le> length s" using s1 by (auto split: list.splits if_splits)
  moreover have "length s2 < length s1"
    using s2 p_digits_length [of s1 ip s2] s3(1) [folded length_greater_0_conv]
    by (auto split: list.splits if_splits simp del: length_greater_0_conv)
  ultimately show ?thesis using p_frac_length [OF s3(2)] p_exp_length [OF s3(3)] by linarith
qed

text \<open>A successful reading consumes something, and any fuel of at least what it consumes gives the same.\<close>

abbreviation enough :: "(nat \<Rightarrow> string \<Rightarrow> ('a \<times> string) option) \<Rightarrow> string \<Rightarrow> 'a \<Rightarrow> string \<Rightarrow> bool" where
  "enough p s v r \<equiv> length r < length s \<and> (\<forall>m. length s \<le> length r + m \<longrightarrow> p m s = Some (v, r))"

lemma reading_consumes:
  "p_value n s = Some (v, r) \<Longrightarrow> enough p_value s v r"
  "p_elems n s = Some (vs, r) \<Longrightarrow> enough p_elems s vs r"
  "p_members n s = Some (ms, r) \<Longrightarrow> enough p_members s ms r"
proof (induction n s and n s and n s arbitrary: v r and vs r and ms r rule: p_value_p_elems_p_members.induct)
  case (2 n s)
  then obtain c cs where s: "skip_ws s = c # cs" by (cases "skip_ws s") simp_all
  have cs: "length cs < length s" using skip_ws_length [OF s] by simp
  consider (obj) "c = CHR ''{''" | (arr) "c = CHR ''[''" | (scalar) "c \<noteq> CHR ''{''" "c \<noteq> CHR ''[''" by blast
  then show ?case
  proof cases
    case obj
    then obtain d ds where d: "skip_ws cs = d # ds" using 2(3) s by (cases "skip_ws cs") simp_all
    have ds: "length ds < length cs" using skip_ws_length [OF d] by simp
    show ?thesis
    proof (cases "d = CHR ''}''")
      case True
      then have "v = JObj []" "r = ds" using 2(3) s obj d by simp_all
      moreover have "p_value m s = Some (v, r)" if "length s \<le> length r + m" for m
        using that calculation s cs ds d True obj by (cases m) auto
      ultimately show ?thesis using cs ds by auto
    next
      case False
      then obtain ms where ms: "p_members n (d # ds) = Some (ms, r)" "v = JObj ms" using 2(3) s obj d by auto
      note IH = 2(1) [OF s obj d False ms(1)]
      have "p_value m s = Some (v, r)" if "length s \<le> length r + m" for m
        using that IH ms(2) s cs ds d False obj by (cases m) auto
      then show ?thesis using IH cs ds by auto
    qed
  next
    case arr
    then obtain d ds where d: "skip_ws cs = d # ds" using 2(3) s by (cases "skip_ws cs") simp_all
    have ds: "length ds < length cs" using skip_ws_length [OF d] by simp
    show ?thesis
    proof (cases "d = CHR '']''")
      case True
      then have "v = JArr []" "r = ds" using 2(3) s arr d by simp_all
      moreover have "p_value m s = Some (v, r)" if "length s \<le> length r + m" for m
        using that calculation s cs ds d True arr by (cases m) auto
      ultimately show ?thesis using cs ds by auto
    next
      case False
      then obtain es where es: "p_elems n (d # ds) = Some (es, r)" "v = JArr es" using 2(3) s arr d by auto
      have "c \<noteq> CHR ''{''" using arr by simp
      note IH = 2(2) [OF s this arr d False es(1)]
      have "p_value m s = Some (v, r)" if "length s \<le> length r + m" for m
        using that IH es(2) s cs ds d False arr by (cases m) auto
      then show ?thesis using IH cs ds by auto
    qed
  next
    case scalar
    have same: "p_value (Suc m) s = p_value (Suc n) s" for m using s scalar by simp
    have "length r < length (c # cs)"
      using 2(3) s scalar
      by (auto split: if_splits dest!: p_string_shorter p_literal_shorter p_number_shorter)
    then have "length r < length s" using skip_ws_length [OF s] by simp
    moreover have "p_value m s = Some (v, r)" if "length s \<le> length r + m" for m
      using that calculation same 2(3) by (cases m) auto
    ultimately show ?thesis by blast
  qed
next
  case (4 n s)
  obtain v1 r1 c cs where v1: "p_value n s = Some (v1, r1)" "skip_ws r1 = c # cs"
    using 4(3) by (auto split: option.splits list.splits)
  note IH1 = 4(1) [OF v1(1)]
  have cs: "length cs < length r1" using skip_ws_length [OF v1(2)] by simp
  show ?case
  proof (cases "c = CHR '',''")
    case True
    then obtain vs' where tail: "p_elems n cs = Some (vs', r)" "vs = v1 # vs'" using 4(3) v1 by (auto)
    note IH2 = 4(2) [OF v1(1) refl v1(2) True tail(1)]
    have "p_elems m s = Some (vs, r)" if "length s \<le> length r + m" for m
    proof (cases m)
      case 0
      then show ?thesis using that IH1 IH2 cs by simp
    next
      case (Suc k)
      then have "p_value k s = Some (v1, r1)" "p_elems k cs = Some (vs', r)"
        using that IH1 IH2 cs by auto
      then show ?thesis using Suc v1(2) True tail(2) by simp
    qed
    then show ?thesis using IH1 IH2 cs by auto
  next
    case False
    then have "c = CHR '']''" "vs = [v1]" "r = cs" using 4(3) v1 by (auto split: if_splits)
    moreover have "p_elems m s = Some (vs, r)" if "length s \<le> length r + m" for m
      using that IH1 cs v1(2) False calculation by (cases m) auto
    ultimately show ?thesis using IH1 cs by auto
  qed
next
  case (6 n s)
  obtain q qs where s: "skip_ws s = q # qs" using 6(3) by (cases "skip_ws s") simp_all
  have q: "q = CHR 0x22" using 6(3) s by (simp split: if_splits)
  obtain k t where k: "p_string qs = Some (k, t)" using 6(3) s q by (auto split: option.splits)
  obtain c cs where c: "skip_ws t = c # cs" using 6(3) s q k by (auto split: list.splits)
  then have colon: "c = CHR '':''" using 6(3) s q k by (simp split: if_splits)
  obtain v1 r1 where v1: "p_value n cs = Some (v1, r1)" using 6(3) s q k c colon by (auto split: option.splits)
  obtain e es where e: "skip_ws r1 = e # es" using 6(3) s q k c colon v1 by (auto split: list.splits)
  have "\<not> q \<noteq> CHR 0x22" "\<not> c \<noteq> CHR '':''" using q colon by simp_all
  note pre = s this(1) k refl c this(2)
  note IH1 = 6(1) [OF pre v1]
  have len: "length es < length r1" "length cs < length t" "length t < length qs" "length qs < length s"
    using skip_ws_length [OF e] skip_ws_length [OF c] p_string_shorter [OF k] skip_ws_length [OF s] by simp_all
  show ?case
  proof (cases "e = CHR '',''")
    case True
    then obtain ms' where tail: "p_members n es = Some (ms', r)" "ms = (k, v1) # ms'"
      using 6(3) s q k c colon v1 e by auto
    note IH2 = 6(2) [OF pre v1 refl e True tail(1)]
    have "p_members m s = Some (ms, r)" if "length s \<le> length r + m" for m
    proof (cases m)
      case 0
      then show ?thesis using that IH1 IH2 len by simp
    next
      case (Suc j)
      then have "p_value j cs = Some (v1, r1)" "p_members j es = Some (ms', r)" using that IH1 IH2 len by auto
      then show ?thesis using Suc s q k c colon e True tail(2) by simp
    qed
    then show ?thesis using IH1 IH2 len by auto
  next
    case False
    then have "e = CHR ''}''" "ms = [(k, v1)]" "r = es" using 6(3) s q k c colon v1 e by (auto split: if_splits)
    moreover have "p_members m s = Some (ms, r)" if "length s \<le> length r + m" for m
      using that IH1 len s q k c colon e False calculation by (cases m) auto
    ultimately show ?thesis using IH1 len by auto
  qed
qed simp_all

text \<open>The reader of JSON texts terminates with the right answer: it is called with one more than the length of
  the text as fuel, and every larger amount, down to the length itself, gives the same result, so the
  fuel never decides whether a text is read or what is read.\<close>

theorem json_fuel_enough:
  "p_value (length s + k) s = p_value (Suc (length s)) s"
proof (cases "\<exists>n v r. p_value n s = Some (v, r)")
  case True
  then obtain n v r where "p_value n s = Some (v, r)" by blast
  from reading_consumes(1) [OF this] show ?thesis by (simp del: p_value.simps)
next
  case False
  then show ?thesis by (metis option.exhaust surj_pair)
qed

end
