(* ===== verification/Spec2Isabelle.thy ===== *)
theory Spec2Isabelle
  imports Attacks Client_Objectdb Client_Sdk Client_Streaming Node_Audit Node_Interleaving Node_Logger Node_Metrics
    Node_Surface Node_Retrievals Contract_Modules Go_Json_Fuel
begin

text \<open>
  \<^bold>\<open>soroban-encrypt.\<close> A client encrypts a file, splits the file key with Shamir's scheme and stores
  one share, encrypted to the key of a node (ECIES over P-256 with AES-GCM), on each of several
  nodes. A node returns the decrypted share to a caller who signs the request and submits a
  transaction that calls \<open>approve\<close> of an allowlist contract, if a Soroban RPC service simulates that
  transaction without error. This development models the Go programs \<open>node/\<close>, \<open>client/\<close>,
  \<open>pkg/sorobanencrypt\<close> and \<open>examples/\<close> and the contract crate \<open>contract/src\<close>.

  \<^bold>\<open>Conventions.\<close> A Go string is a HOL string (a list of bytes as characters), a byte slice a list of
  8-bit words, a slice that may be nil an option. A function that can fail returns \<open>'a result\<close>:
  \<open>Ok\<close>, \<open>Err\<close> with the message, or \<open>Panic\<close>. HTTP handlers take the response writer, the request and
  the state and give an \<open>outcome\<close>, which is \<open>Served\<close> or \<open>Panicked\<close>. Code that is not in the
  repository is a field of a record that the definitions take as an argument; what is relied on is
  a predicate on that record, and each predicate has a concrete instance (names ending in
  \<open>_example\<close>) that satisfies it and on which the witnesses evaluate the definitions:
  \<open>ext\<close> with \<open>p256_ok\<close>, \<open>stellar_ok\<close>, \<open>digest_ok\<close> (P-256, Ed25519, strkey, keypairs, SHA-256, HKDF, the AES block
  function), \<open>xdr_api\<close> with \<open>xdr_ok\<close> (Stellar SDK), \<open>bolt_api\<close> with \<open>bolt_ok\<close> (bbolt),
  \<open>limiter_api\<close> with \<open>limiter_ok\<close> (x/time/rate), \<open>keystore_env\<close> with \<open>keystore_ok\<close> (PEM, X.509,
  files), \<open>time_api\<close> with \<open>time_ok\<close>, \<open>client_env\<close> with \<open>write_ok\<close>,
  \<open>client_random\<close> and \<open>shamir_ok\<close> (network, files, randomness, Shamir), and \<open>rpc_honest\<close> for the RPC service.

  \<^bold>\<open>Language and standard library.\<close>
  \<^item> \<open>Prelude\<close>: results, bytes and strings, decimal numbers, generic lemmas.
  \<^item> \<open>Go_Hex\<close>, \<open>Go_Json\<close>, \<open>Go_Json_Indent\<close>: \<open>encoding/hex\<close> and \<open>encoding/json\<close> with their round trips. The
    JSON reader recurses with fuel, one more than the length of the text; \<open>json_fuel_enough\<close> in
    \<open>Go_Json_Fuel\<close> shows that every larger amount gives the same result. \<open>Go_Json_Prefix\<close>: a request that is
    cut off by the body limit is not decoded. The locale \<open>json_codec\<close> is what a struct offers through its
    tags; it is interpreted on stored shares, object records, client metadata and store requests.
  \<^item> \<open>Go_Gcm\<close>: AES-GCM (GHASH, counter mode, tag) over an arbitrary block function, with the locale \<open>aead\<close>.
  \<^item> \<open>Go_Http\<close>: response writers, request bodies with a limit, and the path multiplexer.
  \<^item> \<open>Externals\<close>, \<open>Stellar_Xdr\<close>: the parameter records for cryptography and the Stellar SDK.

  \<^bold>\<open>The node.\<close>
  \<^item> \<open>Node_Crypto\<close> (\<open>node/crypto.go\<close>, \<open>node/hkdf.go\<close>): share decryption and signature check.
  \<^item> \<open>Node_Store\<close> (\<open>node/store.go\<close>, \<open>node/store_interface.go\<close>): the share store over bbolt. The locale
    \<open>share_store\<close> is the interface \<open>ShareStore\<close>; its interpretation \<open>BoltStore\<close> shows that the functions
    refine a map from keys to shares.
  \<^item> \<open>Node_State\<close>: the package variables of the node as one record, and its environment.
  \<^item> \<open>Node_Keys\<close> (\<open>node/keystore.go\<close>, \<open>node/keymanager.go\<close>): the key file and the versioned keys, with the
    locale \<open>versioned_keys\<close>; versions are 64-bit words.
  \<^item> \<open>Node_Config\<close> (\<open>node/config.go\<close>, \<open>node/tls.go\<close>): configuration from the environment and its validation.
  \<^item> \<open>Node_Middleware\<close> (\<open>node/middleware.go\<close>, \<open>node/ratelimit.go\<close>, parts of \<open>node/metrics.go\<close>): the locale
    \<open>guard\<close> for a middleware that either rejects or passes on, interpreted on the API key, address list,
    metrics key and address rate limits; the locale \<open>keyed_limiter\<close> for the two families of token buckets.
  \<^item> \<open>Node_Soroban\<close> (\<open>node/main.go\<close>): checking and simulating the transaction.
  \<^item> \<open>Node_Handlers\<close> (\<open>node/handlers.go\<close>, \<open>node/rotate_handler.go\<close>): every endpoint, and exactly when a
    retrieval releases a share.
  \<^item> \<open>Node_Server\<close> (\<open>node/server.go\<close>, start-up in \<open>node/main.go\<close>, levels in \<open>node/logger.go\<close>): routes,
    start-up, shutdown, and the life of a server as the step relation \<open>node_step\<close>. The locale
    \<open>state_invariant\<close> lifts an invariant of the handlers to the server; it is interpreted five times.
  \<^item> \<open>Node_Race\<close>: store requests interleaved at their accesses to the store, by a schedule; \<open>Node_Interleaving\<close>:
    any number of store requests and retrievals, each in the steps between which others can come in, and of
    rotations, as the step relation \<open>conc_step\<close> with the invariant \<open>conf_ok\<close>. \<open>Node_Retrievals\<close>: where the
    plaintext of an answered retrieval comes from.
  \<^item> \<open>Node_Audit\<close>: what the audit log records. \<open>Node_Logger\<close> (\<open>node/logger.go\<close> and the redirect server of
    \<open>node/server.go\<close>): where the loggers write. \<open>Node_Metrics\<close> (\<open>node/metrics.go\<close>): the Prometheus collectors.
  \<^item> \<open>Node_Surface\<close>: what a client sees of a node. The locale \<open>related_runs\<close> lifts a relation between two runs
    through the server; its interpretation \<open>other_keys\<close> shows that the private keys show in nothing but the
    answers to retrievals. Which status codes there are, and that the request log tells them.

  \<^bold>\<open>The client and the contract.\<close>
  \<^item> \<open>Client_Crypto\<close> (\<open>client/crypto.go\<close>, \<open>client/hkdf.go\<close>), \<open>Client_Transaction\<close> (\<open>client/transaction.go\<close>).
  \<^item> \<open>Client_Main\<close> (\<open>client/main.go\<close>): the encrypt and decrypt commands over a file system and a network.
  \<^item> \<open>Client_Streaming\<close> (\<open>client/streaming.go\<close>): the chunked file format: round trip, truncation, panics
    and limits. The loops are structural or have a termination proof; no fuel is used.
  \<^item> \<open>Client_Objectdb\<close> (\<open>client/objectdb.go\<close>, \<open>client/objects_schema.go\<close>): the local registry of objects.
  \<^item> \<open>Client_Admin\<close> (\<open>client/admin/admin.go\<close>): the administrative client. \<open>Client_Sdk\<close>
    (\<open>pkg/sorobanencrypt\<close>, \<open>examples/\<close>): the SDK, whose functions are stubs in the source, and its examples.
  \<^item> \<open>Contract\<close> (\<open>contract/src/lib.rs\<close>): the allowlist as a state machine. \<open>Contract_Modules\<close>: the functions of the
    crate that are not entry points (\<open>multi_admin.rs\<close>, \<open>per_object.rs\<close>, \<open>upgrade\<close>), with the step relation \<open>crate_step\<close>.
  \<^item> \<open>Protocol\<close>: properties that span them: the ECIES round trip from client to node, the delivery of a
    share through the server of a node, the transaction of the client at the check of the node, and
    how the allowlist can be bypassed.

  \<^bold>\<open>The network.\<close>
  \<^item> \<open>Share_Network\<close>: what the two commands need of the nodes, as the locales \<open>share_keepers\<close> (nodes that keep
    what they acknowledge) and \<open>share_servers\<close> (nodes that answer an authorised caller); the loops of
    the commands are treated there once.
  \<^item> \<open>Network\<close>: a network maps addresses to node states, and \<open>net_call\<close> serves a request of the client with
    the handler \<open>buildMux\<close> of the node it is addressed to. The interpretations \<open>net_keepers\<close> and \<open>net_servers\<close>
    prove the laws of the two locales for the nodes of the program.
  \<^item> \<open>End_To_End\<close>: when encryption succeeds, and that decryption then gives back the file with any threshold of
    the nodes up. \<open>Access\<close>: what must have happened when decryption has succeeded.
  \<^item> \<open>Attacks\<close>: the purge command against a node, a granted request used for another object, a share stored
    under another object.

  \<^bold>\<open>What the theorems show.\<close> The intended behaviour: round trips (ECIES, stored shares, key file,
  object records, streamed files), the store as a map that is written once, exact conditions for the
  release of a share and for the transaction check, invariants of a serving node and of interleaved
  store requests, secrecy of the node keys, rate limits, the key history, authentication, status codes, the
  request log, the audit trail, the metrics, and the
  two commands end to end over a network of nodes. And where the code departs from its intention: a node started by \<open>main\<close> has
  no database, the arguments of \<open>approve\<close> are not checked, the write-once check is not atomic, a bad
  nonce is stored and panics later, a rotated key is lost on a restart, a retrieval takes two tokens,
  the purge endpoint is not routed, neither a granted request nor a stored share is bound to its object, empty and very large files do not survive the streaming format.

  \<^bold>\<open>Not modelled.\<close> Sockets, TLS and certificates, goroutine scheduling inside a handler other than between
  the steps of store requests and retrievals, console output, the text of JSON and hex errors, the
  limit of 10000 on the nesting depth of a JSON text, and the embedded dashboard. The multiplexer covers patterns that
  are plain paths. \<open>node_step\<close> and \<open>net_call\<close> serve requests one at a time; a client finds a node it cannot
  reach as a refused connection.
\<close>

end
